theory Spec2Isabelle
  imports Complex_Main
begin

section \<open>Data model (gemini.service.ts)\<close>

text \<open>
  JavaScript strings are lists of code units; this development works with code units
  below 256, one \<^typ>\<open>char\<close> each. JavaScript numbers are modelled as \<^typ>\<open>real\<close>.
  An optional property \<open>f?: T\<close> is a \<open>T option\<close>, \<open>None\<close> being \<open>undefined\<close>.
\<close>

datatype ReceiptStatus = processing | completed | error

record ReceiptItem =
  name :: string
  quantity :: real
  unit :: string
  unitPrice :: real
  totalPrice :: real
  category :: string

text \<open>
  The interfaces of analytics.service.ts that the shopping-list simulation reads and
  returns (the result type is anonymous in the source).
\<close>

record ProductPurchase =
  storeName :: string
  unitPrice :: real
  date :: string
  quantity :: real
  unit :: string

record ProductPriceInfo =
  name :: string
  category :: string
  purchases :: "ProductPurchase list"

record SimulationResult =
  storeName :: string
  total :: real
  foundItems :: nat
  missingItems :: "string list"

text \<open>\<open>ParsedReceiptData = Omit<ReceiptData, 'id' | 'url' | 'status' | 'error'>\<close>.\<close>

record ParsedReceiptData =
  storeName :: "string option"
  storeCnpj :: "string option"
  storeAddress :: "string option"
  date :: "string option"
  totalAmount :: "real option"
  items :: "ReceiptItem list option"
  payer :: "string option"
  isSynced :: "bool option"
  syncing :: "bool option"

text \<open>
  \<open>interface ReceiptData\<close>. The properties \<open>id\<close> and \<open>error\<close> are the fields
  \<open>id_r\<close> and \<open>error_r\<close>. Declared last of the records that share field names, so that
  an unqualified \<open>storeName\<close>, \<open>date\<close> or \<open>items\<close> below is the field of \<open>ReceiptData\<close>; the
  fields of the other records are written with the record's name.
\<close>

record ReceiptData =
  id_r :: string
  url :: "string option"
  status :: ReceiptStatus
  storeName :: "string option"
  storeCnpj :: "string option"
  storeAddress :: "string option"
  date :: "string option"
  totalAmount :: "real option"
  items :: "ReceiptItem list option"
  error_r :: "string option"
  payer :: "string option"
  isSynced :: "bool option"
  syncing :: "bool option"

text \<open>JavaScript truthiness of an optional string and of an optional boolean.\<close>

definition truthy_str :: "string option \<Rightarrow> bool" where
  "truthy_str v = (case v of None \<Rightarrow> False | Some s \<Rightarrow> s \<noteq> [])"

definition truthy_bool :: "bool option \<Rightarrow> bool" where
  "truthy_bool v = (case v of None \<Rightarrow> False | Some b \<Rightarrow> b)"

section \<open>Remote store bridge (google-sheets.service.ts)\<close>

text \<open>The payload of a JSONP request: \<open>{action: 'get'}\<close>, \<open>{action: 'save', data}\<close>,
  \<open>{action: 'delete', id}\<close>, \<open>{action: 'migrate'}\<close>.\<close>

datatype payload =
  GetPayload
  | SavePayload ReceiptData
  | DeletePayload string
  | MigratePayload

text \<open>How \<open>http.jsonp\<close> settles: it fails, or it delivers the response.\<close>

datatype 'a jsonp_outcome = JsonpFailed | JsonpResponse 'a

text \<open>The typed responses: \<open>{success, id} | null\<close> and \<open>{success, migratedCount, message} | null\<close>.\<close>

datatype SaveResult = SaveResult (success: bool) (result_id: string)

datatype MigrateResult = MigrateResult (m_success: bool) (migratedCount: nat) (message: string)

text \<open>
  The service's signals, and \<open>issued\<close>: the requests handed to \<open>http.jsonp\<close> so far, each with
  the endpoint it was addressed to, oldest first.
\<close>

record GoogleSheetsService =
  scriptUrl :: "string option"
  connectionError :: "string option"
  issued :: "(string \<times> payload) list"

text \<open>What an observable notifies its subscriber of: \<open>Inl\<close> an error, \<open>Inr\<close> a value.\<close>

type_synonym 'a notification = "string + 'a"

definition isConfigured :: "GoogleSheetsService \<Rightarrow> bool" where
  "isConfigured svc = truthy_str (scriptUrl svc)"

text \<open>\<open>setScriptUrl(url)\<close> and \<open>clearScriptUrl()\<close>, as they change the service.\<close>

definition setScriptUrl :: "string \<Rightarrow> GoogleSheetsService \<Rightarrow> GoogleSheetsService" where
  "setScriptUrl u svc =
     (if u \<noteq> [] \<and> take (length ''https://script.google.com/macros/s/'') u
                      = ''https://script.google.com/macros/s/''
      then svc\<lparr>scriptUrl := Some u, connectionError := None\<rparr>
      else svc)"

definition clearScriptUrl :: "GoogleSheetsService \<Rightarrow> GoogleSheetsService" where
  "clearScriptUrl svc = svc\<lparr>scriptUrl := None\<rparr>"

definition notConfiguredError :: string where
  "notConfiguredError =
     ''O servi'' @ [CHR 0xE7] @ ''o do Google Sheets n'' @ [CHR 0xE3] @ ''o est'' @ [CHR 0xE1]
       @ '' configurado.''"

definition userFriendlyError :: string where
  "userFriendlyError =
     ''Falha na comunica'' @ [CHR 0xE7, CHR 0xE3] @ ''o com o Google Sheets. Verifique se a URL ''
       @ ''do script est'' @ [CHR 0xE1] @ '' correta, sua conex'' @ [CHR 0xE3]
       @ ''o com a internet, e se o script foi implantado com acesso para ''
       @ [CHR 0x22] @ ''Qualquer pessoa'' @ [CHR 0x22] @ ''.''"

text \<open>Subscribing to \<open>http.jsonp(url, 'callback')\<close> issues the request to the current endpoint.\<close>

definition jsonp_issue :: "GoogleSheetsService \<Rightarrow> payload \<Rightarrow> GoogleSheetsService" where
  "jsonp_issue svc p =
     svc\<lparr>issued := issued svc @ [(case scriptUrl svc of None \<Rightarrow> [] | Some u \<Rightarrow> u, p)]\<rparr>"

text \<open>The \<open>map\<close> and \<open>catchError\<close> operators of \<open>jsonpRequest\<close>, run when the request settles.\<close>

definition jsonp_settle ::
  "GoogleSheetsService \<Rightarrow> 'a jsonp_outcome \<Rightarrow> GoogleSheetsService \<times> 'a notification" where
  "jsonp_settle svc out =
     (case out of
        JsonpResponse response \<Rightarrow> (svc\<lparr>connectionError := None\<rparr>, Inr response)
      | JsonpFailed \<Rightarrow>
          (svc\<lparr>connectionError := Some userFriendlyError\<rparr>, Inl userFriendlyError))"

definition jsonpRequest ::
  "GoogleSheetsService \<Rightarrow> payload \<Rightarrow> 'a jsonp_outcome \<Rightarrow> GoogleSheetsService \<times> 'a notification" where
  "jsonpRequest svc p out =
     (if \<not> isConfigured svc then (svc, Inl notConfiguredError)
      else jsonp_settle (jsonp_issue svc p) out)"

text \<open>\<open>pipe(catchError(error => of(fallback)))\<close>.\<close>

definition catchError_of ::
  "'a \<Rightarrow> GoogleSheetsService \<times> 'a notification \<Rightarrow> GoogleSheetsService \<times> 'a notification" where
  "catchError_of fallback res =
     (case res of (svc, Inl e) \<Rightarrow> (svc, Inr fallback) | (svc, Inr v) \<Rightarrow> (svc, Inr v))"

text \<open>
  What the endpoint answers to \<open>{action: 'get'}\<close>: the array of receipts, or the object
  \<open>{error, details}\<close> that \<open>handleGet\<close> and \<open>doGet\<close> send from their \<open>catch\<close>. \<open>jsonpRequest\<close>
  delivers either as it is (\<open>response as T\<close> checks nothing).
\<close>

datatype get_response = ReceiptArray "ReceiptData list" | ErrorResponse string "string option"

definition getReceipts ::
  "GoogleSheetsService \<Rightarrow> get_response jsonp_outcome
     \<Rightarrow> GoogleSheetsService \<times> get_response notification" where
  "getReceipts svc out =
     (if \<not> isConfigured svc then (svc, Inr (ReceiptArray []))
      else catchError_of (ReceiptArray []) (jsonpRequest svc GetPayload out))"

definition saveReceipt ::
  "GoogleSheetsService \<Rightarrow> ReceiptData \<Rightarrow> SaveResult option jsonp_outcome
     \<Rightarrow> GoogleSheetsService \<times> SaveResult option notification" where
  "saveReceipt svc receipt out =
     (if \<not> isConfigured svc then (svc, Inr None)
      else catchError_of None (jsonpRequest svc (SavePayload receipt) out))"

definition deleteReceipt_bridge ::
  "GoogleSheetsService \<Rightarrow> string \<Rightarrow> SaveResult option jsonp_outcome
     \<Rightarrow> GoogleSheetsService \<times> SaveResult option notification" where
  "deleteReceipt_bridge svc receiptId out =
     (if \<not> isConfigured svc then (svc, Inr None)
      else catchError_of None (jsonpRequest svc (DeletePayload receiptId) out))"

definition migrateOldData ::
  "GoogleSheetsService \<Rightarrow> MigrateResult option jsonp_outcome
     \<Rightarrow> GoogleSheetsService \<times> MigrateResult option notification" where
  "migrateOldData svc out =
     (if \<not> isConfigured svc then (svc, Inr None)
      else catchError_of None (jsonpRequest svc MigratePayload out))"

section \<open>Receipt store and queue engine (receipt.service.ts)\<close>

text \<open>
  The service's signals. \<open>extracting\<close> holds, for every call of \<open>processQueue\<close> that is
  suspended at its \<open>await\<close>, the \<open>receiptToProcess\<close> it captured.
\<close>

record ReceiptService =
  sheetsService :: GoogleSheetsService
  receipts :: "ReceiptData list"
  isLoading :: bool
  isProcessing :: bool
  extracting :: "ReceiptData list"

text \<open>
  \<open>this.sheetsService.saveReceipt(r).subscribe(...)\<close> and
  \<open>this.sheetsService.deleteReceipt(id).subscribe(...)\<close> at the moment of the call: a
  configured bridge issues the request, an unconfigured one issues nothing.
\<close>

definition subscribe_request :: "payload \<Rightarrow> ReceiptService \<Rightarrow> ReceiptService" where
  "subscribe_request p s =
     (if isConfigured (sheetsService s)
      then s\<lparr>sheetsService := jsonp_issue (sheetsService s) p\<rparr>
      else s)"

text \<open>\<open>current.map(r => r.id === id ? f(r) : r)\<close>.\<close>

definition map_by_id :: "string \<Rightarrow> (ReceiptData \<Rightarrow> ReceiptData) \<Rightarrow> ReceiptData list \<Rightarrow> ReceiptData list" where
  "map_by_id i f rs = map (\<lambda>r. if id_r r = i then f r else r) rs"

text \<open>\<open>addReceipt(url)\<close>; \<open>newId\<close> is the value of \<open>self.crypto.randomUUID()\<close>.\<close>

definition addReceipt :: "string \<Rightarrow> string \<Rightarrow> ReceiptService \<Rightarrow> ReceiptService" where
  "addReceipt newId u s =
     (case find (\<lambda>r. url r = Some u) (receipts s) of
        Some existing \<Rightarrow> s
      | None \<Rightarrow>
          (let newReceipt = \<lparr>id_r = newId, url = Some u, status = processing,
                 storeName = None, storeCnpj = None, storeAddress = None, date = None,
                 totalAmount = None, items = None, error_r = None, payer = None,
                 isSynced = Some False, syncing = None\<rparr>;
               s1 = s\<lparr>receipts := newReceipt # receipts s\<rparr>
           in if isConfigured (sheetsService s1)
              then subscribe_request (SavePayload newReceipt) s1
              else s1))"

text \<open>A sequence of \<open>addReceipt\<close> calls, each with the id it draws and its url.\<close>

fun addReceipts :: "(string \<times> string) list \<Rightarrow> ReceiptService \<Rightarrow> ReceiptService" where
  "addReceipts [] s = s"
| "addReceipts ((newId, u) # calls) s = addReceipts calls (addReceipt newId u s)"

text \<open>The urls that are present on the records of a list, in list order.\<close>

fun urls_of :: "ReceiptData list \<Rightarrow> string list" where
  "urls_of [] = []"
| "urls_of (r # rs) = (case url r of None \<Rightarrow> urls_of rs | Some u \<Rightarrow> u # urls_of rs)"

text \<open>The state a fresh service starts from (the field initialisers of the class).\<close>

definition new_service :: "GoogleSheetsService \<Rightarrow> ReceiptService" where
  "new_service svc =
     \<lparr>sheetsService = svc, receipts = [], isLoading = True, isProcessing = False,
      extracting = []\<rparr>"

definition unconfigured :: GoogleSheetsService where
  "unconfigured = \<lparr>scriptUrl = None, connectionError = None, issued = []\<rparr>"

subsection \<open>initialLoad\<close>

definition previousSessionError :: string where
  "previousSessionError = ''O processamento falhou em uma sess'' @ [CHR 0xE3] @ ''o anterior.''"

text \<open>
  What \<open>localStorage.getItem(STORAGE_KEY)\<close> holds: nothing (null or the empty string), a text
  that \<open>JSON.parse\<close> or the \<open>map\<close> over it rejects, or a serialised receipt list.
\<close>

datatype local_snapshot = NoSnapshot | BadSnapshot | Snapshot "ReceiptData list"

definition sanitize :: "ReceiptData \<Rightarrow> ReceiptData" where
  "sanitize r =
     (let baseReceipt =
        (if status r = processing
         then r\<lparr>status := error, error_r := Some previousSessionError\<rparr>
         else r\<lparr>status := status r\<rparr>)
      in baseReceipt\<lparr>isSynced := Some True\<rparr>)"

text \<open>
  \<open>initialLoad()\<close> up to its return: with a configured bridge it subscribes to
  \<open>getReceipts()\<close>, otherwise it reads the local snapshot.
\<close>

definition initialLoad :: "local_snapshot \<Rightarrow> ReceiptService \<Rightarrow> ReceiptService" where
  "initialLoad localData s =
     (let s1 = s\<lparr>isLoading := True\<rparr>
      in if isConfigured (sheetsService s1) then subscribe_request GetPayload s1
         else (case localData of
                 NoSnapshot \<Rightarrow> s1
               | BadSnapshot \<Rightarrow> s1\<lparr>receipts := []\<rparr>
               | Snapshot parsedData \<Rightarrow>
                   s1\<lparr>receipts := map (\<lambda>r. r\<lparr>isSynced := Some False\<rparr>) parsedData\<rparr>)
              \<lparr>isLoading := False\<rparr>)"

text \<open>The pipeline of \<open>getReceipts()\<close> when the request settles.\<close>

definition getReceipts_settle ::
  "GoogleSheetsService \<Rightarrow> get_response jsonp_outcome
     \<Rightarrow> GoogleSheetsService \<times> get_response notification" where
  "getReceipts_settle svc out = catchError_of (ReceiptArray []) (jsonp_settle svc out)"

text \<open>
  The body of the subscriber, \<open>data => { ... }\<close>. On an array it sets the list and clears
  the loading flag. An object that is no array has no \<open>map\<close>, so \<open>data.map(...)\<close> throws a
  \<open>TypeError\<close> before either signal is set.
\<close>

definition notAFunction :: string where
  "notAFunction = ''data.map is not a function''"

definition initialLoad_next :: "get_response \<Rightarrow> ReceiptService \<Rightarrow> string + ReceiptService" where
  "initialLoad_next data s =
     (case data of
        ReceiptArray rs \<Rightarrow> Inr (s\<lparr>receipts := map sanitize rs, isLoading := False\<rparr>)
      | ErrorResponse e details \<Rightarrow> Inl notAFunction)"

text \<open>
  The subscriber of \<open>initialLoad\<close>, run when the request of \<open>getReceipts()\<close> settles. What
  the body throws is reported outside the call and caught by nobody: the service stays as
  the body left it.
\<close>

definition initialLoad_subscriber ::
  "get_response jsonp_outcome \<Rightarrow> ReceiptService \<Rightarrow> ReceiptService" where
  "initialLoad_subscriber out s =
     (case getReceipts_settle (sheetsService s) out of
        (svc, Inr data) \<Rightarrow>
          (case initialLoad_next data (s\<lparr>sheetsService := svc\<rparr>) of
             Inr s' \<Rightarrow> s'
           | Inl thrown \<Rightarrow> s\<lparr>sheetsService := svc\<rparr>)
      | (svc, Inl e) \<Rightarrow> s\<lparr>sheetsService := svc\<rparr>)"

subsection \<open>processQueue and the queue trigger\<close>

text \<open>What a rejected promise carries: an \<open>Error\<close> with its message, or any other value.\<close>

datatype thrown = ErrorObject string | OtherThrown

definition unknownProcessingFailure :: string where
  "unknownProcessingFailure = ''Falha desconhecida no processamento.''"

definition failure_message :: "thrown \<Rightarrow> string" where
  "failure_message e = (case e of ErrorObject m \<Rightarrow> m | OtherThrown \<Rightarrow> unknownProcessingFailure)"

text \<open>Object spread: a property that \<open>parsedData\<close> has overrides the receipt's.\<close>

definition spread :: "'a option \<Rightarrow> 'a option \<Rightarrow> 'a option" where
  "spread old new = (case new of None \<Rightarrow> old | Some v \<Rightarrow> Some v)"

text \<open>\<open>{...receiptToProcess, ...parsedData, status: 'completed', isSynced: false}\<close>.\<close>

definition completedReceipt :: "ReceiptData \<Rightarrow> ParsedReceiptData \<Rightarrow> ReceiptData" where
  "completedReceipt receiptToProcess parsedData =
     receiptToProcess
       \<lparr>storeName := spread (storeName receiptToProcess) (ParsedReceiptData.storeName parsedData),
        storeCnpj := spread (storeCnpj receiptToProcess) (ParsedReceiptData.storeCnpj parsedData),
        storeAddress :=
          spread (storeAddress receiptToProcess) (ParsedReceiptData.storeAddress parsedData),
        date := spread (date receiptToProcess) (ParsedReceiptData.date parsedData),
        totalAmount :=
          spread (totalAmount receiptToProcess) (ParsedReceiptData.totalAmount parsedData),
        items := spread (items receiptToProcess) (ParsedReceiptData.items parsedData),
        payer := spread (payer receiptToProcess) (ParsedReceiptData.payer parsedData),
        syncing := spread (syncing receiptToProcess) (ParsedReceiptData.syncing parsedData),
        status := completed,
        isSynced := Some False\<rparr>"

definition errorReceipt :: "ReceiptData \<Rightarrow> thrown \<Rightarrow> ReceiptData" where
  "errorReceipt receiptToProcess e =
     receiptToProcess\<lparr>status := error, error_r := Some (failure_message e)\<rparr>"

text \<open>The predicate of both \<open>some\<close> and \<open>find\<close>: \<open>r.status === 'processing' && r.url\<close>.\<close>

definition queued :: "ReceiptData \<Rightarrow> bool" where
  "queued r = (status r = processing \<and> truthy_str (url r))"

text \<open>
  \<open>processQueue()\<close> from its call to its \<open>await\<close>: the guards, the choice of the receipt,
  setting the flag, and the call of the extraction gateway, whose pending promise suspends
  the function.
\<close>

definition processQueue :: "ReceiptService \<Rightarrow> ReceiptService" where
  "processQueue s =
     (if isProcessing s then s
      else (case find queued (receipts s) of
              None \<Rightarrow> s
            | Some receiptToProcess \<Rightarrow>
                if \<not> truthy_str (url receiptToProcess) then s
                else s\<lparr>isProcessing := True,
                       extracting := extracting s @ [receiptToProcess]\<rparr>))"

text \<open>\<open>response?.success\<close>.\<close>

definition succeeded :: "SaveResult option \<Rightarrow> bool" where
  "succeeded response = (case response of None \<Rightarrow> False | Some r \<Rightarrow> success r)"

text \<open>The pipeline of \<open>saveReceipt(r)\<close> when its request settles.\<close>

definition saveReceipt_settle ::
  "GoogleSheetsService \<Rightarrow> SaveResult option jsonp_outcome
     \<Rightarrow> GoogleSheetsService \<times> SaveResult option notification" where
  "saveReceipt_settle svc out = catchError_of None (jsonp_settle svc out)"

text \<open>
  \<open>processQueue()\<close> from the settlement of the gateway's promise to its end, for the
  \<open>k\<close>-th suspended call: the rest of \<open>try\<close> on fulfilment (\<open>Inr parsedData\<close>), \<open>catch\<close> on
  rejection (\<open>Inl e\<close>), and \<open>finally\<close>.
\<close>

definition processQueue_resume ::
  "nat \<Rightarrow> thrown + ParsedReceiptData \<Rightarrow> ReceiptService \<Rightarrow> ReceiptService" where
  "processQueue_resume k outcome s =
     (if length (extracting s) \<le> k then s
      else
        (let receiptToProcess = extracting s ! k;
             s0 = s\<lparr>extracting := take k (extracting s) @ drop (Suc k) (extracting s)\<rparr>;
             newReceipt =
               (case outcome of
                  Inr parsedData \<Rightarrow> completedReceipt receiptToProcess parsedData
                | Inl e \<Rightarrow> errorReceipt receiptToProcess e);
             s1 = s0\<lparr>receipts :=
                     map_by_id (id_r receiptToProcess) (\<lambda>r. newReceipt) (receipts s0)\<rparr>;
             s2 = (if isConfigured (sheetsService s1)
                   then subscribe_request (SavePayload newReceipt) s1
                   else s1)
         in s2\<lparr>isProcessing := False\<rparr>))"

text \<open>
  The subscriber that \<open>processQueue\<close> gives to the save of the completed receipt with id
  \<open>completedId\<close>, run when that save settles.
\<close>

definition processQueue_saved ::
  "string \<Rightarrow> SaveResult option jsonp_outcome \<Rightarrow> ReceiptService \<Rightarrow> ReceiptService" where
  "processQueue_saved completedId out s =
     (case saveReceipt_settle (sheetsService s) out of
        (svc, Inr response) \<Rightarrow>
          if succeeded response
          then s\<lparr>sheetsService := svc,
                 receipts := map_by_id completedId (\<lambda>r. r\<lparr>isSynced := Some True\<rparr>) (receipts s)\<rparr>
          else s\<lparr>sheetsService := svc\<rparr>
      | (svc, Inl e) \<Rightarrow> s\<lparr>sheetsService := svc\<rparr>)"

text \<open>The first \<open>effect\<close> of the constructor.\<close>

definition queueTrigger :: "ReceiptService \<Rightarrow> ReceiptService" where
  "queueTrigger s =
     (if list_ex queued (receipts s) \<and> \<not> isProcessing s then processQueue s else s)"

subsection \<open>retrySync\<close>

definition retrySync :: "string \<Rightarrow> ReceiptService \<Rightarrow> ReceiptService" where
  "retrySync receiptId s =
     (case find (\<lambda>r. id_r r = receiptId) (receipts s) of
        None \<Rightarrow> s
      | Some receiptToSync \<Rightarrow>
          if status receiptToSync \<noteq> completed \<or> truthy_bool (isSynced receiptToSync)
               \<or> truthy_bool (syncing receiptToSync)
          then s
          else if \<not> isConfigured (sheetsService s) then s
          else subscribe_request (SavePayload receiptToSync)
                 (s\<lparr>receipts :=
                      map_by_id receiptId (\<lambda>r. r\<lparr>syncing := Some True\<rparr>) (receipts s)\<rparr>))"

text \<open>The subscriber of \<open>retrySync(receiptId)\<close>, run when its save settles.\<close>

definition retrySync_subscriber ::
  "string \<Rightarrow> SaveResult option jsonp_outcome \<Rightarrow> ReceiptService \<Rightarrow> ReceiptService" where
  "retrySync_subscriber receiptId out s =
     (case saveReceipt_settle (sheetsService s) out of
        (svc, Inr response) \<Rightarrow>
          if succeeded response
          then s\<lparr>sheetsService := svc,
                 receipts :=
                   map_by_id receiptId (\<lambda>r. r\<lparr>isSynced := Some True, syncing := Some False\<rparr>)
                     (receipts s)\<rparr>
          else s\<lparr>sheetsService := svc,
                 receipts := map_by_id receiptId (\<lambda>r. r\<lparr>syncing := Some False\<rparr>) (receipts s)\<rparr>
      | (svc, Inl e) \<Rightarrow>
          s\<lparr>sheetsService := svc,
            receipts := map_by_id receiptId (\<lambda>r. r\<lparr>syncing := Some False\<rparr>) (receipts s)\<rparr>)"

subsection \<open>The other mutations\<close>

definition updateReceipt :: "ReceiptData \<Rightarrow> ReceiptService \<Rightarrow> ReceiptService" where
  "updateReceipt updatedReceipt s =
     (let receiptWithSyncState = updatedReceipt\<lparr>isSynced := Some False\<rparr>;
          s1 = s\<lparr>receipts :=
                  map_by_id (id_r receiptWithSyncState) (\<lambda>r. receiptWithSyncState) (receipts s)\<rparr>
      in if isConfigured (sheetsService s1) then retrySync (id_r receiptWithSyncState) s1
         else s1)"

definition updateStoreAddress :: "string \<Rightarrow> string \<Rightarrow> ReceiptService \<Rightarrow> ReceiptService" where
  "updateStoreAddress cnpj newAddress s =
     (let receiptsToUpdateIds = map id_r (filter (\<lambda>r. storeCnpj r = Some cnpj) (receipts s))
      in if receiptsToUpdateIds = [] then s
         else
           (let s1 = s\<lparr>receipts :=
                       map (\<lambda>r. if storeCnpj r = Some cnpj
                                 then r\<lparr>storeAddress := Some newAddress, isSynced := Some False\<rparr>
                                 else r) (receipts s)\<rparr>
            in if isConfigured (sheetsService s1)
               then fold retrySync receiptsToUpdateIds s1
               else s1))"

definition reprocessReceipt :: "string \<Rightarrow> ReceiptService \<Rightarrow> ReceiptService" where
  "reprocessReceipt receiptId s =
     (let reset = (\<lambda>r. r\<lparr>status := processing, error_r := None,
                           storeName := Some ''Reprocessando...''\<rparr>);
          matching = filter (\<lambda>r. id_r r = receiptId) (receipts s);
          s1 = s\<lparr>receipts := map_by_id receiptId reset (receipts s)\<rparr>
      in if matching \<noteq> [] \<and> isConfigured (sheetsService s1)
         then subscribe_request (SavePayload (reset (last matching))) s1
         else s1)"

definition updateReceiptUrl :: "string \<Rightarrow> string \<Rightarrow> ReceiptService \<Rightarrow> ReceiptService" where
  "updateReceiptUrl receiptId newUrl s =
     s\<lparr>receipts := map_by_id receiptId (\<lambda>r. r\<lparr>url := Some newUrl\<rparr>) (receipts s)\<rparr>"

definition deleteReceipt :: "string \<Rightarrow> ReceiptService \<Rightarrow> ReceiptService" where
  "deleteReceipt receiptId s =
     (case find (\<lambda>r. id_r r = receiptId) (receipts s) of
        None \<Rightarrow> s
      | Some receiptToDelete \<Rightarrow>
          (let s1 = s\<lparr>receipts := filter (\<lambda>r. id_r r \<noteq> receiptId) (receipts s)\<rparr>
           in if isConfigured (sheetsService s1)
              then subscribe_request (DeletePayload receiptId) s1
              else s1))"

subsection \<open>addReceiptFromPhoto\<close>

text \<open>\<open>addReceiptFromPhoto(photo)\<close> from its call to its \<open>await\<close>; \<open>tempId\<close> is the value of
  \<open>self.crypto.randomUUID()\<close>.\<close>

definition addReceiptFromPhoto :: "string \<Rightarrow> ReceiptService \<Rightarrow> ReceiptService" where
  "addReceiptFromPhoto tempId s =
     (let newReceipt = \<lparr>id_r = tempId, url = None, status = processing,
            storeName = Some ''Lendo URL da imagem...'', storeCnpj = None, storeAddress = None,
            date = None, totalAmount = None, items = None, error_r = None, payer = None,
            isSynced = Some False, syncing = None\<rparr>
      in s\<lparr>receipts := newReceipt # receipts s\<rparr>)"

definition unknownUrlFailure :: string where
  "unknownUrlFailure = ''Falha desconhecida ao extrair URL da imagem.''"

text \<open>
  \<open>addReceiptFromPhoto\<close> from the settlement of \<open>extractUrlFromImage\<close> to its end: the rest
  of \<open>try\<close> on fulfilment with the url, \<open>catch\<close> on rejection.
\<close>

definition addReceiptFromPhoto_resume ::
  "string \<Rightarrow> thrown + string \<Rightarrow> ReceiptService \<Rightarrow> ReceiptService" where
  "addReceiptFromPhoto_resume tempId outcome s =
     (case outcome of
        Inr u \<Rightarrow>
          (case find (\<lambda>r. url r = Some u) (receipts s) of
             Some existing \<Rightarrow>
               s\<lparr>receipts :=
                   map_by_id tempId
                     (\<lambda>r. r\<lparr>status := error,
                             error_r := Some (''Esta nota fiscal j'' @ [CHR 0xE1]
                                                @ '' foi escaneada.''),
                             storeName := Some ''Nota Duplicada''\<rparr>)
                     (receipts s)\<rparr>
           | None \<Rightarrow>
               (let attach = (\<lambda>r. r\<lparr>url := Some u,
                                        storeName := Some (''URL extra'' @ [CHR 0xED]
                                                             @ ''da, aguardando...'')\<rparr>);
                    matching = filter (\<lambda>r. id_r r = tempId) (receipts s);
                    s1 = s\<lparr>receipts := map_by_id tempId attach (receipts s)\<rparr>
                in if matching \<noteq> [] \<and> isConfigured (sheetsService s1)
                   then subscribe_request (SavePayload (attach (last matching))) s1
                   else s1))
      | Inl e \<Rightarrow>
          s\<lparr>receipts :=
              map_by_id tempId
                (\<lambda>r. r\<lparr>status := error,
                        error_r := Some (case e of ErrorObject m \<Rightarrow> m
                                                 | OtherThrown \<Rightarrow> unknownUrlFailure),
                        storeName := Some (''Falha na Extra'' @ [CHR 0xE7, CHR 0xE3]
                                             @ ''o da URL'')\<rparr>)
                (receipts s)\<rparr>)"

subsection \<open>syncLocalDataToSheets\<close>

text \<open>
  \<open>syncLocalDataToSheets()\<close> up to its return: every unsynced record is marked as syncing,
  then \<open>forkJoin\<close> subscribes to the save of each, in order.
\<close>

definition syncLocalDataToSheets :: "ReceiptService \<Rightarrow> ReceiptService" where
  "syncLocalDataToSheets s =
     (if \<not> isConfigured (sheetsService s) then s
      else
        (let localReceiptsToSync = filter (\<lambda>r. \<not> truthy_bool (isSynced r)) (receipts s)
         in if length localReceiptsToSync = 0 then s
            else
              (let s1 = fold (\<lambda>receipt t.
                               t\<lparr>receipts :=
                                   map_by_id (id_r receipt) (\<lambda>r. r\<lparr>syncing := Some True\<rparr>)
                                     (receipts t)\<rparr>)
                          localReceiptsToSync s
               in fold (\<lambda>receipt t. subscribe_request (SavePayload receipt) t)
                    localReceiptsToSync s1)))"

text \<open>
  The subscriber of \<open>forkJoin\<close>, run with the results of the saves once all have settled;
  it ends with \<open>this.initialLoad()\<close>.
\<close>

definition syncLocalDataToSheets_subscriber ::
  "SaveResult option list \<Rightarrow> local_snapshot \<Rightarrow> ReceiptService \<Rightarrow> ReceiptService" where
  "syncLocalDataToSheets_subscriber results localData s =
     initialLoad localData
       (s\<lparr>receipts :=
            map (\<lambda>receipt.
                   case find (\<lambda>res. case res of None \<Rightarrow> False
                                          | Some r \<Rightarrow> result_id r = id_r receipt) results of
                     Some (Some result) \<Rightarrow>
                       receipt\<lparr>isSynced := Some (success result), syncing := Some False\<rparr>
                   | _ \<Rightarrow> receipt\<lparr>syncing := Some False\<rparr>)
              (receipts s)\<rparr>)"

text \<open>
  The settlement of a request whose subscriber touches no record (the saves of
  \<open>addReceipt\<close>, \<open>reprocessReceipt\<close>, \<open>syncLocalDataToSheets\<close> and of a failed extraction,
  and the delete of \<open>deleteReceipt\<close>): the bridge records it.
\<close>

definition request_settled ::
  "SaveResult option jsonp_outcome \<Rightarrow> ReceiptService \<Rightarrow> ReceiptService" where
  "request_settled out s = s\<lparr>sheetsService := fst (saveReceipt_settle (sheetsService s) out)\<rparr>"

subsection \<open>The service as a transition system\<close>

text \<open>
  One event is one run of the single thread between two suspension points: a public
  operation called from the interface (of the store or of the bridge's configuration),
  the queue effect firing, or the settlement of a pending promise or request.
\<close>

datatype event =
  InitialLoad local_snapshot
  | InitialLoaded "get_response jsonp_outcome"
  | AddReceipt string string
  | QueueTrigger
  | ProcessQueue
  | ExtractionSettled nat "thrown + ParsedReceiptData"
  | CompletedSaveSettled string "SaveResult option jsonp_outcome"
  | RetrySync string
  | RetrySyncSettled string "SaveResult option jsonp_outcome"
  | UpdateReceipt ReceiptData
  | UpdateStoreAddress string string
  | ReprocessReceipt string
  | UpdateReceiptUrl string string
  | DeleteReceipt string
  | AddReceiptFromPhoto string
  | PhotoUrlSettled string "thrown + string"
  | SyncLocalDataToSheets
  | SyncLocalSettled "SaveResult option list" local_snapshot
  | RequestSettled "SaveResult option jsonp_outcome"
  | SetScriptUrl string
  | ClearScriptUrl

fun step :: "event \<Rightarrow> ReceiptService \<Rightarrow> ReceiptService" where
  "step (InitialLoad localData) s = initialLoad localData s"
| "step (InitialLoaded out) s = initialLoad_subscriber out s"
| "step (AddReceipt newId u) s = addReceipt newId u s"
| "step QueueTrigger s = queueTrigger s"
| "step ProcessQueue s = processQueue s"
| "step (ExtractionSettled k outcome) s = processQueue_resume k outcome s"
| "step (CompletedSaveSettled i out) s = processQueue_saved i out s"
| "step (RetrySync i) s = retrySync i s"
| "step (RetrySyncSettled i out) s = retrySync_subscriber i out s"
| "step (UpdateReceipt r) s = updateReceipt r s"
| "step (UpdateStoreAddress cnpj a) s = updateStoreAddress cnpj a s"
| "step (ReprocessReceipt i) s = reprocessReceipt i s"
| "step (UpdateReceiptUrl i u) s = updateReceiptUrl i u s"
| "step (DeleteReceipt i) s = deleteReceipt i s"
| "step (AddReceiptFromPhoto tempId) s = addReceiptFromPhoto tempId s"
| "step (PhotoUrlSettled tempId outcome) s = addReceiptFromPhoto_resume tempId outcome s"
| "step SyncLocalDataToSheets s = syncLocalDataToSheets s"
| "step (SyncLocalSettled results localData) s =
     syncLocalDataToSheets_subscriber results localData s"
| "step (RequestSettled out) s = request_settled out s"
| "step (SetScriptUrl u) s = s\<lparr>sheetsService := setScriptUrl u (sheetsService s)\<rparr>"
| "step ClearScriptUrl s = s\<lparr>sheetsService := clearScriptUrl (sheetsService s)\<rparr>"

fun run :: "event list \<Rightarrow> ReceiptService \<Rightarrow> ReceiptService" where
  "run [] s = s"
| "run (e # es) s = run es (step e s)"

text \<open>The constructor: the field initialisers, then \<open>this.initialLoad()\<close>.\<close>

definition constructor :: "GoogleSheetsService \<Rightarrow> local_snapshot \<Rightarrow> ReceiptService" where
  "constructor svc localData = initialLoad localData (new_service svc)"

text \<open>
  The flag \<open>isProcessing\<close> is set exactly while one call of \<open>processQueue\<close> is suspended,
  and no second call is suspended with it.
\<close>

definition one_at_a_time :: "ReceiptService \<Rightarrow> bool" where
  "one_at_a_time s = (length (extracting s) = (if isProcessing s then 1 else 0))"

text \<open>
  The events of the queue, with the insertions that feed it: \<open>addReceipt\<close> drawing an id
  that no record of the list has (\<open>randomUUID\<close>), the trigger, \<open>processQueue\<close>, the
  settlement of an extraction and the settlements of the saves. \<open>insertion_run es s\<close> says
  that \<open>es\<close>, run from \<open>s\<close>, consists of such events.
\<close>

fun insertion_run :: "event list \<Rightarrow> ReceiptService \<Rightarrow> bool" where
  "insertion_run [] s = True"
| "insertion_run (e # es) s =
     ((case e of
         AddReceipt newId u \<Rightarrow> newId \<notin> set (map id_r (receipts s))
       | QueueTrigger \<Rightarrow> True
       | ProcessQueue \<Rightarrow> True
       | ExtractionSettled k outcome \<Rightarrow> True
       | CompletedSaveSettled i out \<Rightarrow> True
       | RequestSettled out \<Rightarrow> True
       | _ \<Rightarrow> False)
      \<and> insertion_run es (step e s))"

text \<open>
  What these events keep: one extraction at a time, urls and ids pairwise different, and the
  receipt a suspended \<open>processQueue\<close> captured still on the list under its id and url.
\<close>

definition queue_consistent :: "ReceiptService \<Rightarrow> bool" where
  "queue_consistent s =
     (one_at_a_time s \<and> distinct (urls_of (receipts s)) \<and> distinct (map id_r (receipts s))
      \<and> list_all (\<lambda>x. list_ex (\<lambda>r. id_r r = id_r x \<and> url r = url x) (receipts s))
           (extracting s))"

subsection \<open>Example states\<close>

definition gatewayFields :: ParsedReceiptData where
  "gatewayFields =
     \<lparr>ParsedReceiptData.storeName = Some ''Loja A'', ParsedReceiptData.storeCnpj = None,
      ParsedReceiptData.storeAddress = None, ParsedReceiptData.date = None,
      ParsedReceiptData.totalAmount = Some 10.5, ParsedReceiptData.items = Some [],
      ParsedReceiptData.payer = None, ParsedReceiptData.isSynced = None,
      ParsedReceiptData.syncing = None\<rparr>"

definition configured :: GoogleSheetsService where
  "configured =
     \<lparr>scriptUrl = Some ''https://script.google.com/macros/s/x/exec'', connectionError = None,
      issued = []\<rparr>"

definition example_receipt :: "ReceiptStatus \<Rightarrow> ReceiptData" where
  "example_receipt st =
     \<lparr>id_r = ''a'', url = Some ''http://x/1'', status = st, storeName = Some ''Loja A'',
      storeCnpj = None, storeAddress = None, date = None, totalAmount = Some 10.5,
      items = Some [], error_r = None, payer = None, isSynced = Some False, syncing = None\<rparr>"

definition extracting_state :: "GoogleSheetsService \<Rightarrow> ReceiptService" where
  "extracting_state svc =
     run [InitialLoad NoSnapshot, AddReceipt ''a'' ''http://x/1'', QueueTrigger] (new_service svc)"

definition completed_state :: "GoogleSheetsService \<Rightarrow> ReceiptService" where
  "completed_state svc = run [ExtractionSettled 0 (Inr gatewayFields)] (extracting_state svc)"

section \<open>The spreadsheet backend (Code.gs)\<close>

text \<open>
  A cell holds a string, a number or a boolean; the empty cell is the empty string. A sheet
  is the list of its rows down to the last one with content, the header row first, and a
  row is the list of its cells; a cell to the right of a row's end reads as empty. The
  sheet stores what is written to it. A spreadsheet has the two sheets \<open>Recibos\<close> and
  \<open>Itens\<close>, each of which may not exist yet.
\<close>

datatype cell = Str string | Num real | Bool bool

type_synonym row = "cell list"

type_synonym sheet = "row list"

record spreadsheet =
  Recibos :: "sheet option"
  Itens :: "sheet option"

text \<open>
  What the handlers take from the platform: \<open>JSON.stringify\<close> and \<open>JSON.parse\<close> on item
  arrays (\<open>None\<close> when \<open>JSON.parse\<close> throws), \<open>parseFloat\<close> and the conversion of a string to a
  number (\<open>None\<close> for \<open>NaN\<close>), the value of \<open>new Date().toISOString()\<close>, and the value of
  \<open>Utilities.getUuid()\<close> for the cell of a given new row and column.
\<close>

record platform =
  JSON_stringify :: "ReceiptItem list \<Rightarrow> string"
  JSON_parse :: "string \<Rightarrow> ReceiptItem list option"
  parseFloat :: "string \<Rightarrow> real option"
  toNumber :: "string \<Rightarrow> real option"
  now :: string
  getUuid :: "nat \<Rightarrow> nat \<Rightarrow> string"

subsection \<open>The Sheet interface\<close>

definition getLastRow :: "sheet \<Rightarrow> nat" where
  "getLastRow sh = length sh"

definition getLastColumn :: "sheet \<Rightarrow> nat" where
  "getLastColumn sh = foldr (\<lambda>r m. max (length r) m) sh 0"

definition cell_at :: "row \<Rightarrow> nat \<Rightarrow> cell" where
  "cell_at r c = (if c < length r then r ! c else Str [])"

text \<open>\<open>getRange(1, 1, 1, n).getValues()[0]\<close>, for a sheet that has a first row.\<close>

definition header_values :: "sheet \<Rightarrow> nat \<Rightarrow> row" where
  "header_values sh n = map (cell_at (hd sh)) [0..<n]"

text \<open>\<open>getRange(2, c, getLastRow() - 1, 1).getValues()\<close>, one value per data row; \<open>c\<close> counts from 1.\<close>

definition column_values :: "sheet \<Rightarrow> nat \<Rightarrow> cell list" where
  "column_values sh c = map (\<lambda>r. cell_at r (c - 1)) (tl sh)"

text \<open>\<open>getRange(2, 1, getLastRow() - 1, getLastColumn()).getValues()\<close>.\<close>

definition data_values :: "sheet \<Rightarrow> row list" where
  "data_values sh = map (\<lambda>r. map (cell_at r) [0..<getLastColumn sh]) (tl sh)"

text \<open>\<open>getRange(n, 1, 1, values.length).setValues([values])\<close>; \<open>n\<close> counts from 1.\<close>

definition setRowValues :: "sheet \<Rightarrow> nat \<Rightarrow> row \<Rightarrow> sheet" where
  "setRowValues sh n values = sh[n - 1 := values @ drop (length values) (sh ! (n - 1))]"

definition appendRow :: "sheet \<Rightarrow> row \<Rightarrow> sheet" where
  "appendRow sh values = sh @ [values]"

definition deleteRow :: "sheet \<Rightarrow> nat \<Rightarrow> sheet" where
  "deleteRow sh n = take (n - 1) sh @ drop n sh"

text \<open>\<open>xs.indexOf(x)\<close>: the first position of \<open>x\<close>, or \<open>-1\<close>.\<close>

fun indexOf_from :: "'a \<Rightarrow> 'a list \<Rightarrow> nat \<Rightarrow> int" where
  "indexOf_from x [] k = - 1"
| "indexOf_from x (y # ys) k = (if y = x then int k else indexOf_from x ys (Suc k))"

definition indexOf :: "'a \<Rightarrow> 'a list \<Rightarrow> int" where
  "indexOf x xs = indexOf_from x xs 0"

text \<open>\<open>value == id\<close> for a cell's value and an id string.\<close>

definition loose_eq :: "platform \<Rightarrow> cell \<Rightarrow> string \<Rightarrow> bool" where
  "loose_eq P v i =
     (case v of
        Str s \<Rightarrow> s = i
      | Num n \<Rightarrow> toNumber P i = Some n
      | Bool b \<Rightarrow> toNumber P i = Some (if b then 1 else 0))"

subsection \<open>getSheet\<close>

definition receiptHeaders :: row where
  "receiptHeaders =
     [Str ''id'', Str ''url'', Str ''status'', Str ''storeName'', Str ''storeCnpj'',
      Str ''storeAddress'', Str ''date'', Str ''totalAmount'', Str ''items'', Str ''error'',
      Str ''payer'', Str ''timestamp'']"

definition itemHeaders :: row where
  "itemHeaders =
     [Str ''item_id'', Str ''receipt_id'', Str ''name'', Str ''quantity'', Str ''unit'',
      Str ''unitPrice'', Str ''totalPrice'', Str ''category'', Str ''timestamp'']"

text \<open>\<open>getSheet(spreadsheet, sheetName, headers)\<close>, for the sheet of that name if there is one.\<close>

definition getSheet :: "sheet option \<Rightarrow> row \<Rightarrow> sheet" where
  "getSheet existing headers =
     (case existing of
        None \<Rightarrow> appendRow [] headers
      | Some sh \<Rightarrow>
          if getLastRow sh < 1 then appendRow sh headers
          else
            (let currentHeaders = header_values sh (length headers);
                 headersMatch = list_all2 (\<lambda>header current. header = current) headers currentHeaders
             in if \<not> headersMatch then setRowValues sh 1 headers else sh))"

subsection \<open>findRowById and the item rows\<close>

fun findRow_loop :: "platform \<Rightarrow> cell list \<Rightarrow> string \<Rightarrow> nat \<Rightarrow> int" where
  "findRow_loop P [] i k = - 1"
| "findRow_loop P (v # vs) i k =
     (if loose_eq P v i then int k + 2 else findRow_loop P vs i (Suc k))"

definition findRowById :: "platform \<Rightarrow> sheet \<Rightarrow> string \<Rightarrow> nat \<Rightarrow> int" where
  "findRowById P sh i idColumnIndex =
     (if getLastRow sh < 2 then - 1
      else findRow_loop P (column_values sh idColumnIndex) i 0)"

text \<open>The loop of \<open>deleteItemsByReceiptId\<close>: \<open>i\<close> runs from \<open>k - 1\<close> down to \<open>0\<close>.\<close>

fun deleteItems_loop :: "platform \<Rightarrow> cell list \<Rightarrow> string \<Rightarrow> nat \<Rightarrow> sheet \<Rightarrow> sheet" where
  "deleteItems_loop P vals receiptId 0 sh = sh"
| "deleteItems_loop P vals receiptId (Suc i) sh =
     deleteItems_loop P vals receiptId i
       (if loose_eq P (vals ! i) receiptId then deleteRow sh (i + 2) else sh)"

definition deleteItemsByReceiptId :: "platform \<Rightarrow> sheet \<Rightarrow> string \<Rightarrow> sheet" where
  "deleteItemsByReceiptId P sh receiptId =
     (if getLastRow sh < 2 then sh
      else
        (let headers = header_values sh (getLastColumn sh);
             receiptIdColumnIndex = indexOf (Str ''receipt_id'') headers
         in if receiptIdColumnIndex = - 1 then sh
            else
              (let receiptIdColumnValues = column_values sh (nat receiptIdColumnIndex + 1)
               in deleteItems_loop P receiptIdColumnValues receiptId
                    (length receiptIdColumnValues) sh)))"

text \<open>\<open>item[header]\<close>, or the empty string when the item has no such property.\<close>

definition item_property :: "ReceiptItem \<Rightarrow> cell \<Rightarrow> cell" where
  "item_property item header =
     (if header = Str ''name'' then Str (ReceiptItem.name item)
      else if header = Str ''quantity'' then Num (ReceiptItem.quantity item)
      else if header = Str ''unit'' then Str (ReceiptItem.unit item)
      else if header = Str ''unitPrice'' then Num (ReceiptItem.unitPrice item)
      else if header = Str ''totalPrice'' then Num (ReceiptItem.totalPrice item)
      else if header = Str ''category'' then Str (ReceiptItem.category item)
      else Str [])"

definition item_row :: "platform \<Rightarrow> string \<Rightarrow> row \<Rightarrow> nat \<Rightarrow> ReceiptItem \<Rightarrow> row" where
  "item_row P receiptId itemHeaders' k item =
     map (\<lambda>(j, header).
            if header = Str ''item_id'' then Str (getUuid P k j)
            else if header = Str ''receipt_id'' then Str receiptId
            else if header = Str ''timestamp'' then Str (now P)
            else item_property item header)
       (enumerate 0 itemHeaders')"

text \<open>A range of no columns cannot be read: \<open>getRange\<close> throws.\<close>

definition rangeError :: string where
  "rangeError = ''The number of columns in the range must be at least 1.''"

text \<open>
  \<open>processAndSaveItems(itemsSheet, receiptId, items)\<close>: the sheet it leaves, and \<open>Inl\<close> the
  message when it throws.
\<close>

definition processAndSaveItems ::
  "platform \<Rightarrow> sheet \<Rightarrow> string \<Rightarrow> ReceiptItem list \<Rightarrow> sheet \<times> (string + unit)" where
  "processAndSaveItems P itemsSheet receiptId its =
     (let sh = deleteItemsByReceiptId P itemsSheet receiptId
      in if length its = 0 then (sh, Inr ())
         else if getLastColumn sh = 0 then (sh, Inl rangeError)
         else
           (let itemHeaders' = header_values sh (getLastColumn sh);
                rowsToAdd = map (\<lambda>(k, item). item_row P receiptId itemHeaders' k item)
                              (enumerate 0 its)
            in (sh @ rowsToAdd, Inr ())))"

subsection \<open>The handlers\<close>

text \<open>A response object: the list of receipts, \<open>{success: true, id, message}\<close>, or
  \<open>{error, details}\<close>. A listed receipt maps each header to its value, a later header
  overriding an earlier equal one.\<close>

datatype jsvalue = Cell cell | Items "ReceiptItem list"

datatype response =
  Listing "(cell \<times> jsvalue) list list"
  | Success string string
  | Failure string "string option"

definition getProperty :: "(cell \<times> jsvalue) list \<Rightarrow> string \<Rightarrow> jsvalue option" where
  "getProperty obj key = map_of (rev obj) (Str key)"

definition startsWith :: "string \<Rightarrow> char \<Rightarrow> bool" where
  "startsWith s c = (case s of [] \<Rightarrow> False | x # xs \<Rightarrow> x = c)"

text \<open>The value \<open>handleGet\<close> stores under a header for a cell of that column.\<close>

definition listed_value :: "platform \<Rightarrow> cell \<Rightarrow> cell \<Rightarrow> jsvalue" where
  "listed_value P header v =
     (if header = Str ''totalAmount'' \<and> v \<noteq> Str []
      then Cell (Num (case (case v of Num n \<Rightarrow> Some n | Str s \<Rightarrow> parseFloat P s | Bool b \<Rightarrow> None) of
                        None \<Rightarrow> 0 | Some n \<Rightarrow> n))
      else case v of
             Str s \<Rightarrow>
               if header = Str ''items'' \<and> startsWith s CHR ''[''
               then (case JSON_parse P s of Some parsed \<Rightarrow> Items parsed | None \<Rightarrow> Items [])
               else Cell v
           | _ \<Rightarrow> Cell v)"

definition accessError :: string where
  "accessError =
     ''N'' @ [CHR 0xE3] @ ''o foi poss'' @ [CHR 0xED] @ ''vel acessar a planilha. Verifique se o ''
       @ ''SPREADSHEET_ID no script est'' @ [CHR 0xE1] @ '' correto e se o e-mail associado a ''
       @ ''este script tem permiss'' @ [CHR 0xE3] @ ''o para editar a planilha.''"

text \<open>\<open>handleGet(callback)\<close>; the spreadsheet is \<open>None\<close> when it cannot be opened.\<close>

definition handleGet :: "platform \<Rightarrow> spreadsheet option \<Rightarrow> spreadsheet option \<times> response" where
  "handleGet P db =
     (case db of
        None \<Rightarrow> (None, Failure ''Falha ao buscar dados.'' (Some accessError))
      | Some ss \<Rightarrow>
          (let receiptsSheet = getSheet (Recibos ss) receiptHeaders;
               ss1 = ss\<lparr>Recibos := Some receiptsSheet\<rparr>
           in if getLastRow receiptsSheet < 2 then (Some ss1, Listing [])
              else
                (let sheetHeaders = header_values receiptsSheet (getLastColumn receiptsSheet);
                     data = data_values receiptsSheet;
                     receipts = map (\<lambda>r. map (\<lambda>(header, v). (header, listed_value P header v))
                                            (zip sheetHeaders r)) data
                 in (Some ss1, Listing receipts))))"

text \<open>\<open>data[header]\<close> as \<open>handleSaveOrUpdate\<close> stores it: an array serialised, a missing
  property as the empty string.\<close>

definition status_name :: "ReceiptStatus \<Rightarrow> string" where
  "status_name st =
     (case st of processing \<Rightarrow> ''processing'' | completed \<Rightarrow> ''completed'' | error \<Rightarrow> ''error'')"

definition stored_string :: "string option \<Rightarrow> cell" where
  "stored_string v = (case v of None \<Rightarrow> Str [] | Some s \<Rightarrow> Str s)"

definition stored_bool :: "bool option \<Rightarrow> cell" where
  "stored_bool v = (case v of None \<Rightarrow> Str [] | Some b \<Rightarrow> Bool b)"

definition stored_property :: "platform \<Rightarrow> ReceiptData \<Rightarrow> cell \<Rightarrow> cell" where
  "stored_property P data header =
     (if header = Str ''id'' then Str (id_r data)
      else if header = Str ''url'' then stored_string (url data)
      else if header = Str ''status'' then Str (status_name (status data))
      else if header = Str ''storeName'' then stored_string (storeName data)
      else if header = Str ''storeCnpj'' then stored_string (storeCnpj data)
      else if header = Str ''storeAddress'' then stored_string (storeAddress data)
      else if header = Str ''date'' then stored_string (date data)
      else if header = Str ''totalAmount''
        then (case totalAmount data of None \<Rightarrow> Str [] | Some n \<Rightarrow> Num n)
      else if header = Str ''items''
        then (case items data of None \<Rightarrow> Str [] | Some its \<Rightarrow> Str (JSON_stringify P its))
      else if header = Str ''error'' then stored_string (error_r data)
      else if header = Str ''payer'' then stored_string (payer data)
      else if header = Str ''isSynced'' then stored_bool (isSynced data)
      else if header = Str ''syncing'' then stored_bool (syncing data)
      else Str [])"

definition idColumnMissing :: string where
  "idColumnMissing =
     ''A coluna 'id' n'' @ [CHR 0xE3] @ ''o foi encontrada na planilha 'Recibos'.''"

definition savedMessage :: string where
  "savedMessage = ''Dados salvos com sucesso.''"

text \<open>
  \<open>handleSaveOrUpdate(callback, receiptsSheet, itemsSheet, data)\<close>: the two sheets it
  leaves, and its response or \<open>Inl\<close> the message when it throws.
\<close>

definition handleSaveOrUpdate ::
  "platform \<Rightarrow> sheet \<Rightarrow> sheet \<Rightarrow> ReceiptData \<Rightarrow> sheet \<times> sheet \<times> (string + response)" where
  "handleSaveOrUpdate P receiptsSheet itemsSheet data =
     (if getLastColumn receiptsSheet = 0 then (receiptsSheet, itemsSheet, Inl rangeError)
      else
        (let sheetHeaders = header_values receiptsSheet (getLastColumn receiptsSheet);
             idColumnIndex = indexOf (Str ''id'') sheetHeaders + 1
         in if idColumnIndex = 0 then (receiptsSheet, itemsSheet, Inl idColumnMissing)
            else
              (let existingRowNumber = findRowById P receiptsSheet (id_r data) (nat idColumnIndex);
                   rowData = map (\<lambda>header. if header = Str ''timestamp'' then Str (now P)
                                            else stored_property P data header) sheetHeaders;
                   receiptsSheet1 =
                     (if existingRowNumber > 0
                      then setRowValues receiptsSheet (nat existingRowNumber) rowData
                      else appendRow receiptsSheet rowData)
               in case items data of
                    None \<Rightarrow>
                      (receiptsSheet1, itemsSheet, Inr (Success (id_r data) savedMessage))
                  | Some its \<Rightarrow>
                      (case processAndSaveItems P itemsSheet (id_r data) its of
                         (itemsSheet1, Inl e) \<Rightarrow> (receiptsSheet1, itemsSheet1, Inl e)
                       | (itemsSheet1, Inr u) \<Rightarrow>
                           (receiptsSheet1, itemsSheet1,
                            Inr (Success (id_r data) savedMessage))))))"

definition deletedMessage :: string where
  "deletedMessage = ''Recibo e itens associados deletados.''"

definition handleDelete ::
  "platform \<Rightarrow> sheet \<Rightarrow> sheet \<Rightarrow> string \<Rightarrow> sheet \<times> sheet \<times> response" where
  "handleDelete P receiptsSheet itemsSheet i =
     (let rowToDelete = findRowById P receiptsSheet i 1;
          receiptsSheet1 =
            (if rowToDelete > 0 then deleteRow receiptsSheet (nat rowToDelete)
             else receiptsSheet);
          itemsSheet1 = deleteItemsByReceiptId P itemsSheet i
      in (receiptsSheet1, itemsSheet1, Success i deletedMessage))"

text \<open>The two sheets \<open>doGet\<close> hands to the handlers of \<open>save\<close> and \<open>delete\<close>.\<close>

definition doGet_sheets :: "spreadsheet \<Rightarrow> sheet \<times> sheet" where
  "doGet_sheets ss = (getSheet (Recibos ss) receiptHeaders, getSheet (Itens ss) itemHeaders)"

subsection \<open>Notions for the properties of the backend\<close>

text \<open>A sheet has a header row that starts with the given headers, as \<open>getSheet\<close> leaves it.\<close>

definition has_headers :: "row \<Rightarrow> sheet \<Rightarrow> bool" where
  "has_headers hs sh = (sh \<noteq> [] \<and> take (length hs) (hd sh) = hs \<and> length hs \<le> length (hd sh))"

text \<open>The row \<open>handleSaveOrUpdate\<close> writes for a receipt, in the order of the sheet's headers.\<close>

definition saved_row :: "platform \<Rightarrow> sheet \<Rightarrow> ReceiptData \<Rightarrow> row" where
  "saved_row P sh data =
     map (\<lambda>header. if header = Str ''timestamp'' then Str (now P)
                     else stored_property P data header)
       (header_values sh (getLastColumn sh))"

text \<open>An item row references a receipt id when its \<open>receipt_id\<close> cell (the second) equals it.\<close>

definition references :: "platform \<Rightarrow> string \<Rightarrow> row \<Rightarrow> bool" where
  "references P rid r = loose_eq P (cell_at r 1) rid"

subsection \<open>An example spreadsheet\<close>

text \<open>
  The two items of the test suite's receipt; a platform whose JSON functions are given on
  the arrays the example serialises; the receipt saved into an empty spreadsheet.
\<close>

definition example_items :: "ReceiptItem list" where
  "example_items =
     [\<lparr>ReceiptItem.name = ''Produto Teste 1'', ReceiptItem.quantity = 1,
       ReceiptItem.unit = ''UN'', ReceiptItem.unitPrice = 100.5, totalPrice = 100.5,
       ReceiptItem.category = ''Testes''\<rparr>,
      \<lparr>ReceiptItem.name = ''Produto Teste 2'', ReceiptItem.quantity = 2,
       ReceiptItem.unit = ''UN'', ReceiptItem.unitPrice = 25.125, totalPrice = 50.25,
       ReceiptItem.category = ''Testes''\<rparr>]"

definition example_platform :: platform where
  "example_platform =
     \<lparr>JSON_stringify = (\<lambda>its. if its = [] then ''[]'' else ''[{...},{...}]''),
      JSON_parse = (\<lambda>s. if s = ''[]'' then Some []
                         else if s = ''[{...},{...}]'' then Some example_items else None),
      parseFloat = (\<lambda>s. None),
      toNumber = (\<lambda>s. None),
      now = ''2024-01-01T00:00:00.000Z'',
      getUuid = (\<lambda>k j. ''uuid'')\<rparr>"

definition example_saved :: ReceiptData where
  "example_saved = (example_receipt completed)\<lparr>items := Some example_items\<rparr>"

definition empty_spreadsheet :: spreadsheet where
  "empty_spreadsheet = \<lparr>Recibos = None, Itens = None\<rparr>"

definition saved_once :: "sheet \<times> sheet \<times> (string + response)" where
  "saved_once =
     handleSaveOrUpdate example_platform (fst (doGet_sheets empty_spreadsheet))
       (snd (doGet_sheets empty_spreadsheet)) example_saved"
section \<open>Analytics projection: the shopping-list simulation (analytics.service.ts)\<close>

subsection \<open>Strings\<close>

text \<open>
  \<open>String.prototype.trim\<close> and \<open>toLowerCase\<close> on code units below 256: the white space
  there is tab, line feed, vertical tab, form feed, carriage return, space and the
  no-break space; the letters with a lower case there are \<open>A\<close> to \<open>Z\<close> and the code units
  \<open>0xC0\<close> to \<open>0xDE\<close> but the multiplication sign \<open>0xD7\<close>, each 32 below its lower case.
\<close>

definition isWhiteSpace :: "char \<Rightarrow> bool" where
  "isWhiteSpace c =
     (c \<in> set [CHR 0x09, CHR 0x0A, CHR 0x0B, CHR 0x0C, CHR 0x0D, CHR 0x20, CHR 0xA0])"

definition trim :: "string \<Rightarrow> string" where
  "trim s = rev (dropWhile isWhiteSpace (rev (dropWhile isWhiteSpace s)))"

definition toLowerCase_unit :: "char \<Rightarrow> char" where
  "toLowerCase_unit c =
     (let n = (of_char c :: nat)
      in if (65 \<le> n \<and> n \<le> 90) \<or> (192 \<le> n \<and> n \<le> 222 \<and> n \<noteq> 215)
         then char_of (n + 32) else c)"

definition toLowerCase :: "string \<Rightarrow> string" where
  "toLowerCase s = map toLowerCase_unit s"

definition normalize :: "string \<Rightarrow> string" where
  "normalize name' = toLowerCase (trim name')"

text \<open>\<open>s.split(c)\<close> for a separator of one code unit.\<close>

fun split_on :: "char \<Rightarrow> string \<Rightarrow> string list" where
  "split_on c [] = [[]]"
| "split_on c (x # xs) =
     (if x = c then [] # split_on c xs
      else (case split_on c xs of [] \<Rightarrow> [[x]] | p # ps \<Rightarrow> (x # p) # ps))"

subsection \<open>Maps and sets in insertion order\<close>

text \<open>
  A \<open>Map\<close> is the list of its entries and a \<open>Set\<close> the list of its elements, in the order
  of insertion, which is the order \<open>forEach\<close>, \<open>entries\<close> and \<open>Array.from\<close> follow.
\<close>

definition map_has :: "('k \<times> 'v) list \<Rightarrow> 'k \<Rightarrow> bool" where
  "map_has m k = (k \<in> set (map fst m))"

text \<open>\<open>m.set(k, v)\<close>: a new key goes to the end, a present key keeps its place.\<close>

fun map_set :: "('k \<times> 'v) list \<Rightarrow> 'k \<Rightarrow> 'v \<Rightarrow> ('k \<times> 'v) list" where
  "map_set [] k v = [(k, v)]"
| "map_set ((k', v') # m) k v = (if k' = k then (k, v) # m else (k', v') # map_set m k v)"

text \<open>\<open>s.add(x)\<close> and \<open>new Set(xs)\<close>.\<close>

definition set_add :: "'a list \<Rightarrow> 'a \<Rightarrow> 'a list" where
  "set_add s x = (if x \<in> set s then s else s @ [x])"

definition new_Set :: "'a list \<Rightarrow> 'a list" where
  "new_Set xs = fold (\<lambda>x s. set_add s x) xs []"

subsection \<open>Array.prototype.sort\<close>

text \<open>
  The sort is stable: \<open>compareFn a b > 0\<close> puts \<open>b\<close> first, and otherwise \<open>a\<close> stays before
  \<open>b\<close>. \<open>sort_insert\<close> puts an element that stood before all of a sorted list into it.
\<close>

fun sort_insert :: "('a \<Rightarrow> 'a \<Rightarrow> real) \<Rightarrow> 'a \<Rightarrow> 'a list \<Rightarrow> 'a list" where
  "sort_insert compareFn a [] = [a]"
| "sort_insert compareFn a (b # bs) =
     (if compareFn a b > 0 then b # sort_insert compareFn a bs else a # b # bs)"

definition array_sort :: "('a \<Rightarrow> 'a \<Rightarrow> real) \<Rightarrow> 'a list \<Rightarrow> 'a list" where
  "array_sort compareFn xs = foldr (sort_insert compareFn) xs []"

subsection \<open>simulateShoppingList\<close>

text \<open>The body of the loop over a product's purchases.\<close>

definition record_price ::
  "string \<Rightarrow> ProductPurchase \<Rightarrow> (string \<times> string \<times> real) list \<Rightarrow> (string \<times> string \<times> real) list" where
  "record_price normalizedName purchase latestPrices =
     (let key = normalizedName @ ''|'' @ ProductPurchase.storeName purchase
      in if \<not> map_has latestPrices key
         then map_set latestPrices key
                (ProductPurchase.storeName purchase, ProductPurchase.unitPrice purchase)
         else latestPrices)"

text \<open>The first loop: \<open>latestPrices\<close> after \<open>this.productsAnalytics().forEach(...)\<close>.\<close>

definition latestPrices_of ::
  "ProductPriceInfo list \<Rightarrow> string list \<Rightarrow> (string \<times> string \<times> real) list" where
  "latestPrices_of products normalizedItems =
     fold (\<lambda>product latestPrices.
             (let normalizedName = normalize (name product)
              in if normalizedName \<in> set normalizedItems
                 then fold (record_price normalizedName) (purchases product) latestPrices
                 else latestPrices))
       products []"

text \<open>
  The body of \<open>latestPrices.forEach\<close>; an entry of \<open>storeSimulation\<close> is the store's total,
  its \<open>foundItems\<close> and its \<open>allItems\<close>. Every key of \<open>latestPrices\<close> has a separator, so
  \<open>key.split('|')\<close> has two parts at least.
\<close>

definition simulate_price ::
  "string list \<Rightarrow> string \<times> string \<times> real
     \<Rightarrow> (string \<times> real \<times> string list \<times> string list) list
     \<Rightarrow> (string \<times> real \<times> string list \<times> string list) list" where
  "simulate_price normalizedItems entry storeSimulation =
     (case entry of (key, priceStore, priceUnit) \<Rightarrow>
        (case split_on CHR ''|'' key of
           itemName # storeName' # rest \<Rightarrow>
             (let sim1 = (if \<not> map_has storeSimulation storeName'
                          then map_set storeSimulation storeName' (0, [], new_Set normalizedItems)
                          else storeSimulation)
              in case map_of sim1 storeName' of
                   Some (total', found, allItems) \<Rightarrow>
                     if itemName \<notin> set found
                     then map_set sim1 storeName' (total' + priceUnit, set_add found itemName, allItems)
                     else sim1
                 | None \<Rightarrow> sim1)
         | _ \<Rightarrow> storeSimulation))"

text \<open>\<open>items.find(i => this.normalize(i) === normName) || normName\<close>.\<close>

definition original_name :: "string list \<Rightarrow> string \<Rightarrow> string" where
  "original_name its normName =
     (case find (\<lambda>i. normalize i = normName) its of
        None \<Rightarrow> normName
      | Some originalItem \<Rightarrow> if originalItem = [] then normName else originalItem)"

definition store_result ::
  "string list \<Rightarrow> string \<times> real \<times> string list \<times> string list \<Rightarrow> SimulationResult" where
  "store_result its entry =
     (case entry of (storeName', total', found, allItems) \<Rightarrow>
        \<lparr>SimulationResult.storeName = storeName', total = total', foundItems = length found,
         missingItems = map (original_name its) (filter (\<lambda>item. item \<notin> set found) allItems)\<rparr>)"

definition by_found_then_total :: "SimulationResult \<Rightarrow> SimulationResult \<Rightarrow> real" where
  "by_found_then_total a b =
     (if foundItems b \<noteq> foundItems a then real (foundItems b) - real (foundItems a)
      else total a - total b)"

text \<open>
  \<open>simulateShoppingList(items)\<close>, given the value of \<open>this.productsAnalytics()\<close>. The totals
  are sums of reals, where the code adds and compares doubles: the two agree as long as
  every sum is exact in double precision (prices that are integers, or multiples of a
  power of one half, of moderate size). Where a sum of the code rounds, as \<open>0.1 + 0.2\<close>
  does, its total and the order of two stores that tie here may differ from these.
\<close>

definition simulateShoppingList :: "ProductPriceInfo list \<Rightarrow> string list \<Rightarrow> SimulationResult list" where
  "simulateShoppingList products its =
     (let normalizedItems = map normalize its;
          latestPrices = latestPrices_of products normalizedItems;
          storeSimulation = fold (simulate_price normalizedItems) latestPrices [];
          result = map (store_result its) storeSimulation
      in array_sort by_found_then_total result)"

subsection \<open>Example purchase histories\<close>

definition purchase_at :: "string \<Rightarrow> real \<Rightarrow> ProductPurchase" where
  "purchase_at store price =
     \<lparr>ProductPurchase.storeName = store, ProductPurchase.unitPrice = price,
      ProductPurchase.date = ''2024-01-01T10:00:00'', ProductPurchase.quantity = 1,
      ProductPurchase.unit = ''UN''\<rparr>"

definition product :: "string \<Rightarrow> ProductPurchase list \<Rightarrow> ProductPriceInfo" where
  "product n ps = \<lparr>name = n, category = ''Outros'', purchases = ps\<rparr>"

section \<open>Uniqueness of urls under addReceipt\<close>

lemma urls_of_set: "u \<in> set (urls_of rs) \<longleftrightarrow> (\<exists>r \<in> set rs. url r = Some u)"
  by (induction rs) (auto split: option.splits)

lemma find_url_None: "find (\<lambda>r. url r = Some u) rs = None \<longleftrightarrow> u \<notin> set (urls_of rs)"
  by (auto simp: find_None_iff urls_of_set)

lemma receipts_subscribe_request [simp]: "receipts (subscribe_request p s) = receipts s"
  by (simp add: subscribe_request_def)

lemma addReceipt_receipts:
  "receipts (addReceipt newId u s) =
     (if u \<in> set (urls_of (receipts s)) then receipts s
      else \<lparr>id_r = newId, url = Some u, status = processing,
             storeName = None, storeCnpj = None, storeAddress = None, date = None,
             totalAmount = None, items = None, error_r = None, payer = None,
             isSynced = Some False, syncing = None\<rparr> # receipts s)"
proof (cases "find (\<lambda>r. url r = Some u) (receipts s)")
  case None
  then show ?thesis
    by (simp add: addReceipt_def Let_def find_url_None [symmetric])
next
  case (Some r)
  then have "u \<in> set (urls_of (receipts s))"
    using find_url_None [of u "receipts s"] by simp
  with Some show ?thesis by (simp add: addReceipt_def)
qed

lemma addReceipt_distinct:
  "distinct (urls_of (receipts s)) \<Longrightarrow> distinct (urls_of (receipts (addReceipt newId u s)))"
  by (simp add: addReceipt_receipts)

lemma addReceipts_distinct:
  "distinct (urls_of (receipts s)) \<Longrightarrow> distinct (urls_of (receipts (addReceipts calls s)))"
proof (induction calls arbitrary: s)
  case Nil
  then show ?case by simp
next
  case (Cons c calls)
  obtain newId u where c: "c = (newId, u)" by (cases c)
  from Cons.prems have "distinct (urls_of (receipts (addReceipt newId u s)))"
    by (rule addReceipt_distinct)
  then show ?case unfolding c by (simp add: Cons.IH)
qed

lemma distinct_urls_nth:
  assumes "distinct (urls_of rs)" "i < length rs" "j < length rs" "i \<noteq> j"
    "url (rs ! i) = Some u"
  shows "url (rs ! j) \<noteq> Some u"
  using assms
proof (induction rs arbitrary: i j)
  case Nil
  then show ?case by simp
next
  case (Cons r rs)
  show ?case
  proof (cases i)
    case 0
    with Cons.prems obtain j' where j: "j = Suc j'" "j' < length rs"
      by (cases j) auto
    from 0 Cons.prems have "url r = Some u" by simp
    with Cons.prems(1) have "u \<notin> set (urls_of rs)" by simp
    then have "url (rs ! j') \<noteq> Some u"
      using j(2) by (auto simp: urls_of_set)
    with j show ?thesis by simp
  next
    case (Suc i')
    note i = this
    show ?thesis
    proof (cases j)
      case 0
      show ?thesis
      proof
        assume "url ((r # rs) ! j) = Some u"
        with 0 have ru: "url r = Some u" by simp
        with Cons.prems(1) have "u \<notin> set (urls_of rs)" by simp
        moreover from i Cons.prems have "i' < length rs" "url (rs ! i') = Some u" by simp_all
        ultimately show False by (auto simp: urls_of_set)
      qed
    next
      case (Suc j')
      from Cons.prems(1) have d: "distinct (urls_of rs)"
        by (simp split: option.splits)
      from i Suc Cons.prems have "i' < length rs" "j' < length rs" "i' \<noteq> j'"
        "url (rs ! i') = Some u" by simp_all
      from Cons.IH [OF d this] Suc show ?thesis by simp
    qed
  qed
qed

section \<open>Frame lemmas\<close>

lemma subscribe_request_fields [simp]:
  "isLoading (subscribe_request p s) = isLoading s"
  "isProcessing (subscribe_request p s) = isProcessing s"
  "extracting (subscribe_request p s) = extracting s"
  by (simp_all add: subscribe_request_def)

lemma retrySync_flag [simp]:
  "isProcessing (retrySync i s) = isProcessing s"
  "extracting (retrySync i s) = extracting s"
  by (simp_all add: retrySync_def split: option.splits)

lemma fold_retrySync_flag [simp]:
  "isProcessing (fold retrySync ids s) = isProcessing s"
  "extracting (fold retrySync ids s) = extracting s"
  by (induction ids arbitrary: s) simp_all

lemma initialLoad_flag [simp]:
  "isProcessing (initialLoad d s) = isProcessing s"
  "extracting (initialLoad d s) = extracting s"
  by (simp_all add: initialLoad_def Let_def split: local_snapshot.splits)

lemma initialLoad_subscriber_flag [simp]:
  "isProcessing (initialLoad_subscriber out s) = isProcessing s"
  "extracting (initialLoad_subscriber out s) = extracting s"
  by (simp_all add: initialLoad_subscriber_def initialLoad_next_def
      split: prod.splits sum.splits get_response.splits)

lemma addReceipt_flag [simp]:
  "isProcessing (addReceipt n u s) = isProcessing s"
  "extracting (addReceipt n u s) = extracting s"
  by (simp_all add: addReceipt_def Let_def split: option.splits)

lemma processQueue_saved_flag [simp]:
  "isProcessing (processQueue_saved i out s) = isProcessing s"
  "extracting (processQueue_saved i out s) = extracting s"
  by (simp_all add: processQueue_saved_def split: prod.splits sum.splits)

lemma retrySync_subscriber_flag [simp]:
  "isProcessing (retrySync_subscriber i out s) = isProcessing s"
  "extracting (retrySync_subscriber i out s) = extracting s"
  by (simp_all add: retrySync_subscriber_def split: prod.splits sum.splits)

lemma updateReceipt_flag [simp]:
  "isProcessing (updateReceipt r s) = isProcessing s"
  "extracting (updateReceipt r s) = extracting s"
  by (simp_all add: updateReceipt_def Let_def)

lemma updateStoreAddress_flag [simp]:
  "isProcessing (updateStoreAddress c a s) = isProcessing s"
  "extracting (updateStoreAddress c a s) = extracting s"
  by (simp_all add: updateStoreAddress_def Let_def)

lemma reprocessReceipt_flag [simp]:
  "isProcessing (reprocessReceipt i s) = isProcessing s"
  "extracting (reprocessReceipt i s) = extracting s"
  by (simp_all add: reprocessReceipt_def Let_def)

lemma updateReceiptUrl_flag [simp]:
  "isProcessing (updateReceiptUrl i u s) = isProcessing s"
  "extracting (updateReceiptUrl i u s) = extracting s"
  by (simp_all add: updateReceiptUrl_def)

lemma deleteReceipt_flag [simp]:
  "isProcessing (deleteReceipt i s) = isProcessing s"
  "extracting (deleteReceipt i s) = extracting s"
  by (simp_all add: deleteReceipt_def Let_def split: option.splits)

lemma length_map_by_id [simp]: "length (map_by_id k f rs) = length rs"
  by (simp add: map_by_id_def)

lemma map_by_id_nth:
  "i < length rs \<Longrightarrow> map_by_id k f rs ! i = (if id_r (rs ! i) = k then f (rs ! i) else rs ! i)"
  by (simp add: map_by_id_def)

lemma issued_subscribe_request:
  "issued (sheetsService (subscribe_request p s)) =
     (if isConfigured (sheetsService s)
      then issued (sheetsService s) @ [(the (scriptUrl (sheetsService s)), p)]
      else issued (sheetsService s))"
  by (auto simp: subscribe_request_def jsonp_issue_def isConfigured_def truthy_str_def
      split: option.splits)

lemma singleton_nth: "length xs = Suc 0 \<Longrightarrow> xs ! 0 = x \<Longrightarrow> xs = [x]"
  by (cases xs) auto

section \<open>Evaluating the example states\<close>

lemmas eval_defs = new_service_def unconfigured_def addReceipt_def isConfigured_def
  truthy_str_def truthy_bool_def queueTrigger_def processQueue_def queued_def Let_def
  subscribe_request_def initialLoad_def processQueue_resume_def completedReceipt_def
  spread_def map_by_id_def gatewayFields_def configured_def extracting_state_def
  completed_state_def jsonp_issue_def example_receipt_def errorReceipt_def failure_message_def

lemma extracting_state_unconfigured:
  "extracting_state unconfigured =
     \<lparr>sheetsService = unconfigured,
      receipts = [\<lparr>id_r = ''a'', url = Some ''http://x/1'', status = processing,
            storeName = None, storeCnpj = None, storeAddress = None, date = None,
            totalAmount = None, items = None, error_r = None, payer = None,
            isSynced = Some False, syncing = None\<rparr>],
      isLoading = False, isProcessing = True,
      extracting = [\<lparr>id_r = ''a'', url = Some ''http://x/1'', status = processing,
            storeName = None, storeCnpj = None, storeAddress = None, date = None,
            totalAmount = None, items = None, error_r = None, payer = None,
            isSynced = Some False, syncing = None\<rparr>]\<rparr>"
  by (simp add: eval_defs)

lemma completed_state_unconfigured:
  "completed_state unconfigured =
     \<lparr>sheetsService = unconfigured, receipts = [example_receipt completed],
      isLoading = False, isProcessing = False, extracting = []\<rparr>"
  by (simp add: eval_defs)

lemma completed_state_configured:
  "receipts (completed_state configured) = [example_receipt completed]"
  "isConfigured (sheetsService (completed_state configured))"
  "issued (sheetsService (completed_state configured)) = 
    [(''https://script.google.com/macros/s/x/exec'', GetPayload),
     (''https://script.google.com/macros/s/x/exec'', SavePayload \<lparr>id_r = ''a'', url = Some ''http://x/1'', status = processing,
            storeName = None, storeCnpj = None, storeAddress = None, date = None,
            totalAmount = None, items = None, error_r = None, payer = None,
            isSynced = Some False, syncing = None\<rparr>),
     (''https://script.google.com/macros/s/x/exec'', SavePayload (example_receipt completed))]"
  by (simp_all add: eval_defs)

section \<open>The suspended extraction and its save\<close>

lemma sheetsService_subscribe_request_unconfigured:
  "\<not> isConfigured (sheetsService s) \<Longrightarrow> subscribe_request p s = s"
  by (simp add: subscribe_request_def)

lemma processQueue_resume_receipts:
  "k < length (extracting s) \<Longrightarrow>
   receipts (processQueue_resume k outcome s) =
     map_by_id (id_r (extracting s ! k))
       (\<lambda>r. case outcome of Inr parsedData \<Rightarrow> completedReceipt (extracting s ! k) parsedData
                           | Inl e \<Rightarrow> errorReceipt (extracting s ! k) e)
       (receipts s)"
  by (simp add: processQueue_resume_def Let_def)

lemma processQueue_resume_issued:
  "k < length (extracting s) \<Longrightarrow>
   issued (sheetsService (processQueue_resume k outcome s)) =
     (if isConfigured (sheetsService s)
      then issued (sheetsService s) @
             [(the (scriptUrl (sheetsService s)),
               SavePayload (case outcome of
                   Inr parsedData \<Rightarrow> completedReceipt (extracting s ! k) parsedData
                 | Inl e \<Rightarrow> errorReceipt (extracting s ! k) e))]
      else issued (sheetsService s))"
  by (simp add: processQueue_resume_def Let_def issued_subscribe_request)

lemma processQueue_resume_flag:
  "k < length (extracting s) \<Longrightarrow> \<not> isProcessing (processQueue_resume k outcome s)"
  by (simp add: processQueue_resume_def Let_def)

lemma processQueue_saved_receipts:
  "receipts (processQueue_saved cid out s) =
     (if \<exists>j. out = JsonpResponse (Some (SaveResult True j))
      then map_by_id cid (\<lambda>r. r\<lparr>isSynced := Some True\<rparr>) (receipts s)
      else receipts s)"
proof (cases out)
  case JsonpFailed
  then show ?thesis
    by (simp add: processQueue_saved_def saveReceipt_settle_def jsonp_settle_def catchError_of_def
        succeeded_def)
next
  case (JsonpResponse response)
  show ?thesis
  proof (cases response)
    case None
    with JsonpResponse show ?thesis
      by (simp add: processQueue_saved_def saveReceipt_settle_def jsonp_settle_def
          catchError_of_def succeeded_def)
  next
    case (Some res)
    obtain b j where "res = SaveResult b j" by (cases res)
    with Some JsonpResponse show ?thesis
      by (simp add: processQueue_saved_def saveReceipt_settle_def jsonp_settle_def
          catchError_of_def succeeded_def)
  qed
qed

section \<open>Uniqueness of urls while the queue runs\<close>

lemma urls_of_map_same:
  assumes "\<And>r. r \<in> set rs \<Longrightarrow> url (f r) = url r"
  shows "urls_of (map f rs) = urls_of rs"
  using assms by (induction rs) (auto split: option.splits)

lemma queue_consistent_addReceipt:
  assumes "queue_consistent s" "newId \<notin> set (map id_r (receipts s))"
  shows "queue_consistent (addReceipt newId u s)"
proof (cases "u \<in> set (urls_of (receipts s))")
  case True
  then have "receipts (addReceipt newId u s) = receipts s"
    by (simp add: addReceipt_receipts)
  with assms(1) show ?thesis
    by (simp add: queue_consistent_def one_at_a_time_def)
next
  case False
  then have "receipts (addReceipt newId u s) =
      \<lparr>id_r = newId, url = Some u, status = processing,
             storeName = None, storeCnpj = None, storeAddress = None, date = None,
             totalAmount = None, items = None, error_r = None, payer = None,
             isSynced = Some False, syncing = None\<rparr> # receipts s"
    by (simp add: addReceipt_receipts)
  with assms False show ?thesis
    by (auto simp: queue_consistent_def one_at_a_time_def list_all_iff list_ex_iff)
qed

lemma queue_consistent_processQueue:
  assumes "queue_consistent s"
  shows "queue_consistent (processQueue s)"
proof (cases "isProcessing s")
  case True
  with assms show ?thesis by (simp add: processQueue_def)
next
  case False
  show ?thesis
  proof (cases "find queued (receipts s)")
    case None
    with assms show ?thesis by (simp add: processQueue_def)
  next
    case (Some r)
    then have "r \<in> set (receipts s)"
      by (auto simp: find_Some_iff)
    with assms False Some show ?thesis
      by (auto simp: processQueue_def queue_consistent_def one_at_a_time_def list_all_iff
          list_ex_iff)
  qed
qed

lemma queue_consistent_resume:
  assumes "queue_consistent s"
  shows "queue_consistent (processQueue_resume k outcome s)"
proof (cases "k < length (extracting s)")
  case False
  with assms show ?thesis by (simp add: processQueue_resume_def)
next
  case True
  from assms have one: "one_at_a_time s" by (simp add: queue_consistent_def)
  with True have k: "k = 0" and len: "length (extracting s) = 1"
    by (auto simp: one_at_a_time_def split: if_splits)
  define x where "x = extracting s ! k"
  define new where "new = (case outcome of
       Inr parsedData \<Rightarrow> completedReceipt x parsedData | Inl e \<Rightarrow> errorReceipt x e)"
  have new: "id_r new = id_r x" "url new = url x"
    by (simp_all add: new_def completedReceipt_def errorReceipt_def split: sum.splits)
  let ?s' = "processQueue_resume k outcome s"
  have rs: "receipts ?s' = map_by_id (id_r x) (\<lambda>r. new) (receipts s)"
    using True unfolding x_def new_def by (simp add: processQueue_resume_receipts)
  have ex: "extracting ?s' = []" "\<not> isProcessing ?s'"
    using True k len by (simp_all add: processQueue_resume_def Let_def)
  from True have "x \<in> set (extracting s)" by (simp add: x_def)
  with assms obtain r0 where r0: "r0 \<in> set (receipts s)" "id_r r0 = id_r x" "url r0 = url x"
    by (auto simp: queue_consistent_def list_all_iff list_ex_iff)
  have same: "\<And>r. r \<in> set (receipts s) \<Longrightarrow> id_r r = id_r x \<Longrightarrow> url r = url x"
  proof -
    fix r assume "r \<in> set (receipts s)" "id_r r = id_r x"
    moreover from assms have "inj_on id_r (set (receipts s))"
      by (simp add: queue_consistent_def distinct_map)
    ultimately have "r = r0" using r0 by (simp add: inj_on_def)
    with r0 show "url r = url x" by simp
  qed
  have "urls_of (receipts ?s') = urls_of (receipts s)"
    unfolding rs map_by_id_def by (rule urls_of_map_same) (auto simp: new same)
  moreover have "map id_r (receipts ?s') = map id_r (receipts s)"
    by (simp add: rs map_by_id_def new)
  ultimately show ?thesis
    using assms ex by (simp add: queue_consistent_def one_at_a_time_def)
qed

lemma queue_consistent_saved:
  assumes "queue_consistent s"
  shows "queue_consistent (processQueue_saved i out s)"
proof (cases "\<exists>j. out = JsonpResponse (Some (SaveResult True j))")
  case False
  then have "receipts (processQueue_saved i out s) = receipts s"
    by (simp add: processQueue_saved_receipts)
  with assms show ?thesis
    by (simp add: queue_consistent_def one_at_a_time_def)
next
  case True
  define f :: "ReceiptData \<Rightarrow> ReceiptData" where "f = (\<lambda>r. if id_r r = i then r\<lparr>isSynced := Some True\<rparr> else r)"
  have f: "\<And>r. id_r (f r) = id_r r" "\<And>r. url (f r) = url r"
    by (simp_all add: f_def)
  let ?s' = "processQueue_saved i out s"
  have rs: "receipts ?s' = map f (receipts s)"
    using True by (simp add: processQueue_saved_receipts map_by_id_def f_def)
  have "urls_of (receipts ?s') = urls_of (receipts s)"
    unfolding rs by (rule urls_of_map_same) (simp add: f)
  moreover have "map id_r (receipts ?s') = map id_r (receipts s)"
    by (simp add: rs f)
  moreover have "list_ex (\<lambda>r. id_r r = id_r x \<and> url r = url x) (receipts ?s')"
    if "list_ex (\<lambda>r. id_r r = id_r x \<and> url r = url x) (receipts s)" for x
  proof -
    from that obtain r where "r \<in> set (receipts s)" "id_r r = id_r x" "url r = url x"
      by (auto simp: list_ex_iff)
    then have "f r \<in> set (receipts ?s')" "id_r (f r) = id_r x" "url (f r) = url x"
      by (simp_all add: rs f)
    then show ?thesis
      unfolding list_ex_iff by blast
  qed
  ultimately show ?thesis
    using assms by (auto simp: queue_consistent_def one_at_a_time_def list_all_iff)
qed

lemma queue_consistent_run:
  "queue_consistent s \<Longrightarrow> insertion_run es s \<Longrightarrow> queue_consistent (run es s)"
proof (induction es arbitrary: s)
  case Nil
  then show ?case by simp
next
  case (Cons e es)
  have "queue_consistent (step e s)"
  proof (cases e)
    case (AddReceipt newId u)
    with Cons.prems show ?thesis by (simp add: queue_consistent_addReceipt)
  next
    case QueueTrigger
    with Cons.prems show ?thesis by (simp add: queueTrigger_def queue_consistent_processQueue)
  next
    case ProcessQueue
    with Cons.prems show ?thesis by (simp add: queue_consistent_processQueue)
  next
    case (ExtractionSettled k outcome)
    with Cons.prems show ?thesis by (simp add: queue_consistent_resume)
  next
    case (CompletedSaveSettled i out)
    with Cons.prems show ?thesis by (simp add: queue_consistent_saved)
  next
    case (RequestSettled out)
    with Cons.prems show ?thesis
      by (simp add: request_settled_def queue_consistent_def one_at_a_time_def)
  qed (use Cons.prems in simp_all)
  with Cons show ?case by simp
qed

lemma queue_consistent_new: "queue_consistent (new_service svc)"
  by (simp add: queue_consistent_def one_at_a_time_def new_service_def)

section \<open>Claim C1: url uniqueness at insertion\<close>

text \<open>
  Claim C1. Starting from a list whose present urls are pairwise different, after any
  sequence of \<open>addReceipt\<close> calls no two records of the list carry the same url; a call whose
  url is already on a record returns the state unchanged; and two calls with
  \<open>http://x/1\<close> on a fresh service leave one record. The same holds at every moment
  when the queue runs between the calls: on a fresh service, after any sequence of
  \<open>addReceipt\<close> calls with fresh ids, triggers, \<open>processQueue\<close> runs and settlements of
  extractions and saves, no two records carry the same url.
\<close>

theorem addReceipt_url_uniqueness:
  assumes "distinct (urls_of (receipts s))"
  shows
    "(\<forall>i j u. i < length (receipts (addReceipts calls s)) \<longrightarrow>
               j < length (receipts (addReceipts calls s)) \<longrightarrow> i \<noteq> j \<longrightarrow>
               url (receipts (addReceipts calls s) ! i) = Some u \<longrightarrow>
               url (receipts (addReceipts calls s) ! j) \<noteq> Some u)
     \<and> ((\<exists>r \<in> set (receipts s). url r = Some u) \<longrightarrow> addReceipt newId u s = s)
     \<and> length (receipts (addReceipts [(id1, ''http://x/1''), (id2, ''http://x/1'')]
                  (new_service svc))) = 1
     \<and> (insertion_run es (new_service svc) \<longrightarrow>
          (\<forall>i j u. i < length (receipts (run es (new_service svc))) \<longrightarrow>
               j < length (receipts (run es (new_service svc))) \<longrightarrow> i \<noteq> j \<longrightarrow>
               url (receipts (run es (new_service svc)) ! i) = Some u \<longrightarrow>
               url (receipts (run es (new_service svc)) ! j) \<noteq> Some u))"
proof -
  have d: "distinct (urls_of (receipts (addReceipts calls s)))"
    using assms by (rule addReceipts_distinct)
  have a: "\<forall>i j u. i < length (receipts (addReceipts calls s)) \<longrightarrow>
               j < length (receipts (addReceipts calls s)) \<longrightarrow> i \<noteq> j \<longrightarrow>
               url (receipts (addReceipts calls s) ! i) = Some u \<longrightarrow>
               url (receipts (addReceipts calls s) ! j) \<noteq> Some u"
    using distinct_urls_nth [OF d] by blast
  have b: "(\<exists>r \<in> set (receipts s). url r = Some u) \<longrightarrow> addReceipt newId u s = s"
  proof
    assume "\<exists>r \<in> set (receipts s). url r = Some u"
    then have "find (\<lambda>r. url r = Some u) (receipts s) \<noteq> None"
      by (auto simp: find_None_iff)
    then show "addReceipt newId u s = s"
      by (auto simp: addReceipt_def)
  qed
  have c: "length (receipts (addReceipts [(id1, ''http://x/1''), (id2, ''http://x/1'')]
                  (new_service svc))) = 1"
    by (simp add: addReceipt_receipts new_service_def)
  have e: "insertion_run es (new_service svc) \<longrightarrow>
          (\<forall>i j u. i < length (receipts (run es (new_service svc))) \<longrightarrow>
               j < length (receipts (run es (new_service svc))) \<longrightarrow> i \<noteq> j \<longrightarrow>
               url (receipts (run es (new_service svc)) ! i) = Some u \<longrightarrow>
               url (receipts (run es (new_service svc)) ! j) \<noteq> Some u)"
  proof
    assume "insertion_run es (new_service svc)"
    with queue_consistent_new have "queue_consistent (run es (new_service svc))"
      by (rule queue_consistent_run)
    then have "distinct (urls_of (receipts (run es (new_service svc))))"
      by (simp add: queue_consistent_def)
    from distinct_urls_nth [OF this]
    show "\<forall>i j u. i < length (receipts (run es (new_service svc))) \<longrightarrow>
               j < length (receipts (run es (new_service svc))) \<longrightarrow> i \<noteq> j \<longrightarrow>
               url (receipts (run es (new_service svc)) ! i) = Some u \<longrightarrow>
               url (receipts (run es (new_service svc)) ! j) \<noteq> Some u"
      by blast
  qed
  from a b c e show ?thesis by blast
qed

theorem addReceipt_url_uniqueness_witness:
  "distinct (urls_of (receipts (new_service unconfigured)))
   \<and> url (receipts (addReceipts [(''a'', ''http://x/1''), (''b'', ''http://x/2''), (''c'', ''http://x/1'')]
             (new_service unconfigured)) ! 0) = Some ''http://x/2''
   \<and> url (receipts (addReceipts [(''a'', ''http://x/1''), (''b'', ''http://x/2''), (''c'', ''http://x/1'')]
             (new_service unconfigured)) ! 1) \<noteq> Some ''http://x/2''
   \<and> addReceipt ''c'' ''http://x/1'' (addReceipt ''a'' ''http://x/1'' (new_service unconfigured))
       = addReceipt ''a'' ''http://x/1'' (new_service unconfigured)
   \<and> insertion_run [AddReceipt ''a'' ''http://x/1'', QueueTrigger, AddReceipt ''b'' ''http://x/1'',
        ExtractionSettled 0 (Inl OtherThrown), AddReceipt ''c'' ''http://x/2'']
        (new_service unconfigured)
   \<and> url (receipts (run [AddReceipt ''a'' ''http://x/1'', QueueTrigger,
        AddReceipt ''b'' ''http://x/1'', ExtractionSettled 0 (Inl OtherThrown),
        AddReceipt ''c'' ''http://x/2''] (new_service unconfigured)) ! 0) = Some ''http://x/2''
   \<and> url (receipts (run [AddReceipt ''a'' ''http://x/1'', QueueTrigger,
        AddReceipt ''b'' ''http://x/1'', ExtractionSettled 0 (Inl OtherThrown),
        AddReceipt ''c'' ''http://x/2''] (new_service unconfigured)) ! 1) \<noteq> Some ''http://x/2''"
proof -
  let ?calls = "[(''a'', ''http://x/1''), (''b'', ''http://x/2''), (''c'', ''http://x/1'')]"
  let ?es = "[AddReceipt ''a'' ''http://x/1'', QueueTrigger, AddReceipt ''b'' ''http://x/1'',
        ExtractionSettled 0 (Inl OtherThrown), AddReceipt ''c'' ''http://x/2'']"
  let ?s = "new_service unconfigured"
  have ir: "insertion_run ?es ?s"
    by (simp add: eval_defs)
  have us: "map url (receipts (run ?es ?s)) = [Some ''http://x/2'', Some ''http://x/1'']"
    by (simp add: eval_defs)
  have len: "length (receipts (run ?es ?s)) = 2"
    using arg_cong [OF us, of length] by simp
  have u0: "url (receipts (run ?es ?s) ! 0) = Some ''http://x/2''"
    using arg_cong [OF us, of "\<lambda>xs. xs ! 0"] len by simp
  have h: "distinct (urls_of (receipts ?s))"
    by (simp add: new_service_def)
  have rs: "receipts (addReceipts ?calls ?s) =
      [\<lparr>id_r = ''b'', url = Some ''http://x/2'', status = processing,
             storeName = None, storeCnpj = None, storeAddress = None, date = None,
             totalAmount = None, items = None, error_r = None, payer = None,
             isSynced = Some False, syncing = None\<rparr>,
       \<lparr>id_r = ''a'', url = Some ''http://x/1'', status = processing,
             storeName = None, storeCnpj = None, storeAddress = None, date = None,
             totalAmount = None, items = None, error_r = None, payer = None,
             isSynced = Some False, syncing = None\<rparr>]"
    by (simp add: addReceipt_receipts new_service_def)
  have h2: "\<exists>r \<in> set (receipts (addReceipt ''a'' ''http://x/1'' ?s)). url r = Some ''http://x/1''"
    by (simp add: addReceipt_receipts new_service_def)
  note T = addReceipt_url_uniqueness [OF h, where calls = ?calls]
  have "url (receipts (addReceipts ?calls ?s) ! 1) \<noteq> Some ''http://x/2''"
    using T [THEN conjunct1, rule_format, of 0 1 "''http://x/2''"]
    by (simp add: addReceipt_receipts new_service_def)
  moreover have "distinct (urls_of (receipts (addReceipt ''a'' ''http://x/1'' ?s)))"
    by (simp add: addReceipt_receipts new_service_def)
  note U = addReceipt_url_uniqueness [OF this, where u = "''http://x/1''" and newId = "''c''"]
  have "addReceipt ''c'' ''http://x/1'' (addReceipt ''a'' ''http://x/1'' ?s)
       = addReceipt ''a'' ''http://x/1'' ?s"
    using U [THEN conjunct2, THEN conjunct1] h2 by blast
  moreover have "url (receipts (run ?es ?s) ! 1) \<noteq> Some ''http://x/2''"
  proof -
    have l0: "0 < length (receipts (run ?es ?s))" and l1: "1 < length (receipts (run ?es ?s))"
      and ne: "(0::nat) \<noteq> 1"
      unfolding len by simp_all
    show ?thesis
      by (rule U [where svc = unconfigured and es = ?es, THEN conjunct2, THEN conjunct2,
            THEN conjunct2, rule_format, OF ir l0 l1 ne u0])
  qed
  ultimately show ?thesis using h rs ir u0 by simp
qed

section \<open>Claim C2: serialized extraction\<close>

lemma addReceiptFromPhoto_flag [simp]:
  "isProcessing (addReceiptFromPhoto i s) = isProcessing s"
  "extracting (addReceiptFromPhoto i s) = extracting s"
  by (simp_all add: addReceiptFromPhoto_def Let_def)

lemma addReceiptFromPhoto_resume_flag [simp]:
  "isProcessing (addReceiptFromPhoto_resume i outcome s) = isProcessing s"
  "extracting (addReceiptFromPhoto_resume i outcome s) = extracting s"
  by (simp_all add: addReceiptFromPhoto_resume_def Let_def split: sum.splits option.splits)

lemma fold_keeps_flag:
  assumes "\<And>x t. isProcessing (F x t) = isProcessing t"
    and "\<And>x t. extracting (F x t) = extracting t"
  shows "isProcessing (fold F xs s) = isProcessing s"
    and "extracting (fold F xs s) = extracting s"
  by (induction xs arbitrary: s) (simp_all add: assms)

lemma syncLocalDataToSheets_flag [simp]:
  "isProcessing (syncLocalDataToSheets s) = isProcessing s"
  "extracting (syncLocalDataToSheets s) = extracting s"
  by (simp_all add: syncLocalDataToSheets_def Let_def fold_keeps_flag)

lemma syncLocalDataToSheets_subscriber_flag [simp]:
  "isProcessing (syncLocalDataToSheets_subscriber results d s) = isProcessing s"
  "extracting (syncLocalDataToSheets_subscriber results d s) = extracting s"
  by (simp_all add: syncLocalDataToSheets_subscriber_def)

lemma request_settled_flag [simp]:
  "isProcessing (request_settled out s) = isProcessing s"
  "extracting (request_settled out s) = extracting s"
  by (simp_all add: request_settled_def)

lemma processQueue_one_at_a_time:
  "one_at_a_time s \<Longrightarrow> one_at_a_time (processQueue s)"
  by (simp add: one_at_a_time_def processQueue_def split: option.splits if_splits)

lemma queueTrigger_one_at_a_time:
  "one_at_a_time s \<Longrightarrow> one_at_a_time (queueTrigger s)"
  by (simp add: queueTrigger_def processQueue_one_at_a_time)

lemma processQueue_resume_one_at_a_time:
  "one_at_a_time s \<Longrightarrow> one_at_a_time (processQueue_resume k outcome s)"
  by (auto simp: one_at_a_time_def processQueue_resume_def Let_def split: if_splits)

lemma step_one_at_a_time:
  assumes "one_at_a_time s"
  shows "one_at_a_time (step e s)"
proof (cases e)
  case QueueTrigger
  with assms show ?thesis by (simp add: queueTrigger_one_at_a_time)
next
  case ProcessQueue
  with assms show ?thesis by (simp add: processQueue_one_at_a_time)
next
  case (ExtractionSettled k outcome)
  with assms show ?thesis by (simp add: processQueue_resume_one_at_a_time)
qed (use assms in \<open>simp_all add: one_at_a_time_def\<close>)

lemma run_one_at_a_time: "one_at_a_time s \<Longrightarrow> one_at_a_time (run es s)"
  by (induction es arbitrary: s) (simp_all add: step_one_at_a_time)

lemma new_service_one_at_a_time: "one_at_a_time (new_service svc)"
  by (simp add: one_at_a_time_def new_service_def)

lemma find_first:
  "find P xs = Some x \<longleftrightarrow> (\<exists>i<length xs. xs ! i = x \<and> P x \<and> (\<forall>j<i. \<not> P (xs ! j)))"
  by (auto simp: find_Some_iff)

lemma list_ex_find: "list_ex P xs \<Longrightarrow> \<exists>x. find P xs = Some x"
  by (induction xs) auto

text \<open>
  Claim C2. In every state the service reaches from its initial one, at most one call of
  \<open>processQueue\<close> is suspended in an extraction, and the flag is set exactly then. While the
  flag is set, the queue trigger and \<open>processQueue\<close> itself change nothing; without a queued
  record (status \<open>processing\<close>, non-empty url) the trigger changes nothing; with the flag
  unset and a queued record, the trigger starts the extraction of the first queued record in
  list order, and of that one only.
\<close>

theorem serialized_extraction:
  "length (extracting (run es (new_service svc))) \<le> 1
   \<and> (isProcessing (run es (new_service svc)) \<longleftrightarrow> extracting (run es (new_service svc)) \<noteq> [])
   \<and> (isProcessing s \<longrightarrow> queueTrigger s = s \<and> processQueue s = s)
   \<and> (\<not> list_ex queued (receipts s) \<longrightarrow> queueTrigger s = s)
   \<and> (\<not> isProcessing s \<and> list_ex queued (receipts s) \<longrightarrow>
        (\<exists>i<length (receipts s).
            queued (receipts s ! i) \<and> (\<forall>j<i. \<not> queued (receipts s ! j)) \<and>
            queueTrigger s = s\<lparr>isProcessing := True,
                                extracting := extracting s @ [receipts s ! i]\<rparr>))"
proof -
  have inv: "one_at_a_time (run es (new_service svc))"
    by (rule run_one_at_a_time [OF new_service_one_at_a_time])
  have a: "length (extracting (run es (new_service svc))) \<le> 1"
    using inv by (simp add: one_at_a_time_def split: if_splits)
  have b: "isProcessing (run es (new_service svc)) \<longleftrightarrow> extracting (run es (new_service svc)) \<noteq> []"
    using inv by (auto simp: one_at_a_time_def split: if_splits)
  have c: "isProcessing s \<longrightarrow> queueTrigger s = s \<and> processQueue s = s"
    by (simp add: queueTrigger_def processQueue_def)
  have d: "\<not> list_ex queued (receipts s) \<longrightarrow> queueTrigger s = s"
    by (simp add: queueTrigger_def)
  have e: "\<not> isProcessing s \<and> list_ex queued (receipts s) \<longrightarrow>
        (\<exists>i<length (receipts s).
            queued (receipts s ! i) \<and> (\<forall>j<i. \<not> queued (receipts s ! j)) \<and>
            queueTrigger s = s\<lparr>isProcessing := True,
                                extracting := extracting s @ [receipts s ! i]\<rparr>)"
  proof
    assume h: "\<not> isProcessing s \<and> list_ex queued (receipts s)"
    then obtain r where r: "find queued (receipts s) = Some r"
      using list_ex_find by blast
    then obtain i where i: "i < length (receipts s)" "receipts s ! i = r" "queued r"
      "\<forall>j<i. \<not> queued (receipts s ! j)"
      unfolding find_first by blast
    from i(3) have "truthy_str (url r)" by (simp add: queued_def)
    with h r have "queueTrigger s = s\<lparr>isProcessing := True, extracting := extracting s @ [r]\<rparr>"
      by (simp add: queueTrigger_def processQueue_def)
    with i show "\<exists>i<length (receipts s).
            queued (receipts s ! i) \<and> (\<forall>j<i. \<not> queued (receipts s ! j)) \<and>
            queueTrigger s = s\<lparr>isProcessing := True,
                                extracting := extracting s @ [receipts s ! i]\<rparr>"
      by blast
  qed
  from a b c d e show ?thesis by blast
qed

theorem serialized_extraction_witness:
  "\<not> isProcessing (run [AddReceipt ''a'' ''http://x/1'', AddReceipt ''b'' ''http://x/2'']
        (new_service unconfigured))
   \<and> list_ex queued (receipts (run [AddReceipt ''a'' ''http://x/1'', AddReceipt ''b'' ''http://x/2'']
        (new_service unconfigured)))
   \<and> map id_r (extracting (queueTrigger
         (run [AddReceipt ''a'' ''http://x/1'', AddReceipt ''b'' ''http://x/2'']
            (new_service unconfigured)))) = [''b'']
   \<and> isProcessing (run [AddReceipt ''a'' ''http://x/1'', AddReceipt ''b'' ''http://x/2'', QueueTrigger]
        (new_service unconfigured))
   \<and> queueTrigger (run [AddReceipt ''a'' ''http://x/1'', AddReceipt ''b'' ''http://x/2'', QueueTrigger]
        (new_service unconfigured))
       = run [AddReceipt ''a'' ''http://x/1'', AddReceipt ''b'' ''http://x/2'', QueueTrigger]
        (new_service unconfigured)
   \<and> length (extracting (run [AddReceipt ''a'' ''http://x/1'', AddReceipt ''b'' ''http://x/2'',
         QueueTrigger, QueueTrigger, ProcessQueue] (new_service unconfigured))) \<le> 1
   \<and> queueTrigger (new_service unconfigured) = new_service unconfigured"
proof -
  let ?idle = "run [AddReceipt ''a'' ''http://x/1'', AddReceipt ''b'' ''http://x/2'']
        (new_service unconfigured)"
  let ?busy = "run [AddReceipt ''a'' ''http://x/1'', AddReceipt ''b'' ''http://x/2'', QueueTrigger]
        (new_service unconfigured)"
  have idle: "\<not> isProcessing ?idle" "list_ex queued (receipts ?idle)"
    "length (receipts ?idle) = 2" "queued (receipts ?idle ! 0)" "id_r (receipts ?idle ! 0) = ''b''"
    by (simp_all add: eval_defs)
  have busy: "isProcessing ?busy"
    by (simp add: eval_defs)
  have none: "\<not> list_ex queued (receipts (new_service unconfigured))"
    by (simp add: new_service_def)
  from serialized_extraction [where s = ?idle, THEN conjunct2, THEN conjunct2, THEN conjunct2,
      THEN conjunct2] idle(1,2)
  obtain i where i: "\<forall>j<i. \<not> queued (receipts ?idle ! j)"
    "queueTrigger ?idle = ?idle\<lparr>isProcessing := True,
                                extracting := extracting ?idle @ [receipts ?idle ! i]\<rparr>"
    by blast
  have "i = 0"
  proof (rule ccontr)
    assume "i \<noteq> 0"
    then have "0 < i" by simp
    with i(1) idle(4) show False by blast
  qed
  with i(2) have a: "map id_r (extracting (queueTrigger ?idle)) = [''b'']"
    using idle(5) by (simp add: new_service_def)
  from serialized_extraction [where s = ?busy, THEN conjunct2, THEN conjunct2, THEN conjunct1] busy
  have b: "queueTrigger ?busy = ?busy" by blast
  have c: "length (extracting (run [AddReceipt ''a'' ''http://x/1'', AddReceipt ''b'' ''http://x/2'',
         QueueTrigger, QueueTrigger, ProcessQueue] (new_service unconfigured))) \<le> 1"
    by (rule serialized_extraction [THEN conjunct1])
  from serialized_extraction [where s = "new_service unconfigured", THEN conjunct2, THEN conjunct2,
      THEN conjunct2, THEN conjunct1] none
  have d: "queueTrigger (new_service unconfigured) = new_service unconfigured" by blast
  from idle(1,2) a busy b c d show ?thesis by blast
qed

section \<open>Claim C3: the extraction step\<close>

text \<open>
  Claim C3. Let \<open>r\<close> be the receipt a suspended \<open>processQueue\<close> captured. When the gateway
  fulfils, every record with \<open>r\<close>'s id becomes \<open>r\<close> with the extracted fields merged in (an
  extracted field replaces \<open>r\<close>'s, a missing one keeps it), status \<open>completed\<close> and
  \<open>isSynced = false\<close>, and a configured bridge is sent one save of it. When the gateway
  rejects, the record becomes \<open>r\<close> with status \<open>error\<close> and the failure's message. Both ways
  the flag \<open>isProcessing\<close> ends cleared and no other record changes. The subscriber of the
  save sets \<open>isSynced\<close> on the records of that id only when the save settles with a response
  whose \<open>success\<close> is true, and changes no record otherwise. In the scenario,
  \<open>addReceipt("http://x/1")\<close> gives one \<open>processing\<close> record, and the gateway's success with
  \<open>{storeName: "Loja A", totalAmount: 10.5, items: []}\<close> makes it \<open>completed\<close> with these
  fields.
\<close>

theorem extraction_step_postcondition:
  assumes k: "k < length (extracting s)"
  shows
    "(let r = extracting s ! k;
          c = completedReceipt r parsedData;
          s' = processQueue_resume k (Inr parsedData) s
      in length (receipts s') = length (receipts s)
         \<and> (\<forall>n<length (receipts s).
               receipts s' ! n = (if id_r (receipts s ! n) = id_r r then c else receipts s ! n))
         \<and> id_r c = id_r r \<and> url c = url r \<and> error_r c = error_r r
         \<and> status c = completed \<and> isSynced c = Some False
         \<and> storeName c = (case ParsedReceiptData.storeName parsedData of
                             Some v \<Rightarrow> Some v | None \<Rightarrow> storeName r)
         \<and> storeCnpj c = (case ParsedReceiptData.storeCnpj parsedData of
                             Some v \<Rightarrow> Some v | None \<Rightarrow> storeCnpj r)
         \<and> storeAddress c = (case ParsedReceiptData.storeAddress parsedData of
                             Some v \<Rightarrow> Some v | None \<Rightarrow> storeAddress r)
         \<and> date c = (case ParsedReceiptData.date parsedData of
                             Some v \<Rightarrow> Some v | None \<Rightarrow> date r)
         \<and> totalAmount c = (case ParsedReceiptData.totalAmount parsedData of
                             Some v \<Rightarrow> Some v | None \<Rightarrow> totalAmount r)
         \<and> items c = (case ParsedReceiptData.items parsedData of
                             Some v \<Rightarrow> Some v | None \<Rightarrow> items r)
         \<and> payer c = (case ParsedReceiptData.payer parsedData of
                             Some v \<Rightarrow> Some v | None \<Rightarrow> payer r)
         \<and> \<not> isProcessing s'
         \<and> issued (sheetsService s') =
             (if isConfigured (sheetsService s)
              then issued (sheetsService s) @ [(the (scriptUrl (sheetsService s)), SavePayload c)]
              else issued (sheetsService s)))
     \<and> (let r = extracting s ! k;
             f = r\<lparr>status := error, error_r := Some (failure_message e)\<rparr>;
             s' = processQueue_resume k (Inl e) s
         in length (receipts s') = length (receipts s)
            \<and> (\<forall>n<length (receipts s).
                  receipts s' ! n = (if id_r (receipts s ! n) = id_r r then f else receipts s ! n))
            \<and> failure_message (ErrorObject m) = m
            \<and> \<not> isProcessing s'
            \<and> issued (sheetsService s') =
                (if isConfigured (sheetsService s)
                 then issued (sheetsService s) @ [(the (scriptUrl (sheetsService s)), SavePayload f)]
                 else issued (sheetsService s)))
     \<and> length (receipts (processQueue_saved cid out t)) = length (receipts t)
     \<and> (\<forall>n<length (receipts t).
           receipts (processQueue_saved cid out t) ! n =
             (if id_r (receipts t ! n) = cid \<and> (\<exists>j. out = JsonpResponse (Some (SaveResult True j)))
              then (receipts t ! n)\<lparr>isSynced := Some True\<rparr>
              else receipts t ! n))
     \<and> receipts (run [AddReceipt newId ''http://x/1''] (new_service svc)) =
         [\<lparr>id_r = newId, url = Some ''http://x/1'', status = processing,
            storeName = None, storeCnpj = None, storeAddress = None, date = None,
            totalAmount = None, items = None, error_r = None, payer = None,
            isSynced = Some False, syncing = None\<rparr>]
     \<and> receipts (run [AddReceipt newId ''http://x/1'', QueueTrigger,
                      ExtractionSettled 0 (Inr \<lparr>ParsedReceiptData.storeName = Some ''Loja A'',
                         ParsedReceiptData.storeCnpj = None,
                         ParsedReceiptData.storeAddress = None,
                         ParsedReceiptData.date = None,
                         ParsedReceiptData.totalAmount = Some 10.5,
                         ParsedReceiptData.items = Some [],
                         ParsedReceiptData.payer = None,
                         ParsedReceiptData.isSynced = None,
                         ParsedReceiptData.syncing = None\<rparr>)]
                  (new_service svc)) =
         [\<lparr>id_r = newId, url = Some ''http://x/1'', status = completed,
            storeName = Some ''Loja A'', storeCnpj = None, storeAddress = None, date = None,
            totalAmount = Some 10.5, items = Some [], error_r = None, payer = None,
            isSynced = Some False, syncing = None\<rparr>]"
proof -
  have ok: "let r = extracting s ! k;
          c = completedReceipt r parsedData;
          s' = processQueue_resume k (Inr parsedData) s
      in length (receipts s') = length (receipts s)
         \<and> (\<forall>n<length (receipts s).
               receipts s' ! n = (if id_r (receipts s ! n) = id_r r then c else receipts s ! n))
         \<and> id_r c = id_r r \<and> url c = url r \<and> error_r c = error_r r
         \<and> status c = completed \<and> isSynced c = Some False
         \<and> storeName c = (case ParsedReceiptData.storeName parsedData of
                             Some v \<Rightarrow> Some v | None \<Rightarrow> storeName r)
         \<and> storeCnpj c = (case ParsedReceiptData.storeCnpj parsedData of
                             Some v \<Rightarrow> Some v | None \<Rightarrow> storeCnpj r)
         \<and> storeAddress c = (case ParsedReceiptData.storeAddress parsedData of
                             Some v \<Rightarrow> Some v | None \<Rightarrow> storeAddress r)
         \<and> date c = (case ParsedReceiptData.date parsedData of
                             Some v \<Rightarrow> Some v | None \<Rightarrow> date r)
         \<and> totalAmount c = (case ParsedReceiptData.totalAmount parsedData of
                             Some v \<Rightarrow> Some v | None \<Rightarrow> totalAmount r)
         \<and> items c = (case ParsedReceiptData.items parsedData of
                             Some v \<Rightarrow> Some v | None \<Rightarrow> items r)
         \<and> payer c = (case ParsedReceiptData.payer parsedData of
                             Some v \<Rightarrow> Some v | None \<Rightarrow> payer r)
         \<and> \<not> isProcessing s'
         \<and> issued (sheetsService s') =
             (if isConfigured (sheetsService s)
              then issued (sheetsService s) @ [(the (scriptUrl (sheetsService s)), SavePayload c)]
              else issued (sheetsService s))"
    using k
    by (simp add: Let_def processQueue_resume_receipts processQueue_resume_issued
        processQueue_resume_flag map_by_id_nth completedReceipt_def spread_def)
  have bad: "let r = extracting s ! k;
             f = r\<lparr>status := error, error_r := Some (failure_message e)\<rparr>;
             s' = processQueue_resume k (Inl e) s
         in length (receipts s') = length (receipts s)
            \<and> (\<forall>n<length (receipts s).
                  receipts s' ! n = (if id_r (receipts s ! n) = id_r r then f else receipts s ! n))
            \<and> failure_message (ErrorObject m) = m
            \<and> \<not> isProcessing s'
            \<and> issued (sheetsService s') =
                (if isConfigured (sheetsService s)
                 then issued (sheetsService s) @ [(the (scriptUrl (sheetsService s)), SavePayload f)]
                 else issued (sheetsService s))"
    using k
    by (simp add: Let_def processQueue_resume_receipts processQueue_resume_issued
        processQueue_resume_flag map_by_id_nth errorReceipt_def failure_message_def)
  have saved1: "length (receipts (processQueue_saved cid out t)) = length (receipts t)"
    by (simp add: processQueue_saved_receipts)
  have saved2: "\<forall>n<length (receipts t).
           receipts (processQueue_saved cid out t) ! n =
             (if id_r (receipts t ! n) = cid \<and> (\<exists>j. out = JsonpResponse (Some (SaveResult True j)))
              then (receipts t ! n)\<lparr>isSynced := Some True\<rparr>
              else receipts t ! n)"
    by (simp add: processQueue_saved_receipts map_by_id_nth)
  have sc1: "receipts (run [AddReceipt newId ''http://x/1''] (new_service svc)) =
         [\<lparr>id_r = newId, url = Some ''http://x/1'', status = processing,
            storeName = None, storeCnpj = None, storeAddress = None, date = None,
            totalAmount = None, items = None, error_r = None, payer = None,
            isSynced = Some False, syncing = None\<rparr>]"
    by (simp add: addReceipt_receipts new_service_def)
  let ?s1 = "addReceipt newId ''http://x/1'' (new_service svc)"
  have s1: "receipts ?s1 = [\<lparr>id_r = newId, url = Some ''http://x/1'', status = processing,
            storeName = None, storeCnpj = None, storeAddress = None, date = None,
            totalAmount = None, items = None, error_r = None, payer = None,
            isSynced = Some False, syncing = None\<rparr>]"
    "\<not> isProcessing ?s1" "extracting ?s1 = []"
    by (simp_all add: addReceipt_receipts new_service_def)
  let ?s2 = "queueTrigger ?s1"
  have s2: "receipts ?s2 = receipts ?s1" "extracting ?s2 = receipts ?s1"
    using s1 by (simp_all add: queueTrigger_def processQueue_def queued_def truthy_str_def)
  have sc2: "receipts (run [AddReceipt newId ''http://x/1'', QueueTrigger,
                      ExtractionSettled 0 (Inr \<lparr>ParsedReceiptData.storeName = Some ''Loja A'',
                         ParsedReceiptData.storeCnpj = None,
                         ParsedReceiptData.storeAddress = None,
                         ParsedReceiptData.date = None,
                         ParsedReceiptData.totalAmount = Some 10.5,
                         ParsedReceiptData.items = Some [],
                         ParsedReceiptData.payer = None,
                         ParsedReceiptData.isSynced = None,
                         ParsedReceiptData.syncing = None\<rparr>)]
                  (new_service svc)) =
         [\<lparr>id_r = newId, url = Some ''http://x/1'', status = completed,
            storeName = Some ''Loja A'', storeCnpj = None, storeAddress = None, date = None,
            totalAmount = Some 10.5, items = Some [], error_r = None, payer = None,
            isSynced = Some False, syncing = None\<rparr>]"
    using s1 s2
    by (simp add: processQueue_resume_receipts map_by_id_def completedReceipt_def spread_def)
  from ok bad saved1 saved2 sc1 sc2 show ?thesis by blast
qed

text \<open>The theorem at the example states: one extraction in flight, settled both ways.\<close>

theorem extraction_step_postcondition_witness:
  "0 < length (extracting (extracting_state unconfigured))
   \<and> status (receipts (processQueue_resume 0 (Inr gatewayFields) (extracting_state unconfigured)) ! 0)
       = completed
   \<and> storeName (receipts (processQueue_resume 0 (Inr gatewayFields) (extracting_state unconfigured)) ! 0)
       = Some ''Loja A''
   \<and> \<not> isProcessing (processQueue_resume 0 (Inr gatewayFields) (extracting_state unconfigured))
   \<and> status (receipts (processQueue_resume 0 (Inl (ErrorObject ''timeout''))
         (extracting_state unconfigured)) ! 0) = error
   \<and> error_r (receipts (processQueue_resume 0 (Inl (ErrorObject ''timeout''))
         (extracting_state unconfigured)) ! 0) = Some ''timeout''
   \<and> \<not> isProcessing (processQueue_resume 0 (Inl (ErrorObject ''timeout''))
         (extracting_state unconfigured))
   \<and> isSynced (receipts (processQueue_saved ''a'' (JsonpResponse (Some (SaveResult True ''a'')))
         (completed_state configured)) ! 0) = Some True
   \<and> isSynced (receipts (processQueue_saved ''a'' JsonpFailed (completed_state configured)) ! 0)
       = Some False"
proof -
  let ?s = "extracting_state unconfigured"
  have h: "0 < length (extracting ?s)"
    by (simp add: extracting_state_unconfigured)
  note T = extraction_step_postcondition [OF h, where parsedData = gatewayFields
      and e = "ErrorObject ''timeout''" and m = "''timeout''" and cid = "''a''"
      and t = "completed_state configured"]
  have ok: "status (receipts (processQueue_resume 0 (Inr gatewayFields) ?s) ! 0) = completed
      \<and> storeName (receipts (processQueue_resume 0 (Inr gatewayFields) ?s) ! 0) = Some ''Loja A''
      \<and> \<not> isProcessing (processQueue_resume 0 (Inr gatewayFields) ?s)"
    using T [THEN conjunct1]
    by (simp add: Let_def extracting_state_unconfigured gatewayFields_def)
  have bad: "status (receipts (processQueue_resume 0 (Inl (ErrorObject ''timeout'')) ?s) ! 0) = error
      \<and> error_r (receipts (processQueue_resume 0 (Inl (ErrorObject ''timeout'')) ?s) ! 0)
          = Some ''timeout''
      \<and> \<not> isProcessing (processQueue_resume 0 (Inl (ErrorObject ''timeout'')) ?s)"
    using T [THEN conjunct2, THEN conjunct1]
    by (simp add: Let_def extracting_state_unconfigured)
  have yes: "isSynced (receipts (processQueue_saved ''a'' (JsonpResponse (Some (SaveResult True ''a'')))
         (completed_state configured)) ! 0) = Some True"
    using T [where out = "JsonpResponse (Some (SaveResult True ''a''))",
        THEN conjunct2, THEN conjunct2, THEN conjunct2, THEN conjunct1, rule_format, of 0]
    by (simp add: completed_state_configured example_receipt_def)
  have no: "isSynced (receipts (processQueue_saved ''a'' JsonpFailed (completed_state configured)) ! 0)
       = Some False"
    using T [where out = JsonpFailed,
        THEN conjunct2, THEN conjunct2, THEN conjunct2, THEN conjunct1, rule_format, of 0]
    by (simp add: completed_state_configured example_receipt_def)
  from h ok bad yes no show ?thesis by blast
qed

section \<open>Claim C4: sanitization on initial load\<close>

lemma initialLoad_subscriber_array:
  "receipts (initialLoad_subscriber (JsonpResponse (ReceiptArray data)) s) = map sanitize data"
  "\<not> isLoading (initialLoad_subscriber (JsonpResponse (ReceiptArray data)) s)"
  by (simp_all add: initialLoad_subscriber_def initialLoad_next_def getReceipts_settle_def
      jsonp_settle_def catchError_of_def)

lemma initialLoad_subscriber_failed:
  "receipts (initialLoad_subscriber JsonpFailed s) = []"
  "\<not> isLoading (initialLoad_subscriber JsonpFailed s)"
  by (simp_all add: initialLoad_subscriber_def initialLoad_next_def getReceipts_settle_def
      jsonp_settle_def catchError_of_def)

lemma initialLoad_subscriber_error_answer:
  "receipts (initialLoad_subscriber (JsonpResponse (ErrorResponse e d)) s) = receipts s"
  "isLoading (initialLoad_subscriber (JsonpResponse (ErrorResponse e d)) s) = isLoading s"
  by (simp_all add: initialLoad_subscriber_def initialLoad_next_def getReceipts_settle_def
      jsonp_settle_def catchError_of_def)

lemma initialLoad_configured:
  "isConfigured (sheetsService s) \<Longrightarrow> isLoading (initialLoad localData s)"
  "isConfigured (sheetsService s) \<Longrightarrow> receipts (initialLoad localData s) = receipts s"
  "isConfigured (sheetsService s) \<Longrightarrow>
     issued (sheetsService (initialLoad localData s)) =
       issued (sheetsService s) @ [(the (scriptUrl (sheetsService s)), GetPayload)]"
  by (simp_all add: initialLoad_def Let_def issued_subscribe_request)

lemma sanitize_cases:
  "sanitize r =
     (if status r = processing
      then r\<lparr>status := error, error_r := Some previousSessionError, isSynced := Some True\<rparr>
      else r\<lparr>isSynced := Some True\<rparr>)"
  by (simp add: sanitize_def)

text \<open>
  Claim C4. With a configured bridge \<open>initialLoad\<close> raises the loading flag and requests
  the remote list, leaving the in-memory list as it is until the answer. When an array
  arrives, the in-memory list becomes that array with every \<open>processing\<close> record recast to
  \<open>error\<close> with the fixed message and every record marked synced, so no record of the new
  list is \<open>processing\<close>, and the loading flag is cleared; it is cleared also when the
  request fails (the list is then empty). But when the endpoint answers with its error
  object, as \<open>handleGet\<close> does for a spreadsheet that cannot be opened, the subscriber throws at
  \<open>data.map\<close>: the in-memory list is not replaced and the loading flag stays raised.
\<close>

theorem initialLoad_error_answer_keeps_loading:
  "(isConfigured (sheetsService s) \<longrightarrow>
      isLoading (initialLoad localData s)
      \<and> receipts (initialLoad localData s) = receipts s
      \<and> issued (sheetsService (initialLoad localData s)) =
          issued (sheetsService s) @ [(the (scriptUrl (sheetsService s)), GetPayload)])
   \<and> length (receipts (initialLoad_subscriber (JsonpResponse (ReceiptArray data)) t))
       = length data
   \<and> (\<forall>n<length data.
         receipts (initialLoad_subscriber (JsonpResponse (ReceiptArray data)) t) ! n =
           (if status (data ! n) = processing
            then (data ! n)\<lparr>status := error, error_r := Some previousSessionError,
                            isSynced := Some True\<rparr>
            else (data ! n)\<lparr>isSynced := Some True\<rparr>))
   \<and> (\<forall>r \<in> set (receipts (initialLoad_subscriber (JsonpResponse (ReceiptArray data)) t)).
         status r \<noteq> processing \<and> isSynced r = Some True)
   \<and> \<not> isLoading (initialLoad_subscriber (JsonpResponse (ReceiptArray data)) t)
   \<and> receipts (initialLoad_subscriber JsonpFailed t) = []
   \<and> \<not> isLoading (initialLoad_subscriber JsonpFailed t)
   \<and> snd (handleGet P None) = Failure ''Falha ao buscar dados.'' (Some accessError)
   \<and> initialLoad_next (ErrorResponse e d) t = Inl notAFunction
   \<and> receipts (initialLoad_subscriber (JsonpResponse (ErrorResponse e d)) t) = receipts t
   \<and> (isConfigured (sheetsService s) \<longrightarrow>
        isLoading (initialLoad_subscriber (JsonpResponse (ErrorResponse e d))
                     (initialLoad localData s))
        \<and> receipts (initialLoad_subscriber (JsonpResponse (ErrorResponse e d))
                     (initialLoad localData s)) = receipts s)"
proof -
  have a: "isConfigured (sheetsService s) \<longrightarrow>
      isLoading (initialLoad localData s)
      \<and> receipts (initialLoad localData s) = receipts s
      \<and> issued (sheetsService (initialLoad localData s)) =
          issued (sheetsService s) @ [(the (scriptUrl (sheetsService s)), GetPayload)]"
    by (simp add: initialLoad_configured)
  have b: "\<forall>r \<in> set (receipts (initialLoad_subscriber (JsonpResponse (ReceiptArray data)) t)).
         status r \<noteq> processing \<and> isSynced r = Some True"
    by (auto simp: initialLoad_subscriber_array sanitize_cases)
  have c: "\<forall>n<length data.
         receipts (initialLoad_subscriber (JsonpResponse (ReceiptArray data)) t) ! n =
           (if status (data ! n) = processing
            then (data ! n)\<lparr>status := error, error_r := Some previousSessionError,
                            isSynced := Some True\<rparr>
            else (data ! n)\<lparr>isSynced := Some True\<rparr>)"
    by (simp add: initialLoad_subscriber_array sanitize_cases)
  have bk: "snd (handleGet P None) = Failure ''Falha ao buscar dados.'' (Some accessError)"
    by (simp add: handleGet_def)
  have thr: "initialLoad_next (ErrorResponse e d) t = Inl notAFunction"
    by (simp add: initialLoad_next_def)
  have f: "isConfigured (sheetsService s) \<longrightarrow>
        isLoading (initialLoad_subscriber (JsonpResponse (ErrorResponse e d))
                     (initialLoad localData s))
        \<and> receipts (initialLoad_subscriber (JsonpResponse (ErrorResponse e d))
                     (initialLoad localData s)) = receipts s"
    by (simp add: initialLoad_subscriber_error_answer initialLoad_configured)
  from a b c bk thr f show ?thesis
    by (simp add: initialLoad_subscriber_array initialLoad_subscriber_failed
        initialLoad_subscriber_error_answer)
qed

text \<open>
  The theorem at a configured service whose first load brings one \<open>processing\<close> and one
  \<open>completed\<close> record, and whose second load is answered with the error object of
  \<open>handleGet\<close>: the list of the first load stays and the service keeps loading.
\<close>

theorem initialLoad_error_answer_keeps_loading_witness:
  "isConfigured (sheetsService (new_service configured))
   \<and> map status (receipts (run [InitialLoad NoSnapshot,
         InitialLoaded (JsonpResponse
           (ReceiptArray [example_receipt processing, example_receipt completed]))]
         (new_service configured))) = [error, completed]
   \<and> map error_r (receipts (run [InitialLoad NoSnapshot,
         InitialLoaded (JsonpResponse
           (ReceiptArray [example_receipt processing, example_receipt completed]))]
         (new_service configured))) = [Some previousSessionError, None]
   \<and> map isSynced (receipts (run [InitialLoad NoSnapshot,
         InitialLoaded (JsonpResponse
           (ReceiptArray [example_receipt processing, example_receipt completed]))]
         (new_service configured))) = [Some True, Some True]
   \<and> \<not> isLoading (run [InitialLoad NoSnapshot,
         InitialLoaded (JsonpResponse
           (ReceiptArray [example_receipt processing, example_receipt completed]))]
         (new_service configured))
   \<and> isLoading (run [InitialLoad NoSnapshot,
         InitialLoaded (JsonpResponse
           (ReceiptArray [example_receipt processing, example_receipt completed])),
         InitialLoad NoSnapshot,
         InitialLoaded (JsonpResponse
           (ErrorResponse ''Falha ao buscar dados.'' (Some accessError)))]
         (new_service configured))
   \<and> map status (receipts (run [InitialLoad NoSnapshot,
         InitialLoaded (JsonpResponse
           (ReceiptArray [example_receipt processing, example_receipt completed])),
         InitialLoad NoSnapshot,
         InitialLoaded (JsonpResponse
           (ErrorResponse ''Falha ao buscar dados.'' (Some accessError)))]
         (new_service configured))) = [error, completed]
   \<and> isLoading (initialLoad_subscriber
         (JsonpResponse (ErrorResponse ''Falha ao buscar dados.'' (Some accessError)))
         (constructor configured NoSnapshot))"
proof -
  let ?s = "new_service configured"
  let ?data = "[example_receipt processing, example_receipt completed]"
  let ?err = "JsonpResponse (ErrorResponse ''Falha ao buscar dados.'' (Some accessError))"
  let ?t1 = "initialLoad NoSnapshot ?s"
  let ?t2 = "initialLoad_subscriber (JsonpResponse (ReceiptArray ?data)) ?t1"
  let ?t3 = "initialLoad NoSnapshot ?t2"
  let ?t4 = "initialLoad_subscriber ?err ?t3"
  have h: "isConfigured (sheetsService ?s)"
    by (simp add: new_service_def configured_def isConfigured_def truthy_str_def)
  have h2: "isConfigured (sheetsService ?t2)"
    by (simp add: initialLoad_subscriber_def initialLoad_next_def getReceipts_settle_def
        jsonp_settle_def catchError_of_def initialLoad_def Let_def subscribe_request_def
        jsonp_issue_def new_service_def configured_def isConfigured_def truthy_str_def)
  note T = initialLoad_error_answer_keeps_loading [where s = ?s and localData = NoSnapshot
      and data = ?data and t = ?t1]
  note U = initialLoad_error_answer_keeps_loading [where s = ?t2 and localData = NoSnapshot
      and e = "''Falha ao buscar dados.''" and d = "Some accessError"]
  note V = initialLoad_error_answer_keeps_loading [where s = ?s and localData = NoSnapshot
      and e = "''Falha ao buscar dados.''" and d = "Some accessError"]
  have len: "length (receipts ?t2) = 2"
    using T [THEN conjunct2, THEN conjunct1] by simp
  have r0: "receipts ?t2 ! 0 =
      (example_receipt processing)\<lparr>status := error, error_r := Some previousSessionError,
         isSynced := Some True\<rparr>"
    using T [THEN conjunct2, THEN conjunct2, THEN conjunct1, rule_format, of 0]
    by (simp add: example_receipt_def)
  have r1: "receipts ?t2 ! 1 = (example_receipt completed)\<lparr>isSynced := Some True\<rparr>"
    using T [THEN conjunct2, THEN conjunct2, THEN conjunct1, rule_format, of 1]
    by (simp add: example_receipt_def)
  have rs: "receipts ?t2 =
      [(example_receipt processing)\<lparr>status := error, error_r := Some previousSessionError,
         isSynced := Some True\<rparr>, (example_receipt completed)\<lparr>isSynced := Some True\<rparr>]"
    using len r0 r1 by (simp add: list_eq_iff_nth_eq less_Suc_eq numeral_2_eq_2)
  have nl: "\<not> isLoading ?t2"
    using T [THEN conjunct2, THEN conjunct2, THEN conjunct2, THEN conjunct2, THEN conjunct1] .
  have stuck: "isLoading ?t4 \<and> receipts ?t4 = receipts ?t2"
    using U [THEN conjunct2, THEN conjunct2, THEN conjunct2, THEN conjunct2, THEN conjunct2,
        THEN conjunct2, THEN conjunct2, THEN conjunct2, THEN conjunct2, THEN conjunct2,
        rule_format, OF h2] .
  have first: "isLoading (initialLoad_subscriber ?err (constructor configured NoSnapshot))"
    using V [THEN conjunct2, THEN conjunct2, THEN conjunct2, THEN conjunct2, THEN conjunct2,
        THEN conjunct2, THEN conjunct2, THEN conjunct2, THEN conjunct2, THEN conjunct2,
        rule_format, OF h] unfolding constructor_def by simp
  have run2: "run [InitialLoad NoSnapshot, InitialLoaded (JsonpResponse (ReceiptArray ?data))] ?s
      = ?t2"
    by simp
  have run4: "run [InitialLoad NoSnapshot, InitialLoaded (JsonpResponse (ReceiptArray ?data)),
      InitialLoad NoSnapshot, InitialLoaded ?err] ?s = ?t4"
    by simp
  show ?thesis
    unfolding run2 run4 using h rs nl stuck first by (simp add: example_receipt_def)
qed

section \<open>Claim C5: retrySync\<close>

lemma find_map_by_id:
  assumes "\<And>r. id_r (f r) = id_r r"
  shows "find (\<lambda>r. id_r r = i) (map_by_id i f rs) = map_option f (find (\<lambda>r. id_r r = i) rs)"
  by (induction rs) (simp_all add: map_by_id_def assms)

lemma retrySync_subscriber_receipts:
  "receipts (retrySync_subscriber i out s) =
     (if \<exists>j. out = JsonpResponse (Some (SaveResult True j))
      then map_by_id i (\<lambda>r. r\<lparr>isSynced := Some True, syncing := Some False\<rparr>) (receipts s)
      else map_by_id i (\<lambda>r. r\<lparr>syncing := Some False\<rparr>) (receipts s))"
proof (cases out)
  case JsonpFailed
  then show ?thesis
    by (simp add: retrySync_subscriber_def saveReceipt_settle_def jsonp_settle_def
        catchError_of_def succeeded_def)
next
  case (JsonpResponse response)
  show ?thesis
  proof (cases response)
    case None
    with JsonpResponse show ?thesis
      by (simp add: retrySync_subscriber_def saveReceipt_settle_def jsonp_settle_def
          catchError_of_def succeeded_def)
  next
    case (Some res)
    obtain b j where "res = SaveResult b j" by (cases res)
    with Some JsonpResponse show ?thesis
      by (simp add: retrySync_subscriber_def saveReceipt_settle_def jsonp_settle_def
          catchError_of_def succeeded_def)
  qed
qed

lemma retrySync_started:
  assumes "find (\<lambda>r. id_r r = i) (receipts s) = Some r" "status r = completed"
    "isSynced r \<noteq> Some True" "syncing r \<noteq> Some True" "isConfigured (sheetsService s)"
  shows "retrySync i s =
     subscribe_request (SavePayload r)
       (s\<lparr>receipts := map_by_id i (\<lambda>r. r\<lparr>syncing := Some True\<rparr>) (receipts s)\<rparr>)"
  using assms by (auto simp: retrySync_def truthy_bool_def split: option.splits)

text \<open>
  Claim C5, amended. \<open>retrySync(id)\<close> changes nothing when no record has the id, or when the
  first record with the id is not \<open>completed\<close>, is synced or is syncing, or when the bridge is
  not configured. Otherwise it sets \<open>syncing\<close> on the records of that id and issues one save
  of the record. When that save settles with a response whose \<open>success\<close> is true, the
  records of the id get \<open>isSynced = true\<close> and \<open>syncing = false\<close>; on every other
  settlement they get \<open>syncing = false\<close> and keep \<open>isSynced\<close>, so that the record qualifies
  for another \<open>retrySync\<close>.
\<close>

theorem retrySync_contract:
  "(find (\<lambda>r. id_r r = i) (receipts s) = None \<longrightarrow> retrySync i s = s)
   \<and> (find (\<lambda>r. id_r r = i) (receipts s) = Some r \<and>
        (status r \<noteq> completed \<or> isSynced r = Some True \<or> syncing r = Some True
         \<or> \<not> isConfigured (sheetsService s)) \<longrightarrow> retrySync i s = s)
   \<and> (find (\<lambda>r. id_r r = i) (receipts s) = Some r \<and> status r = completed \<and>
        isSynced r \<noteq> Some True \<and> syncing r \<noteq> Some True \<and> isConfigured (sheetsService s) \<longrightarrow>
          length (receipts (retrySync i s)) = length (receipts s)
        \<and> (\<forall>n<length (receipts s).
              receipts (retrySync i s) ! n =
                (if id_r (receipts s ! n) = i then (receipts s ! n)\<lparr>syncing := Some True\<rparr>
                 else receipts s ! n))
        \<and> issued (sheetsService (retrySync i s)) =
            issued (sheetsService s) @ [(the (scriptUrl (sheetsService s)), SavePayload r)]
        \<and> ((\<nexists>j. out = JsonpResponse (Some (SaveResult True j))) \<longrightarrow>
             find (\<lambda>r. id_r r = i) (receipts (retrySync_subscriber i out (retrySync i s))) =
               Some (r\<lparr>syncing := Some False\<rparr>)))
   \<and> length (receipts (retrySync_subscriber i out t)) = length (receipts t)
   \<and> (\<forall>n<length (receipts t).
         receipts (retrySync_subscriber i out t) ! n =
           (if id_r (receipts t ! n) \<noteq> i then receipts t ! n
            else if \<exists>j. out = JsonpResponse (Some (SaveResult True j))
                 then (receipts t ! n)\<lparr>isSynced := Some True, syncing := Some False\<rparr>
                 else (receipts t ! n)\<lparr>syncing := Some False\<rparr>))"
proof -
  have a: "find (\<lambda>r. id_r r = i) (receipts s) = None \<longrightarrow> retrySync i s = s"
    by (simp add: retrySync_def)
  have b: "find (\<lambda>r. id_r r = i) (receipts s) = Some r \<and>
        (status r \<noteq> completed \<or> isSynced r = Some True \<or> syncing r = Some True
         \<or> \<not> isConfigured (sheetsService s)) \<longrightarrow> retrySync i s = s"
    by (auto simp: retrySync_def truthy_bool_def)
  have c: "find (\<lambda>r. id_r r = i) (receipts s) = Some r \<and> status r = completed \<and>
        isSynced r \<noteq> Some True \<and> syncing r \<noteq> Some True \<and> isConfigured (sheetsService s) \<longrightarrow>
          length (receipts (retrySync i s)) = length (receipts s)
        \<and> (\<forall>n<length (receipts s).
              receipts (retrySync i s) ! n =
                (if id_r (receipts s ! n) = i then (receipts s ! n)\<lparr>syncing := Some True\<rparr>
                 else receipts s ! n))
        \<and> issued (sheetsService (retrySync i s)) =
            issued (sheetsService s) @ [(the (scriptUrl (sheetsService s)), SavePayload r)]
        \<and> ((\<nexists>j. out = JsonpResponse (Some (SaveResult True j))) \<longrightarrow>
             find (\<lambda>r. id_r r = i) (receipts (retrySync_subscriber i out (retrySync i s))) =
               Some (r\<lparr>syncing := Some False\<rparr>))"
  proof
    assume h: "find (\<lambda>r. id_r r = i) (receipts s) = Some r \<and> status r = completed \<and>
        isSynced r \<noteq> Some True \<and> syncing r \<noteq> Some True \<and> isConfigured (sheetsService s)"
    then have eq: "retrySync i s =
       subscribe_request (SavePayload r)
         (s\<lparr>receipts := map_by_id i (\<lambda>r. r\<lparr>syncing := Some True\<rparr>) (receipts s)\<rparr>)"
      by (simp add: retrySync_started)
    have rs: "receipts (retrySync i s) = map_by_id i (\<lambda>r. r\<lparr>syncing := Some True\<rparr>) (receipts s)"
      by (simp add: eq)
    have f1: "find (\<lambda>r. id_r r = i) (receipts (retrySync i s)) = Some (r\<lparr>syncing := Some True\<rparr>)"
      using h by (simp add: rs find_map_by_id)
    have f2: "(\<nexists>j. out = JsonpResponse (Some (SaveResult True j))) \<longrightarrow>
             find (\<lambda>r. id_r r = i) (receipts (retrySync_subscriber i out (retrySync i s))) =
               Some (r\<lparr>syncing := Some False\<rparr>)"
      using f1 by (simp add: retrySync_subscriber_receipts find_map_by_id)
    have iss: "issued (sheetsService (retrySync i s)) =
            issued (sheetsService s) @ [(the (scriptUrl (sheetsService s)), SavePayload r)]"
      using h by (simp add: eq issued_subscribe_request)
    show "length (receipts (retrySync i s)) = length (receipts s)
        \<and> (\<forall>n<length (receipts s).
              receipts (retrySync i s) ! n =
                (if id_r (receipts s ! n) = i then (receipts s ! n)\<lparr>syncing := Some True\<rparr>
                 else receipts s ! n))
        \<and> issued (sheetsService (retrySync i s)) =
            issued (sheetsService s) @ [(the (scriptUrl (sheetsService s)), SavePayload r)]
        \<and> ((\<nexists>j. out = JsonpResponse (Some (SaveResult True j))) \<longrightarrow>
             find (\<lambda>r. id_r r = i) (receipts (retrySync_subscriber i out (retrySync i s))) =
               Some (r\<lparr>syncing := Some False\<rparr>))"
      using f2 iss by (simp add: rs map_by_id_nth)
  qed
  have d: "length (receipts (retrySync_subscriber i out t)) = length (receipts t)"
    by (simp add: retrySync_subscriber_receipts)
  have e: "\<forall>n<length (receipts t).
         receipts (retrySync_subscriber i out t) ! n =
           (if id_r (receipts t ! n) \<noteq> i then receipts t ! n
            else if \<exists>j. out = JsonpResponse (Some (SaveResult True j))
                 then (receipts t ! n)\<lparr>isSynced := Some True, syncing := Some False\<rparr>
                 else (receipts t ! n)\<lparr>syncing := Some False\<rparr>)"
    by (simp add: retrySync_subscriber_receipts map_by_id_nth)
  from a b c d e show ?thesis by blast
qed

text \<open>The theorem at a configured service holding one completed, unsynced record.\<close>

theorem retrySync_contract_witness:
  "receipts (completed_state configured) = [example_receipt completed]
   \<and> isConfigured (sheetsService (completed_state configured))
   \<and> syncing (receipts (retrySync ''a'' (completed_state configured)) ! 0) = Some True
   \<and> length (issued (sheetsService (retrySync ''a'' (completed_state configured)))) = 4
   \<and> last (issued (sheetsService (retrySync ''a'' (completed_state configured)))) =
       (''https://script.google.com/macros/s/x/exec'', SavePayload (example_receipt completed))
   \<and> receipts (retrySync_subscriber ''a'' JsonpFailed (retrySync ''a'' (completed_state configured)))
       = [example_receipt completed\<lparr>syncing := Some False\<rparr>]
   \<and> receipts (retrySync_subscriber ''a'' (JsonpResponse (Some (SaveResult True ''a'')))
         (retrySync ''a'' (completed_state configured)))
       = [example_receipt completed\<lparr>syncing := Some True, isSynced := Some True,
            syncing := Some False\<rparr>]
   \<and> retrySync ''b'' (completed_state configured) = completed_state configured
   \<and> retrySync ''a'' (extracting_state configured) = extracting_state configured"
proof -
  let ?s = "completed_state configured"
  let ?r = "example_receipt completed"
  have rs: "receipts ?s = [?r]" and cfg: "isConfigured (sheetsService ?s)"
    by (simp_all add: completed_state_configured)
  have f: "find (\<lambda>r. id_r r = ''a'') (receipts ?s) = Some ?r"
    by (simp add: rs example_receipt_def)
  have el: "status ?r = completed \<and> isSynced ?r \<noteq> Some True \<and> syncing ?r \<noteq> Some True"
    by (simp add: example_receipt_def)
  note T = retrySync_contract [where s = ?s and i = "''a''" and r = ?r]
  from T [where out = JsonpFailed, THEN conjunct2, THEN conjunct2, THEN conjunct1] f el cfg
  have c: "length (receipts (retrySync ''a'' ?s)) = length (receipts ?s)
        \<and> (\<forall>n<length (receipts ?s).
              receipts (retrySync ''a'' ?s) ! n =
                (if id_r (receipts ?s ! n) = ''a'' then (receipts ?s ! n)\<lparr>syncing := Some True\<rparr>
                 else receipts ?s ! n))
        \<and> issued (sheetsService (retrySync ''a'' ?s)) =
            issued (sheetsService ?s) @ [(the (scriptUrl (sheetsService ?s)), SavePayload ?r)]"
    by blast
  have started: "receipts (retrySync ''a'' ?s) = [?r\<lparr>syncing := Some True\<rparr>]"
    using c by (intro singleton_nth) (simp_all add: rs example_receipt_def)
  have url: "the (scriptUrl (sheetsService ?s)) = ''https://script.google.com/macros/s/x/exec''"
    by (simp add: eval_defs)
  have iss: "length (issued (sheetsService (retrySync ''a'' ?s))) = 4
      \<and> last (issued (sheetsService (retrySync ''a'' ?s))) =
          (''https://script.google.com/macros/s/x/exec'', SavePayload ?r)"
    using c by (simp add: completed_state_configured url)
  note U = retrySync_contract [where t = "retrySync ''a'' ?s" and i = "''a''"]
  have failed: "receipts (retrySync_subscriber ''a'' JsonpFailed (retrySync ''a'' ?s))
       = [?r\<lparr>syncing := Some False\<rparr>]"
    using U [where out = JsonpFailed, THEN conjunct2, THEN conjunct2, THEN conjunct2]
    by (intro singleton_nth) (simp_all add: started example_receipt_def)
  have confirmed: "receipts (retrySync_subscriber ''a'' (JsonpResponse (Some (SaveResult True ''a'')))
         (retrySync ''a'' ?s))
       = [?r\<lparr>syncing := Some True, isSynced := Some True, syncing := Some False\<rparr>]"
    using U [where out = "JsonpResponse (Some (SaveResult True ''a''))",
        THEN conjunct2, THEN conjunct2, THEN conjunct2]
    by (intro singleton_nth) (simp_all add: started example_receipt_def)
  have "find (\<lambda>r. id_r r = ''b'') (receipts ?s) = None"
    by (simp add: rs example_receipt_def)
  with retrySync_contract [where s = ?s and i = "''b''", THEN conjunct1]
  have absent: "retrySync ''b'' ?s = ?s" by blast
  let ?q = "extracting_state configured"
  have q: "find (\<lambda>r. id_r r = ''a'') (receipts ?q) = Some (hd (receipts ?q))
      \<and> status (hd (receipts ?q)) \<noteq> completed"
    by (simp add: eval_defs)
  with retrySync_contract [where s = ?q and i = "''a''" and r = "hd (receipts ?q)",
      THEN conjunct2, THEN conjunct1]
  have queued: "retrySync ''a'' ?q = ?q" by blast
  from rs cfg started iss failed confirmed absent queued show ?thesis by simp
qed

text \<open>
  Claim C5 as stated: a completed, unsynced, idle record is what stands between \<open>retrySync\<close>
  and a no-op. With an unconfigured bridge such a record is there and \<open>retrySync\<close> still
  changes nothing: \<open>syncing\<close> is not set and no save is issued.
\<close>

theorem retrySync_unconfigured_counterexample:
  "receipts (completed_state unconfigured) = [example_receipt completed]
   \<and> id_r (example_receipt completed) = ''a''
   \<and> status (example_receipt completed) = completed
   \<and> isSynced (example_receipt completed) = Some False
   \<and> syncing (example_receipt completed) = None
   \<and> retrySync ''a'' (completed_state unconfigured) = completed_state unconfigured
   \<and> syncing (receipts (retrySync ''a'' (completed_state unconfigured)) ! 0) \<noteq> Some True
   \<and> issued (sheetsService (retrySync ''a'' (completed_state unconfigured))) = []"
proof -
  have c: "\<not> isConfigured unconfigured" "issued unconfigured = []"
    by (simp_all add: isConfigured_def unconfigured_def truthy_str_def)
  show ?thesis
    by (simp add: completed_state_unconfigured retrySync_def example_receipt_def truthy_bool_def c)
qed

section \<open>Claim C6: the bridge falls back and never raises\<close>

lemma isConfigured_jsonp_issue [simp]: "isConfigured (jsonp_issue svc p) = isConfigured svc"
  by (simp add: isConfigured_def jsonp_issue_def)

lemma jsonpRequest_configured:
  "isConfigured svc \<Longrightarrow>
   jsonpRequest svc p out =
     (case out of
        JsonpResponse v \<Rightarrow>
          (svc\<lparr>issued := issued svc @ [(the (scriptUrl svc), p)], connectionError := None\<rparr>, Inr v)
      | JsonpFailed \<Rightarrow>
          (svc\<lparr>issued := issued svc @ [(the (scriptUrl svc), p)],
               connectionError := Some userFriendlyError\<rparr>, Inl userFriendlyError))"
  by (auto simp: jsonpRequest_def jsonp_settle_def jsonp_issue_def isConfigured_def truthy_str_def
      split: jsonp_outcome.splits option.splits)

lemma saveReceipt_two_phases:
  "isConfigured svc \<Longrightarrow>
   saveReceipt svc r out = saveReceipt_settle (jsonp_issue svc (SavePayload r)) out"
  by (simp add: saveReceipt_def saveReceipt_settle_def jsonpRequest_def)

lemma getReceipts_two_phases:
  "isConfigured svc \<Longrightarrow>
   getReceipts svc out = getReceipts_settle (jsonp_issue svc GetPayload) out"
  by (simp add: getReceipts_def getReceipts_settle_def jsonpRequest_def)

text \<open>
  Claim C6. Each of \<open>getReceipts\<close>, \<open>saveReceipt\<close>, \<open>deleteReceipt\<close> and \<open>migrateOldData\<close>
  notifies its subscriber of a value and never of an error, however the request settles.
  With an unconfigured endpoint the service is left as it was (no request is issued) and the
  value is the fallback: the empty list for \<open>getReceipts\<close>, null for the other three. With a
  configured endpoint one request is issued; when it fails the value is the same fallback
  and the connection-error flag is set; when it is answered the value is the response and
  the flag is cleared.
\<close>

theorem bridge_total_fallback:
  "(\<exists>v. snd (getReceipts svc outG) = Inr v)
   \<and> (\<exists>v. snd (saveReceipt svc r outS) = Inr v)
   \<and> (\<exists>v. snd (deleteReceipt_bridge svc i outS) = Inr v)
   \<and> (\<exists>v. snd (migrateOldData svc outM) = Inr v)
   \<and> (\<not> isConfigured svc \<longrightarrow>
         getReceipts svc outG = (svc, Inr (ReceiptArray []))
       \<and> saveReceipt svc r outS = (svc, Inr None)
       \<and> deleteReceipt_bridge svc i outS = (svc, Inr None)
       \<and> migrateOldData svc outM = (svc, Inr None))
   \<and> (isConfigured svc \<longrightarrow>
         getReceipts svc JsonpFailed =
           (svc\<lparr>issued := issued svc @ [(the (scriptUrl svc), GetPayload)],
                connectionError := Some userFriendlyError\<rparr>, Inr (ReceiptArray []))
       \<and> saveReceipt svc r JsonpFailed =
           (svc\<lparr>issued := issued svc @ [(the (scriptUrl svc), SavePayload r)],
                connectionError := Some userFriendlyError\<rparr>, Inr None)
       \<and> deleteReceipt_bridge svc i JsonpFailed =
           (svc\<lparr>issued := issued svc @ [(the (scriptUrl svc), DeletePayload i)],
                connectionError := Some userFriendlyError\<rparr>, Inr None)
       \<and> migrateOldData svc JsonpFailed =
           (svc\<lparr>issued := issued svc @ [(the (scriptUrl svc), MigratePayload)],
                connectionError := Some userFriendlyError\<rparr>, Inr None))
   \<and> (isConfigured svc \<longrightarrow>
         getReceipts svc (JsonpResponse data) =
           (svc\<lparr>issued := issued svc @ [(the (scriptUrl svc), GetPayload)],
                connectionError := None\<rparr>, Inr data)
       \<and> saveReceipt svc r (JsonpResponse res) =
           (svc\<lparr>issued := issued svc @ [(the (scriptUrl svc), SavePayload r)],
                connectionError := None\<rparr>, Inr res)
       \<and> deleteReceipt_bridge svc i (JsonpResponse res) =
           (svc\<lparr>issued := issued svc @ [(the (scriptUrl svc), DeletePayload i)],
                connectionError := None\<rparr>, Inr res)
       \<and> migrateOldData svc (JsonpResponse mres) =
           (svc\<lparr>issued := issued svc @ [(the (scriptUrl svc), MigratePayload)],
                connectionError := None\<rparr>, Inr mres))"
proof -
  have never:
    "\<exists>v. snd (getReceipts svc outG) = Inr v"
    "\<exists>v. snd (saveReceipt svc r outS) = Inr v"
    "\<exists>v. snd (deleteReceipt_bridge svc i outS) = Inr v"
    "\<exists>v. snd (migrateOldData svc outM) = Inr v"
    by (simp_all add: getReceipts_def saveReceipt_def deleteReceipt_bridge_def migrateOldData_def
        catchError_of_def split: prod.splits sum.splits)
  have off: "\<not> isConfigured svc \<longrightarrow>
         getReceipts svc outG = (svc, Inr (ReceiptArray []))
       \<and> saveReceipt svc r outS = (svc, Inr None)
       \<and> deleteReceipt_bridge svc i outS = (svc, Inr None)
       \<and> migrateOldData svc outM = (svc, Inr None)"
    by (simp add: getReceipts_def saveReceipt_def deleteReceipt_bridge_def migrateOldData_def)
  have failed: "isConfigured svc \<longrightarrow>
         getReceipts svc JsonpFailed =
           (svc\<lparr>issued := issued svc @ [(the (scriptUrl svc), GetPayload)],
                connectionError := Some userFriendlyError\<rparr>, Inr (ReceiptArray []))
       \<and> saveReceipt svc r JsonpFailed =
           (svc\<lparr>issued := issued svc @ [(the (scriptUrl svc), SavePayload r)],
                connectionError := Some userFriendlyError\<rparr>, Inr None)
       \<and> deleteReceipt_bridge svc i JsonpFailed =
           (svc\<lparr>issued := issued svc @ [(the (scriptUrl svc), DeletePayload i)],
                connectionError := Some userFriendlyError\<rparr>, Inr None)
       \<and> migrateOldData svc JsonpFailed =
           (svc\<lparr>issued := issued svc @ [(the (scriptUrl svc), MigratePayload)],
                connectionError := Some userFriendlyError\<rparr>, Inr None)"
    by (simp add: getReceipts_def saveReceipt_def deleteReceipt_bridge_def migrateOldData_def
        jsonpRequest_configured catchError_of_def)
  have answered: "isConfigured svc \<longrightarrow>
         getReceipts svc (JsonpResponse data) =
           (svc\<lparr>issued := issued svc @ [(the (scriptUrl svc), GetPayload)],
                connectionError := None\<rparr>, Inr data)
       \<and> saveReceipt svc r (JsonpResponse res) =
           (svc\<lparr>issued := issued svc @ [(the (scriptUrl svc), SavePayload r)],
                connectionError := None\<rparr>, Inr res)
       \<and> deleteReceipt_bridge svc i (JsonpResponse res) =
           (svc\<lparr>issued := issued svc @ [(the (scriptUrl svc), DeletePayload i)],
                connectionError := None\<rparr>, Inr res)
       \<and> migrateOldData svc (JsonpResponse mres) =
           (svc\<lparr>issued := issued svc @ [(the (scriptUrl svc), MigratePayload)],
                connectionError := None\<rparr>, Inr mres)"
    by (simp add: getReceipts_def saveReceipt_def deleteReceipt_bridge_def migrateOldData_def
        jsonpRequest_configured catchError_of_def)
  from never off failed answered show ?thesis by blast
qed

text \<open>The theorem at an unconfigured and at a configured service.\<close>

theorem bridge_total_fallback_witness:
  "\<not> isConfigured unconfigured
   \<and> getReceipts unconfigured JsonpFailed = (unconfigured, Inr (ReceiptArray []))
   \<and> saveReceipt unconfigured (example_receipt completed) JsonpFailed = (unconfigured, Inr None)
   \<and> deleteReceipt_bridge unconfigured ''a'' JsonpFailed = (unconfigured, Inr None)
   \<and> migrateOldData unconfigured JsonpFailed = (unconfigured, Inr None)
   \<and> isConfigured configured
   \<and> snd (getReceipts configured JsonpFailed) = Inr (ReceiptArray [])
   \<and> snd (saveReceipt configured (example_receipt completed) JsonpFailed) = Inr None
   \<and> snd (deleteReceipt_bridge configured ''a'' JsonpFailed) = Inr None
   \<and> snd (migrateOldData configured JsonpFailed) = Inr None
   \<and> connectionError (fst (saveReceipt configured (example_receipt completed) JsonpFailed))
       = Some userFriendlyError
   \<and> issued (fst (saveReceipt configured (example_receipt completed) JsonpFailed))
       = [(''https://script.google.com/macros/s/x/exec'', SavePayload (example_receipt completed))]
   \<and> snd (saveReceipt configured (example_receipt completed)
         (JsonpResponse (Some (SaveResult True ''a'')))) = Inr (Some (SaveResult True ''a''))"
proof -
  have off: "\<not> isConfigured unconfigured"
    by (simp add: isConfigured_def unconfigured_def truthy_str_def)
  have on: "isConfigured configured"
    by (simp add: isConfigured_def configured_def truthy_str_def)
  note A = bridge_total_fallback [where svc = unconfigured and r = "example_receipt completed"
      and i = "''a''" and outG = JsonpFailed and outS = JsonpFailed and outM = JsonpFailed,
      THEN conjunct2, THEN conjunct2, THEN conjunct2, THEN conjunct2, THEN conjunct1,
      rule_format, OF off]
  note B = bridge_total_fallback [where svc = configured and r = "example_receipt completed"
      and i = "''a''", THEN conjunct2, THEN conjunct2, THEN conjunct2, THEN conjunct2,
      THEN conjunct2, THEN conjunct1, rule_format, OF on]
  note C = bridge_total_fallback [where svc = configured and r = "example_receipt completed"
      and res = "Some (SaveResult True ''a'')", THEN conjunct2, THEN conjunct2, THEN conjunct2,
      THEN conjunct2, THEN conjunct2, THEN conjunct2, rule_format, OF on]
  have u: "issued configured = []"
    "the (scriptUrl configured) = ''https://script.google.com/macros/s/x/exec''"
    by (simp_all add: configured_def)
  show ?thesis using off on A B C by (simp add: u)
qed

section \<open>The sheets\<close>

lemma length_le_getLastColumn: "r \<in> set sh \<Longrightarrow> length r \<le> getLastColumn sh"
  unfolding getLastColumn_def by (induction sh) auto

lemma getLastColumn_append [simp]:
  "getLastColumn (sh @ sh') = max (getLastColumn sh) (getLastColumn sh')"
  unfolding getLastColumn_def by (induction sh) auto

lemma getLastColumn_Cons [simp]:
  "getLastColumn (r # sh) = max (length r) (getLastColumn sh)"
  by (simp add: getLastColumn_def)

lemma getLastColumn_Nil [simp]: "getLastColumn [] = 0"
  by (simp add: getLastColumn_def)

lemma getLastColumn_update_full:
  assumes "n < length sh" "length r = getLastColumn sh"
  shows "getLastColumn (sh[n := r]) = getLastColumn sh"
proof -
  have "sh[n := r] = take n sh @ r # drop (Suc n) sh"
    using assms(1) by (simp add: upd_conv_take_nth_drop)
  moreover have "getLastColumn (take n sh) \<le> getLastColumn sh"
    by (metis append_take_drop_id getLastColumn_append max.cobounded1)
  moreover have "getLastColumn (drop (Suc n) sh) \<le> getLastColumn sh"
    by (metis append_take_drop_id getLastColumn_append max.cobounded2)
  ultimately show ?thesis using assms(2) by simp
qed

lemma map_cell_at_id: "length r \<le> n \<Longrightarrow> map (cell_at r) [0..<n] = r @ replicate (n - length r) (Str [])"
  by (auto simp: list_eq_iff_nth_eq cell_at_def nth_append)

lemma map_cell_at_exact: "length r = n \<Longrightarrow> map (cell_at r) [0..<n] = r"
  by (simp add: map_cell_at_id)

lemma header_values_take:
  "n \<le> length (hd sh) \<Longrightarrow> header_values sh n = take n (hd sh)"
  by (auto simp: header_values_def list_eq_iff_nth_eq cell_at_def)

lemma take_header_values:
  "m \<le> n \<Longrightarrow> take m (header_values sh n) = header_values sh m"
  by (simp add: header_values_def take_map)

lemma Str_nonempty_headers:
  "\<forall>h \<in> set receiptHeaders. h \<noteq> Str []" "\<forall>h \<in> set itemHeaders. h \<noteq> Str []"
  by (simp_all add: receiptHeaders_def itemHeaders_def)

lemma header_values_match_length:
  assumes "header_values sh (length hs) = hs" "\<forall>h \<in> set hs. h \<noteq> Str []"
  shows "length hs \<le> length (hd sh)"
proof (rule ccontr)
  assume "\<not> length hs \<le> length (hd sh)"
  then have lt: "length (hd sh) < length hs" by simp
  then have "header_values sh (length hs) ! length (hd sh) = Str []"
    by (simp add: header_values_def cell_at_def)
  with assms(1) have "hs ! length (hd sh) = Str []" by simp
  with assms(2) lt show False by (metis nth_mem)
qed

lemma getSheet_has_headers:
  assumes "\<forall>h \<in> set hs. h \<noteq> Str []"
  shows "has_headers hs (getSheet x hs)"
proof (cases x)
  case None
  then show ?thesis by (simp add: getSheet_def appendRow_def has_headers_def)
next
  case (Some sh)
  show ?thesis
  proof (cases "sh = []")
    case True
    with Some show ?thesis
      by (simp add: getSheet_def appendRow_def has_headers_def getLastRow_def)
  next
    case False
    show ?thesis
    proof (cases "header_values sh (length hs) = hs")
      case True
      then have "list_all2 (\<lambda>header current. header = current) hs (header_values sh (length hs))"
        by (simp add: list_all2_eq [symmetric])
      with Some False have eq: "getSheet x hs = sh"
        by (simp add: getSheet_def getLastRow_def Let_def)
      from header_values_match_length [OF True assms]
      have len: "length hs \<le> length (hd sh)" .
      with True have "take (length hs) (hd sh) = hs"
        by (simp add: header_values_take)
      with False len show ?thesis by (simp add: eq has_headers_def)
    next
      case mismatch: False
      then have "\<not> list_all2 (\<lambda>header current. header = current) hs (header_values sh (length hs))"
        by (simp add: list_all2_eq [symmetric])
      with Some False have eq: "getSheet x hs = setRowValues sh 1 hs"
        by (simp add: getSheet_def getLastRow_def Let_def)
      from False obtain r rs where sh: "sh = r # rs" by (cases sh) auto
      show ?thesis
        by (simp add: eq sh setRowValues_def has_headers_def)
    qed
  qed
qed

lemma getSheet_idem:
  assumes "has_headers hs sh"
  shows "getSheet (Some sh) hs = sh"
proof -
  from assms have ne: "sh \<noteq> []" and tk: "take (length hs) (hd sh) = hs"
    and len: "length hs \<le> length (hd sh)"
    by (simp_all add: has_headers_def)
  have "header_values sh (length hs) = hs"
    using tk len by (simp add: header_values_take)
  then have "list_all2 (\<lambda>header current. header = current) hs (header_values sh (length hs))"
    by (simp add: list_all2_eq [symmetric])
  with ne show ?thesis
    by (simp add: getSheet_def getLastRow_def Let_def)
qed

lemma has_headers_lastColumn:
  assumes "has_headers hs sh"
  shows "length hs \<le> getLastColumn sh"
proof -
  from assms have "hd sh \<in> set sh" "length hs \<le> length (hd sh)"
    by (simp_all add: has_headers_def)
  then show ?thesis using length_le_getLastColumn [of "hd sh" sh] by simp
qed

lemma has_headers_header_values:
  assumes "has_headers hs sh"
  shows "take (length hs) (header_values sh (getLastColumn sh)) = hs"
proof -
  have "take (length hs) (header_values sh (getLastColumn sh)) = header_values sh (length hs)"
    using has_headers_lastColumn [OF assms] by (simp add: take_header_values)
  also have "\<dots> = hs"
    using assms by (simp add: has_headers_def header_values_take)
  finally show ?thesis .
qed

lemma findRow_loop_range:
  "findRow_loop P vs i k = - 1 \<or> (int k + 2 \<le> findRow_loop P vs i k \<and> findRow_loop P vs i k < int k + 2 + int (length vs))"
proof (induction vs arbitrary: k)
  case Nil
  then show ?case by simp
next
  case (Cons v vs)
  from Cons.IH [of "Suc k"] show ?case by auto
qed

lemma findRow_loop_none:
  "findRow_loop P vs i k = - 1 \<longleftrightarrow> (\<forall>v \<in> set vs. \<not> loose_eq P v i)"
proof (induction vs arbitrary: k)
  case Nil
  then show ?case by simp
next
  case (Cons v vs)
  then show ?case by auto
qed

lemma findRow_loop_first:
  assumes "findRow_loop P vs i k = int k + 2 + int n"
  shows "n < length vs \<and> loose_eq P (vs ! n) i \<and> (\<forall>j<n. \<not> loose_eq P (vs ! j) i)"
  using assms
proof (induction vs arbitrary: k n)
  case Nil
  then show ?case by simp
next
  case (Cons v vs)
  show ?case
  proof (cases "loose_eq P v i")
    case True
    with Cons.prems have "n = 0" by simp
    with True show ?thesis by simp
  next
    case False
    with Cons.prems have eq: "findRow_loop P vs i (Suc k) = int k + 2 + int n" by simp
    from findRow_loop_range [of P vs i "Suc k"] eq have "n \<noteq> 0" by auto
    then obtain m where n: "n = Suc m" by (cases n) auto
    with eq have "findRow_loop P vs i (Suc k) = int (Suc k) + 2 + int m" by simp
    from Cons.IH [OF this] False n show ?thesis
      by (auto simp: less_Suc_eq_0_disj)
  qed
qed

text \<open>What findRowById returns, in terms of the data rows.\<close>

lemma findRowById_cases:
  "(findRowById P sh i c = - 1 \<and> (\<forall>r \<in> set (tl sh). \<not> loose_eq P (cell_at r (c - 1)) i))
   \<or> (\<exists>n. findRowById P sh i c = int n + 2 \<and> n + 1 < length sh
          \<and> loose_eq P (cell_at (sh ! (n + 1)) (c - 1)) i
          \<and> (\<forall>j<n. \<not> loose_eq P (cell_at (sh ! (j + 1)) (c - 1)) i))"
proof (cases "getLastRow sh < 2")
  case True
  then have "tl sh = []" by (cases sh) (auto simp: getLastRow_def)
  with True show ?thesis by (simp add: findRowById_def)
next
  case False
  let ?vs = "column_values sh c"
  have eq: "findRowById P sh i c = findRow_loop P ?vs i 0"
    using False by (simp add: findRowById_def)
  have len: "length ?vs = length sh - 1" by (simp add: column_values_def)
  have nth: "\<And>n. n < length ?vs \<Longrightarrow> ?vs ! n = cell_at (sh ! (n + 1)) (c - 1)"
    by (simp add: column_values_def nth_tl)
  show ?thesis
  proof (cases "findRow_loop P ?vs i 0 = - 1")
    case True
    then have "\<forall>v \<in> set ?vs. \<not> loose_eq P v i" by (simp add: findRow_loop_none)
    then have "\<forall>r \<in> set (tl sh). \<not> loose_eq P (cell_at r (c - 1)) i"
      by (simp add: column_values_def)
    with True eq show ?thesis by simp
  next
    case False
    with findRow_loop_range [of P ?vs i 0]
    have "2 \<le> findRow_loop P ?vs i 0" by auto
    then obtain n where n: "findRow_loop P ?vs i 0 = int 0 + 2 + int n"
      by (metis add.commute add.left_neutral int_ops(1) zle_iff_zadd)
    from findRow_loop_first [OF n]
    have "n < length ?vs" "loose_eq P (?vs ! n) i" "\<forall>j<n. \<not> loose_eq P (?vs ! j) i"
      by auto
    then have "n + 1 < length sh" "loose_eq P (cell_at (sh ! (n + 1)) (c - 1)) i"
      "\<forall>j<n. \<not> loose_eq P (cell_at (sh ! (j + 1)) (c - 1)) i"
      using len nth by auto
    with n eq show ?thesis by auto
  qed
qed

lemma deleteItems_loop_filter:
  "i \<le> length rows \<Longrightarrow>
   deleteItems_loop P (map f rows) rid i (h # take i rows @ rest) =
     h # filter (\<lambda>r. \<not> loose_eq P (f r) rid) (take i rows) @ rest"
proof (induction i arbitrary: rest)
  case 0
  then show ?case by simp
next
  case (Suc i)
  then have i: "i < length rows" by simp
  have tk: "take (Suc i) rows = take i rows @ [rows ! i]"
    using i by (simp add: take_Suc_conv_app_nth)
  have del: "deleteRow (h # take (Suc i) rows @ rest) (Suc (Suc i)) = h # take i rows @ rest"
    using i by (simp add: deleteRow_def tk)
  show ?case
  proof (cases "loose_eq P (f (rows ! i)) rid")
    case True
    with i have "deleteItems_loop P (map f rows) rid (Suc i) (h # take (Suc i) rows @ rest) =
        deleteItems_loop P (map f rows) rid i (h # take i rows @ rest)"
      by (simp add: del)
    also have "\<dots> = h # filter (\<lambda>r. \<not> loose_eq P (f r) rid) (take i rows) @ rest"
      using Suc.IH [of rest] i by simp
    finally show ?thesis using True by (simp add: tk)
  next
    case False
    with i have "deleteItems_loop P (map f rows) rid (Suc i) (h # take (Suc i) rows @ rest) =
        deleteItems_loop P (map f rows) rid i (h # take i rows @ (rows ! i # rest))"
      by (simp add: tk)
    also have "\<dots> = h # filter (\<lambda>r. \<not> loose_eq P (f r) rid) (take i rows) @ (rows ! i # rest)"
      using Suc.IH [of "rows ! i # rest"] i by simp
    finally show ?thesis using False by (simp add: tk)
  qed
qed

lemma indexOf_from_range:
  "indexOf_from x xs k = - 1 \<or> (int k \<le> indexOf_from x xs k \<and> indexOf_from x xs k < int k + int (length xs))"
proof (induction xs arbitrary: k)
  case Nil
  then show ?case by simp
next
  case (Cons y ys)
  from Cons.IH [of "Suc k"] show ?case by auto
qed

lemma indexOf_from_none: "indexOf_from x xs k = - 1 \<longleftrightarrow> x \<notin> set xs"
proof (induction xs arbitrary: k)
  case Nil
  then show ?case by simp
next
  case (Cons y ys)
  then show ?case by auto
qed

lemma indexOf_from_prefix:
  "n < length xs \<Longrightarrow> xs ! n = x \<Longrightarrow> x \<notin> set (take n xs) \<Longrightarrow> indexOf_from x xs k = int k + int n"
proof (induction xs arbitrary: k n)
  case Nil
  then show ?case by simp
next
  case (Cons y ys)
  show ?case
  proof (cases n)
    case 0
    with Cons.prems show ?thesis by simp
  next
    case (Suc m)
    with Cons.prems have "m < length ys" "ys ! m = x" "x \<notin> set (take m ys)" "y \<noteq> x"
      by auto
    with Cons.IH [of m "Suc k"] Suc show ?thesis by simp
  qed
qed

lemma indexOf_prefix:
  "n < length xs \<Longrightarrow> xs ! n = x \<Longrightarrow> x \<notin> set (take n xs) \<Longrightarrow> indexOf x xs = int n"
  using indexOf_from_prefix [of n xs x 0] by (simp add: indexOf_def)

text \<open>What deleteItemsByReceiptId does to a sheet with the item headers.\<close>

lemma deleteItemsByReceiptId_filter:
  assumes "has_headers itemHeaders sh"
  shows "deleteItemsByReceiptId P sh rid =
           hd sh # filter (\<lambda>r. \<not> loose_eq P (cell_at r 1) rid) (tl sh)"
proof -
  from assms obtain h rows where sh: "sh = h # rows" by (cases sh) (auto simp: has_headers_def)
  show ?thesis
  proof (cases rows)
    case Nil
    with sh show ?thesis by (simp add: deleteItemsByReceiptId_def getLastRow_def)
  next
    case (Cons r rs)
    let ?H = "header_values sh (getLastColumn sh)"
    have tk: "take (length itemHeaders) ?H = itemHeaders"
      by (rule has_headers_header_values [OF assms])
    have len: "length itemHeaders \<le> length ?H"
      using has_headers_lastColumn [OF assms] by (simp add: header_values_def)
    have H1: "?H ! 1 = Str ''receipt_id''"
    proof -
      have "?H ! 1 = take (length itemHeaders) ?H ! 1"
        by (simp add: itemHeaders_def)
      then show ?thesis by (simp add: tk) (simp add: itemHeaders_def)
    qed
    have H0: "take 1 ?H = [Str ''item_id'']"
    proof -
      have "take 1 ?H = take 1 (take (length itemHeaders) ?H)"
        by (simp add: itemHeaders_def)
      then show ?thesis by (simp add: tk) (simp add: itemHeaders_def)
    qed
    have "1 < length ?H" using len by (simp add: itemHeaders_def)
    then have idx: "indexOf (Str ''receipt_id'') ?H = 1"
      using indexOf_prefix [of 1 ?H "Str ''receipt_id''"] H1 H0 by simp
    have cv: "column_values sh 2 = map (\<lambda>r. cell_at r 1) rows"
      by (simp add: column_values_def sh)
    have two: "\<not> getLastRow sh < 2"
      using Cons sh by (simp add: getLastRow_def)
    have "deleteItemsByReceiptId P sh rid =
        deleteItems_loop P (column_values sh 2) rid (length (column_values sh 2)) sh"
      using two idx by (simp add: deleteItemsByReceiptId_def Let_def numeral_2_eq_2)
    also have "\<dots> =
        deleteItems_loop P (map (\<lambda>r. cell_at r 1) rows) rid (length rows) (h # take (length rows) rows @ [])"
      by (simp add: cv) (simp add: sh)
    also have "\<dots> = h # filter (\<lambda>r. \<not> loose_eq P (cell_at r 1) rid) (take (length rows) rows) @ []"
      by (rule deleteItems_loop_filter) simp
    finally show ?thesis by (simp add: sh)
  qed
qed

lemma take_enumerate: "take n (enumerate k xs) = enumerate k (take n xs)"
  by (induction xs arbitrary: n k) (auto simp: take_Cons split: nat.splits)

lemma item_row_cells:
  assumes "take (length itemHeaders) H = itemHeaders"
  shows "take (length itemHeaders) (item_row P rid H k item) =
     [Str (getUuid P k 0), Str rid, Str (ReceiptItem.name item), Num (ReceiptItem.quantity item),
      Str (ReceiptItem.unit item), Num (ReceiptItem.unitPrice item),
      Num (ReceiptItem.totalPrice item), Str (ReceiptItem.category item), Str (now P)]"
proof -
  have "take (length itemHeaders) (item_row P rid H k item) =
      item_row P rid (take (length itemHeaders) H) k item"
    by (simp add: item_row_def take_map take_enumerate)
  also have "\<dots> = item_row P rid itemHeaders k item" by (simp add: assms)
  also have "\<dots> = [Str (getUuid P k 0), Str rid, Str (ReceiptItem.name item),
      Num (ReceiptItem.quantity item), Str (ReceiptItem.unit item),
      Num (ReceiptItem.unitPrice item), Num (ReceiptItem.totalPrice item),
      Str (ReceiptItem.category item), Str (now P)]"
    by (simp add: item_row_def itemHeaders_def item_property_def)
  finally show ?thesis .
qed

lemma item_row_references:
  assumes "take (length itemHeaders) H = itemHeaders"
  shows "references P rid (item_row P rid H k item)"
proof -
  let ?r = "item_row P rid H k item"
  have nine: "length itemHeaders = 9" by (simp add: itemHeaders_def)
  have "take 9 ?r ! 1 = Str rid"
    using item_row_cells [OF assms, of P rid k item] by (simp add: nine)
  moreover have "length (take 9 ?r) = 9"
    using item_row_cells [OF assms, of P rid k item] by (simp add: nine)
  ultimately have "1 < length ?r" "?r ! 1 = Str rid" by auto
  then show ?thesis by (simp add: references_def cell_at_def loose_eq_def)
qed

lemma has_headers_filter:
  "has_headers hs sh \<Longrightarrow> has_headers hs (hd sh # filter Q (tl sh))"
  by (simp add: has_headers_def)

lemma processAndSaveItems_result:
  assumes "has_headers itemHeaders sh"
  shows "\<exists>H. take (length itemHeaders) H = itemHeaders \<and>
     processAndSaveItems P sh rid its =
       (hd sh # filter (\<lambda>r. \<not> references P rid r) (tl sh)
          @ map (\<lambda>(k, item). item_row P rid H k item) (enumerate 0 its), Inr ())"
proof -
  let ?sh' = "hd sh # filter (\<lambda>r. \<not> references P rid r) (tl sh)"
  let ?H = "header_values ?sh' (getLastColumn ?sh')"
  have del: "deleteItemsByReceiptId P sh rid = ?sh'"
    using deleteItemsByReceiptId_filter [OF assms] by (simp add: references_def)
  have hh: "has_headers itemHeaders ?sh'"
    by (rule has_headers_filter [OF assms])
  have H: "take (length itemHeaders) ?H = itemHeaders"
    by (rule has_headers_header_values [OF hh])
  have "length itemHeaders \<le> getLastColumn ?sh'"
    by (rule has_headers_lastColumn [OF hh])
  moreover have "length itemHeaders = 9" by (simp add: itemHeaders_def)
  ultimately have pos: "getLastColumn ?sh' \<noteq> 0" by linarith
  have "processAndSaveItems P sh rid its =
       (?sh' @ map (\<lambda>(k, item). item_row P rid ?H k item) (enumerate 0 its), Inr ())"
  proof (cases its)
    case Nil
    then show ?thesis by (simp add: processAndSaveItems_def del)
  next
    case (Cons a as)
    then show ?thesis using pos by (simp add: processAndSaveItems_def del Let_def)
  qed
  with H show ?thesis by (intro exI [of _ ?H]) simp
qed

lemma length_saved_row [simp]: "length (saved_row P sh data) = getLastColumn sh"
  by (simp add: saved_row_def header_values_def)

lemma receipt_id_column:
  assumes "has_headers receiptHeaders sh"
  shows "getLastColumn sh \<noteq> 0"
    and "indexOf (Str ''id'') (header_values sh (getLastColumn sh)) = 0"
proof -
  let ?H = "header_values sh (getLastColumn sh)"
  have tk: "take (length receiptHeaders) ?H = receiptHeaders"
    by (rule has_headers_header_values [OF assms])
  have len: "length receiptHeaders \<le> getLastColumn sh"
    by (rule has_headers_lastColumn [OF assms])
  moreover have twelve: "length receiptHeaders = 12" by (simp add: receiptHeaders_def)
  ultimately show "getLastColumn sh \<noteq> 0" by linarith
  have "?H ! 0 = take (length receiptHeaders) ?H ! 0"
    by (simp add: receiptHeaders_def)
  then have "?H ! 0 = Str ''id''" by (simp add: tk) (simp add: receiptHeaders_def)
  moreover have "0 < length ?H" using len twelve by (simp add: header_values_def)
  ultimately show "indexOf (Str ''id'') ?H = 0"
    using indexOf_prefix [of 0 ?H "Str ''id''"] by simp
qed

lemma handleSaveOrUpdate_result:
  assumes "has_headers receiptHeaders rs" "has_headers itemHeaders ish"
  shows "handleSaveOrUpdate P rs ish data =
     ((if findRowById P rs (id_r data) 1 > 0
       then rs[nat (findRowById P rs (id_r data) 1) - 1 := saved_row P rs data]
       else rs @ [saved_row P rs data]),
      (case items data of None \<Rightarrow> ish
       | Some its \<Rightarrow> fst (processAndSaveItems P ish (id_r data) its)),
      Inr (Success (id_r data) savedMessage))"
proof -
  note col = receipt_id_column [OF assms(1)]
  let ?k = "findRowById P rs (id_r data) 1"
  have upd: "?k > 0 \<Longrightarrow>
      setRowValues rs (nat ?k) (saved_row P rs data) = rs[nat ?k - 1 := saved_row P rs data]"
  proof -
    assume pos: "?k > 0"
    with findRowById_cases [of P rs "id_r data" 1]
    obtain n where n: "?k = int n + 2" "n + 1 < length rs" by auto
    then have "rs ! (nat ?k - 1) \<in> set rs" by simp
    then have "length (rs ! (nat ?k - 1)) \<le> getLastColumn rs"
      by (rule length_le_getLastColumn)
    then show ?thesis by (simp add: setRowValues_def)
  qed
  show ?thesis
  proof (cases "items data")
    case None
    then show ?thesis
      using col upd
      by (auto simp: handleSaveOrUpdate_def Let_def saved_row_def [symmetric] appendRow_def)
  next
    case (Some its)
    from processAndSaveItems_result [OF assms(2), of P "id_r data" its]
    obtain sh' where "processAndSaveItems P ish (id_r data) its = (sh', Inr ())" by blast
    with Some show ?thesis
      using col upd
      by (auto simp: handleSaveOrUpdate_def Let_def saved_row_def [symmetric] appendRow_def)
  qed
qed

lemma map_of_graph:
  "map_of (rev (map (\<lambda>h. (h, g h)) hs)) k = (if k \<in> set hs then Some (g k) else None)"
proof -
  have "rev (map (\<lambda>h. (h, g h)) hs) = map (\<lambda>h. (h, g h)) (rev hs)"
    by (simp add: rev_map)
  then show ?thesis by (simp add: map_of_map_restrict restrict_map_def)
qed

lemma handleGet_listing:
  assumes "has_headers receiptHeaders r1" "Recibos ss = Some r1" "2 \<le> length r1"
  shows "handleGet P (Some ss) =
     (Some ss,
      Listing (map (\<lambda>r. map (\<lambda>(header, v). (header, listed_value P header v))
                            (zip (header_values r1 (getLastColumn r1)) r))
                 (data_values r1)))"
proof -
  have "getSheet (Recibos ss) receiptHeaders = r1"
    using assms(1,2) by (simp add: getSheet_idem)
  moreover have "ss\<lparr>Recibos := Some r1\<rparr> = ss"
    using assms(2) by simp
  ultimately show ?thesis
    using assms(3) by (simp add: handleGet_def Let_def getLastRow_def)
qed

lemma listed_saved_row:
  "map (\<lambda>(header, v). (header, listed_value P' header v))
       (zip (header_values sh (getLastColumn sh)) (saved_row P sh data)) =
   map (\<lambda>header. (header, listed_value P' header
          (if header = Str ''timestamp'' then Str (now P) else stored_property P data header)))
       (header_values sh (getLastColumn sh))"
  by (simp add: saved_row_def zip_map2 zip_same_conv_map)

lemma saved_row_cells:
  assumes "has_headers receiptHeaders sh"
  shows "take (length receiptHeaders) (saved_row P sh data) =
     [Str (id_r data), stored_string (url data), Str (status_name (status data)),
      stored_string (storeName data), stored_string (storeCnpj data),
      stored_string (storeAddress data), stored_string (date data),
      (case totalAmount data of None \<Rightarrow> Str [] | Some n \<Rightarrow> Num n),
      (case items data of None \<Rightarrow> Str [] | Some its \<Rightarrow> Str (JSON_stringify P its)),
      stored_string (error_r data), stored_string (payer data), Str (now P)]"
proof -
  let ?f = "\<lambda>header. if header = Str ''timestamp'' then Str (now P)
                     else stored_property P data header"
  have "take (length receiptHeaders) (saved_row P sh data) =
      map ?f (take (length receiptHeaders) (header_values sh (getLastColumn sh)))"
    by (simp add: saved_row_def take_map)
  also have "\<dots> = map ?f receiptHeaders"
    by (simp add: has_headers_header_values [OF assms])
  also have "\<dots> = [Str (id_r data), stored_string (url data), Str (status_name (status data)),
      stored_string (storeName data), stored_string (storeCnpj data),
      stored_string (storeAddress data), stored_string (date data),
      (case totalAmount data of None \<Rightarrow> Str [] | Some n \<Rightarrow> Num n),
      (case items data of None \<Rightarrow> Str [] | Some its \<Rightarrow> Str (JSON_stringify P its)),
      stored_string (error_r data), stored_string (payer data), Str (now P)]"
    by (simp add: receiptHeaders_def stored_property_def)
  finally show ?thesis .
qed

text \<open>The receipts sheet after a save: its header, its width, and the saved row in it.\<close>

lemma saved_sheet:
  fixes P :: platform and data :: ReceiptData
  assumes hh: "has_headers receiptHeaders rs"
  defines "r1 \<equiv> (if findRowById P rs (id_r data) 1 > 0
       then rs[nat (findRowById P rs (id_r data) 1) - 1 := saved_row P rs data]
       else rs @ [saved_row P rs data])"
  shows "has_headers receiptHeaders r1" "hd r1 = hd rs" "getLastColumn r1 = getLastColumn rs"
    "saved_row P rs data \<in> set (tl r1)" "2 \<le> length r1"
proof -
  let ?k = "findRowById P rs (id_r data) 1"
  let ?row = "saved_row P rs data"
  from hh have ne: "rs \<noteq> []" by (simp add: has_headers_def)
  then obtain h rows where rs: "rs = h # rows" by (cases rs) auto
  have all: "hd r1 = hd rs \<and> getLastColumn r1 = getLastColumn rs \<and> ?row \<in> set (tl r1)
      \<and> 2 \<le> length r1"
  proof (cases "?k > 0")
    case True
    with findRowById_cases [of P rs "id_r data" 1]
    obtain n where n: "?k = int n + 2" "n + 1 < length rs" by auto
    have "nat ?k - 1 = n + 1" using n(1) by linarith
    then have r1: "r1 = rs[n + 1 := ?row]" using True unfolding r1_def by presburger
    have "getLastColumn (rs[n + 1 := ?row]) = getLastColumn rs"
      using n(2) by (intro getLastColumn_update_full) simp_all
    moreover have "hd (rs[n + 1 := ?row]) = hd rs" by (simp add: rs)
    moreover have "tl (rs[n + 1 := ?row]) = rows[n := ?row]" by (simp add: rs)
    moreover have "n < length rows" using n(2) by (simp add: rs)
    ultimately show ?thesis using r1 n(2) by (simp add: set_update_memI)
  next
    case False
    then have r1: "r1 = rs @ [?row]" by (simp add: r1_def)
    show ?thesis by (simp add: r1 rs)
  qed
  then show "hd r1 = hd rs" "getLastColumn r1 = getLastColumn rs" "?row \<in> set (tl r1)"
    "2 \<le> length r1"
    by simp_all
  with hh show "has_headers receiptHeaders r1"
    by (auto simp: has_headers_def)
qed

lemma roundtrip:
  assumes its: "items data = Some its"
    and json: "JSON_parse P' (JSON_stringify P its) = Some its"
    and bracket: "startsWith (JSON_stringify P its) CHR ''[''"
  shows "case handleSaveOrUpdate P (fst (doGet_sheets ss)) (snd (doGet_sheets ss)) data of
     (r1, i1, out) \<Rightarrow>
       out = Inr (Success (id_r data) savedMessage) \<and>
       (\<exists>objs. snd (handleGet P' (Some \<lparr>Recibos = Some r1, Itens = Some i1\<rparr>)) = Listing objs \<and>
          (\<exists>obj \<in> set objs.
             getProperty obj ''id'' = Some (Cell (Str (id_r data))) \<and>
             getProperty obj ''items'' = Some (Items its)))"
proof -
  define rs where "rs = fst (doGet_sheets ss)"
  define ish where "ish = snd (doGet_sheets ss)"
  have hr: "has_headers receiptHeaders rs" and hi: "has_headers itemHeaders ish"
    by (simp_all add: rs_def ish_def doGet_sheets_def getSheet_has_headers Str_nonempty_headers)
  define r1 where "r1 = (if findRowById P rs (id_r data) 1 > 0
       then rs[nat (findRowById P rs (id_r data) 1) - 1 := saved_row P rs data]
       else rs @ [saved_row P rs data])"
  define i1 where "i1 = fst (processAndSaveItems P ish (id_r data) its)"
  define row where "row = saved_row P rs data"
  define H where "H = header_values rs (getLastColumn rs)"
  have save: "handleSaveOrUpdate P rs ish data = (r1, i1, Inr (Success (id_r data) savedMessage))"
    using handleSaveOrUpdate_result [OF hr hi, of P data] its by (simp add: r1_def i1_def)
  note s1 = saved_sheet [OF hr, of P data, folded r1_def row_def]
  have H1: "header_values r1 (getLastColumn r1) = H"
    using s1(2,3) by (simp add: header_values_def H_def)
  define objs where
    "objs = map (\<lambda>r. map (\<lambda>(header, v). (header, listed_value P' header v)) (zip H r))
                 (data_values r1)"
  have get: "handleGet P' (Some \<lparr>Recibos = Some r1, Itens = Some i1\<rparr>) =
      (Some \<lparr>Recibos = Some r1, Itens = Some i1\<rparr>, Listing objs)"
    using handleGet_listing [OF s1(1) _ s1(5), of "\<lparr>Recibos = Some r1, Itens = Some i1\<rparr>" P']
    by (simp add: H1 objs_def)
  have len: "length row = getLastColumn r1"
    by (simp add: row_def s1(3))
  have "map (cell_at row) [0..<getLastColumn r1] \<in> set (data_values r1)"
    using s1(4) unfolding data_values_def set_map by (rule imageI)
  then have row: "row \<in> set (data_values r1)"
    by (simp add: map_cell_at_exact [OF len])
  define g where "g = (\<lambda>header. listed_value P' header
          (if header = Str ''timestamp'' then Str (now P) else stored_property P data header))"
  define obj where "obj = map (\<lambda>header. (header, g header)) H"
  have "obj = map (\<lambda>(header, v). (header, listed_value P' header v)) (zip H row)"
    using listed_saved_row [of P' rs P data] by (simp add: obj_def g_def H_def row_def)
  with row have obj: "obj \<in> set objs"
    unfolding objs_def by (metis (no_types, lifting) image_eqI set_map)
  have tk: "take (length receiptHeaders) H = receiptHeaders"
    unfolding H_def by (rule has_headers_header_values [OF hr])
  have "set receiptHeaders \<subseteq> set H"
    by (metis tk set_take_subset)
  then have keys: "Str ''id'' \<in> set H" "Str ''items'' \<in> set H"
    by (auto simp: receiptHeaders_def)
  have pid: "getProperty obj ''id'' = Some (Cell (Str (id_r data)))"
    using keys(1)
    by (simp add: obj_def g_def getProperty_def map_of_graph listed_value_def stored_property_def)
  have pit: "getProperty obj ''items'' = Some (Items its)"
    using keys(2) its json bracket
    by (simp add: obj_def g_def getProperty_def map_of_graph listed_value_def stored_property_def)
  from obj pid pit
  have "\<exists>obj \<in> set objs.
             getProperty obj ''id'' = Some (Cell (Str (id_r data))) \<and>
             getProperty obj ''items'' = Some (Items its)"
    by blast
  then show ?thesis
    unfolding rs_def [symmetric] ish_def [symmetric] by (simp add: save get)
qed

section \<open>Evaluating the example spreadsheet\<close>

lemma example_sheets:
  "doGet_sheets empty_spreadsheet = ([receiptHeaders], [itemHeaders])"
  by (simp add: doGet_sheets_def empty_spreadsheet_def getSheet_def appendRow_def)

lemma widths: "getLastColumn [receiptHeaders] = 12" "getLastColumn [itemHeaders] = 9"
  by (simp_all add: receiptHeaders_def itemHeaders_def)

lemma header_values_single [simp]: "header_values [hs] (length hs) = hs"
  by (simp add: header_values_take)

lemma example_saved_row:
  "saved_row example_platform [receiptHeaders] example_saved =
     [Str ''a'', Str ''http://x/1'', Str ''completed'', Str ''Loja A'', Str [], Str [], Str [],
      Num 10.5, Str ''[{...},{...}]'', Str [], Str [], Str ''2024-01-01T00:00:00.000Z'']"
  by (simp add: saved_row_def)
     (simp add: receiptHeaders_def stored_property_def example_saved_def example_receipt_def
        example_platform_def example_items_def stored_string_def status_name_def)

lemma saved_once_eq:
  "saved_once =
     ([receiptHeaders, saved_row example_platform [receiptHeaders] example_saved],
      [itemHeaders,
       [Str ''uuid'', Str ''a'', Str ''Produto Teste 1'', Num 1, Str ''UN'', Num 100.5, Num 100.5,
        Str ''Testes'', Str ''2024-01-01T00:00:00.000Z''],
       [Str ''uuid'', Str ''a'', Str ''Produto Teste 2'', Num 2, Str ''UN'', Num 25.125, Num 50.25,
        Str ''Testes'', Str ''2024-01-01T00:00:00.000Z'']],
      Inr (Success ''a'' savedMessage))"
proof -
  have hr: "has_headers receiptHeaders [receiptHeaders]"
    and hi: "has_headers itemHeaders [itemHeaders]"
    by (simp_all add: has_headers_def)
  have find: "findRowById example_platform [receiptHeaders] ''a'' (Suc 0) = - 1"
    by (simp add: findRowById_def getLastRow_def)
  have del: "deleteItemsByReceiptId example_platform [itemHeaders] ''a'' = [itemHeaders]"
    by (simp add: deleteItemsByReceiptId_def getLastRow_def)
  have its: "items example_saved = Some example_items" "id_r example_saved = ''a''"
    by (simp_all add: example_saved_def example_receipt_def)
  have rows: "fst (processAndSaveItems example_platform [itemHeaders] ''a'' example_items) =
      [itemHeaders,
       [Str ''uuid'', Str ''a'', Str ''Produto Teste 1'', Num 1, Str ''UN'', Num 100.5, Num 100.5,
        Str ''Testes'', Str ''2024-01-01T00:00:00.000Z''],
       [Str ''uuid'', Str ''a'', Str ''Produto Teste 2'', Num 2, Str ''UN'', Num 25.125, Num 50.25,
        Str ''Testes'', Str ''2024-01-01T00:00:00.000Z'']]"
    by (simp add: processAndSaveItems_def del Let_def example_items_def item_row_def)
       (simp add: example_items_def item_row_def itemHeaders_def item_property_def
          example_platform_def)
  show ?thesis
    unfolding saved_once_def example_sheets fst_conv snd_conv
    by (simp add: handleSaveOrUpdate_result [OF hr hi] find its rows)
qed

section \<open>Claim C7: save and list round trip, upsert\<close>

lemma upsert_row:
  assumes hh: "has_headers receiptHeaders rs"
  shows "if \<exists>r \<in> set (tl rs). loose_eq P (cell_at r 0) i
     then \<exists>n. n + 1 < length rs \<and> loose_eq P (cell_at (rs ! (n + 1)) 0) i \<and>
            (\<forall>j<n. \<not> loose_eq P (cell_at (rs ! (j + 1)) 0) i) \<and>
            0 < findRowById P rs i 1 \<and> nat (findRowById P rs i 1) - 1 = n + 1
     else findRowById P rs i 1 = - 1"
proof -
  from hh obtain h rows where rs: "rs = h # rows" by (cases rs) (auto simp: has_headers_def)
  from findRowById_cases [of P rs i 1]
  consider (none) "findRowById P rs i 1 = - 1" "\<forall>r \<in> set (tl rs). \<not> loose_eq P (cell_at r 0) i"
    | (some) n where "findRowById P rs i 1 = int n + 2" "n + 1 < length rs"
        "loose_eq P (cell_at (rs ! (n + 1)) 0) i"
        "\<forall>j<n. \<not> loose_eq P (cell_at (rs ! (j + 1)) 0) i"
    by auto
  then show ?thesis
  proof cases
    case none
    then show ?thesis by simp
  next
    case some
    from some(2) have "rs ! (n + 1) \<in> set (tl rs)" by (simp add: rs)
    with some(3) have ex: "\<exists>r \<in> set (tl rs). loose_eq P (cell_at r 0) i" by blast
    have "0 < findRowById P rs i 1 \<and> nat (findRowById P rs i 1) - 1 = n + 1"
      using some(1) by simp
    with ex some show ?thesis by auto
  qed
qed

lemma items_replaced:
  fixes P :: platform and rid :: string and its :: "ReceiptItem list"
  assumes hi: "has_headers itemHeaders ish"
  defines "i1 \<equiv> fst (processAndSaveItems P ish rid its)"
  shows "hd i1 = hd ish"
    and "filter (\<lambda>r. \<not> references P rid r) (tl i1) = filter (\<lambda>r. \<not> references P rid r) (tl ish)"
    and "tl i1 = filter (\<lambda>r. \<not> references P rid r) (tl ish) @ filter (references P rid) (tl i1)"
    and "map (take 9) (filter (references P rid) (tl i1)) =
           map (\<lambda>(k, item).
                  [Str (getUuid P k 0), Str rid, Str (ReceiptItem.name item),
                   Num (ReceiptItem.quantity item), Str (ReceiptItem.unit item),
                   Num (ReceiptItem.unitPrice item), Num (ReceiptItem.totalPrice item),
                   Str (ReceiptItem.category item), Str (now P)])
             (enumerate 0 its)"
proof -
  from processAndSaveItems_result [OF hi, of P rid its]
  obtain H where H: "take (length itemHeaders) H = itemHeaders"
    and res: "processAndSaveItems P ish rid its =
       (hd ish # filter (\<lambda>r. \<not> references P rid r) (tl ish)
          @ map (\<lambda>(k, item). item_row P rid H k item) (enumerate 0 its), Inr ())"
    by blast
  define new where "new = map (\<lambda>(k, item). item_row P rid H k item) (enumerate 0 its)"
  have i1: "i1 = hd ish # filter (\<lambda>r. \<not> references P rid r) (tl ish) @ new"
    by (simp add: i1_def res new_def)
  have refs: "\<forall>r \<in> set new. references P rid r"
    by (auto simp: new_def item_row_references [OF H])
  then have f1: "filter (references P rid) new = new" and f2: "filter (\<lambda>r. \<not> references P rid r) new = []"
    by (simp_all add: filter_empty_conv)
  show "hd i1 = hd ish" by (simp add: i1)
  show "filter (\<lambda>r. \<not> references P rid r) (tl i1) = filter (\<lambda>r. \<not> references P rid r) (tl ish)"
    by (simp add: i1 f2)
  have f3: "filter (references P rid) (tl i1) = new"
    by (simp add: i1 f1 filter_empty_conv)
  show "tl i1 = filter (\<lambda>r. \<not> references P rid r) (tl ish) @ filter (references P rid) (tl i1)"
    by (simp add: f3) (simp add: i1)
  have nine: "length itemHeaders = 9" by (simp add: itemHeaders_def)
  show "map (take 9) (filter (references P rid) (tl i1)) =
           map (\<lambda>(k, item).
                  [Str (getUuid P k 0), Str rid, Str (ReceiptItem.name item),
                   Num (ReceiptItem.quantity item), Str (ReceiptItem.unit item),
                   Num (ReceiptItem.unitPrice item), Num (ReceiptItem.totalPrice item),
                   Str (ReceiptItem.category item), Str (now P)])
             (enumerate 0 its)"
    using item_row_cells [OF H, of P rid]
    by (simp add: f3 new_def nine split_def)
qed

text \<open>
  Claim C7. Round trip: when \<open>JSON.parse\<close> gives back the items that \<open>JSON.stringify\<close>
  serialised (a text that starts with a bracket), saving a receipt with items through the
  sheets \<open>doGet\<close> prepares and then listing returns a receipt with that id whose \<open>items\<close>
  are the saved items, in their order. Upsert: on sheets with their headers the save
  succeeds; when a data row of the receipts sheet has the id, the first such row is
  replaced by the receipt's row and no other row changes, otherwise the receipt's row is
  appended; the row carries the receipt's properties under the twelve headers. Items: a
  receipt without items leaves the items sheet as it is; otherwise the rows that reference
  other receipts stay, in their order, and the rows that reference this receipt are
  exactly one new row per saved item, in the items' order, after them.
\<close>

theorem save_list_roundtrip_upsert:
  "(items data = Some its \<and> JSON_parse P' (JSON_stringify P its) = Some its \<and>
      startsWith (JSON_stringify P its) CHR ''['' \<longrightarrow>
      (case handleSaveOrUpdate P (fst (doGet_sheets ss)) (snd (doGet_sheets ss)) data of
         (r1, i1, out) \<Rightarrow>
           out = Inr (Success (id_r data) savedMessage) \<and>
           (\<exists>objs. snd (handleGet P' (Some \<lparr>Recibos = Some r1, Itens = Some i1\<rparr>)) =
                      Listing objs \<and>
              (\<exists>obj \<in> set objs.
                 getProperty obj ''id'' = Some (Cell (Str (id_r data))) \<and>
                 getProperty obj ''items'' = Some (Items its)))))
   \<and> (has_headers receiptHeaders rs \<and> has_headers itemHeaders ish \<longrightarrow>
        (case handleSaveOrUpdate P rs ish data of
           (r1, i1, out) \<Rightarrow>
             out = Inr (Success (id_r data) savedMessage)
             \<and> (if \<exists>r \<in> set (tl rs). loose_eq P (cell_at r 0) (id_r data)
                then \<exists>n. n + 1 < length rs \<and>
                       loose_eq P (cell_at (rs ! (n + 1)) 0) (id_r data) \<and>
                       (\<forall>j<n. \<not> loose_eq P (cell_at (rs ! (j + 1)) 0) (id_r data)) \<and>
                       r1 = rs[n + 1 := saved_row P rs data]
                else r1 = rs @ [saved_row P rs data])
             \<and> take 12 (saved_row P rs data) =
                 [Str (id_r data), stored_string (url data), Str (status_name (status data)),
                  stored_string (storeName data), stored_string (storeCnpj data),
                  stored_string (storeAddress data), stored_string (date data),
                  (case totalAmount data of None \<Rightarrow> Str [] | Some n \<Rightarrow> Num n),
                  (case items data of None \<Rightarrow> Str []
                   | Some its \<Rightarrow> Str (JSON_stringify P its)),
                  stored_string (error_r data), stored_string (payer data), Str (now P)]
             \<and> (items data = None \<longrightarrow> i1 = ish)
             \<and> (items data \<noteq> None \<longrightarrow>
                  hd i1 = hd ish
                  \<and> filter (\<lambda>r. \<not> references P (id_r data) r) (tl i1) =
                      filter (\<lambda>r. \<not> references P (id_r data) r) (tl ish)
                  \<and> tl i1 = filter (\<lambda>r. \<not> references P (id_r data) r) (tl ish)
                             @ filter (references P (id_r data)) (tl i1)
                  \<and> map (take 9) (filter (references P (id_r data)) (tl i1)) =
                      map (\<lambda>(k, item).
                             [Str (getUuid P k 0), Str (id_r data), Str (ReceiptItem.name item),
                              Num (ReceiptItem.quantity item), Str (ReceiptItem.unit item),
                              Num (ReceiptItem.unitPrice item),
                              Num (ReceiptItem.totalPrice item),
                              Str (ReceiptItem.category item), Str (now P)])
                        (enumerate 0 (the (items data))))))"
proof -
  have a: "items data = Some its \<and> JSON_parse P' (JSON_stringify P its) = Some its \<and>
      startsWith (JSON_stringify P its) CHR ''['' \<longrightarrow>
      (case handleSaveOrUpdate P (fst (doGet_sheets ss)) (snd (doGet_sheets ss)) data of
         (r1, i1, out) \<Rightarrow>
           out = Inr (Success (id_r data) savedMessage) \<and>
           (\<exists>objs. snd (handleGet P' (Some \<lparr>Recibos = Some r1, Itens = Some i1\<rparr>)) =
                      Listing objs \<and>
              (\<exists>obj \<in> set objs.
                 getProperty obj ''id'' = Some (Cell (Str (id_r data))) \<and>
                 getProperty obj ''items'' = Some (Items its))))"
  proof (intro impI, elim conjE)
    assume 1: "items data = Some its"
      and 2: "JSON_parse P' (JSON_stringify P its) = Some its"
      and 3: "startsWith (JSON_stringify P its) CHR ''[''"
    from roundtrip [OF 1 2 3, of ss]
    show "case handleSaveOrUpdate P (fst (doGet_sheets ss)) (snd (doGet_sheets ss)) data of
         (r1, i1, out) \<Rightarrow>
           out = Inr (Success (id_r data) savedMessage) \<and>
           (\<exists>objs. snd (handleGet P' (Some \<lparr>Recibos = Some r1, Itens = Some i1\<rparr>)) =
                      Listing objs \<and>
              (\<exists>obj \<in> set objs.
                 getProperty obj ''id'' = Some (Cell (Str (id_r data))) \<and>
                 getProperty obj ''items'' = Some (Items its)))" .
  qed
  have b: "has_headers receiptHeaders rs \<and> has_headers itemHeaders ish \<longrightarrow>
        (case handleSaveOrUpdate P rs ish data of
           (r1, i1, out) \<Rightarrow>
             out = Inr (Success (id_r data) savedMessage)
             \<and> (if \<exists>r \<in> set (tl rs). loose_eq P (cell_at r 0) (id_r data)
                then \<exists>n. n + 1 < length rs \<and>
                       loose_eq P (cell_at (rs ! (n + 1)) 0) (id_r data) \<and>
                       (\<forall>j<n. \<not> loose_eq P (cell_at (rs ! (j + 1)) 0) (id_r data)) \<and>
                       r1 = rs[n + 1 := saved_row P rs data]
                else r1 = rs @ [saved_row P rs data])
             \<and> take 12 (saved_row P rs data) =
                 [Str (id_r data), stored_string (url data), Str (status_name (status data)),
                  stored_string (storeName data), stored_string (storeCnpj data),
                  stored_string (storeAddress data), stored_string (date data),
                  (case totalAmount data of None \<Rightarrow> Str [] | Some n \<Rightarrow> Num n),
                  (case items data of None \<Rightarrow> Str []
                   | Some its \<Rightarrow> Str (JSON_stringify P its)),
                  stored_string (error_r data), stored_string (payer data), Str (now P)]
             \<and> (items data = None \<longrightarrow> i1 = ish)
             \<and> (items data \<noteq> None \<longrightarrow>
                  hd i1 = hd ish
                  \<and> filter (\<lambda>r. \<not> references P (id_r data) r) (tl i1) =
                      filter (\<lambda>r. \<not> references P (id_r data) r) (tl ish)
                  \<and> tl i1 = filter (\<lambda>r. \<not> references P (id_r data) r) (tl ish)
                             @ filter (references P (id_r data)) (tl i1)
                  \<and> map (take 9) (filter (references P (id_r data)) (tl i1)) =
                      map (\<lambda>(k, item).
                             [Str (getUuid P k 0), Str (id_r data), Str (ReceiptItem.name item),
                              Num (ReceiptItem.quantity item), Str (ReceiptItem.unit item),
                              Num (ReceiptItem.unitPrice item),
                              Num (ReceiptItem.totalPrice item),
                              Str (ReceiptItem.category item), Str (now P)])
                        (enumerate 0 (the (items data)))))"
  proof
    assume h: "has_headers receiptHeaders rs \<and> has_headers itemHeaders ish"
    then have hr: "has_headers receiptHeaders rs" and hi: "has_headers itemHeaders ish"
      by simp_all
    define r1 where "r1 = (if findRowById P rs (id_r data) 1 > 0
       then rs[nat (findRowById P rs (id_r data) 1) - 1 := saved_row P rs data]
       else rs @ [saved_row P rs data])"
    define i1 where "i1 = (case items data of None \<Rightarrow> ish
       | Some its \<Rightarrow> fst (processAndSaveItems P ish (id_r data) its))"
    have save: "handleSaveOrUpdate P rs ish data =
        (r1, i1, Inr (Success (id_r data) savedMessage))"
      using handleSaveOrUpdate_result [OF hr hi, of P data] by (simp add: r1_def i1_def)
    have up: "if \<exists>r \<in> set (tl rs). loose_eq P (cell_at r 0) (id_r data)
                then \<exists>n. n + 1 < length rs \<and>
                       loose_eq P (cell_at (rs ! (n + 1)) 0) (id_r data) \<and>
                       (\<forall>j<n. \<not> loose_eq P (cell_at (rs ! (j + 1)) 0) (id_r data)) \<and>
                       r1 = rs[n + 1 := saved_row P rs data]
                else r1 = rs @ [saved_row P rs data]"
    proof (cases "\<exists>r \<in> set (tl rs). loose_eq P (cell_at r 0) (id_r data)")
      case True
      with upsert_row [OF hr, of P "id_r data"]
      obtain n where n: "n + 1 < length rs" "loose_eq P (cell_at (rs ! (n + 1)) 0) (id_r data)"
        "\<forall>j<n. \<not> loose_eq P (cell_at (rs ! (j + 1)) 0) (id_r data)"
        "0 < findRowById P rs (id_r data) 1" "nat (findRowById P rs (id_r data) 1) - 1 = n + 1"
        by auto
      from n(4,5) have "r1 = rs[n + 1 := saved_row P rs data]"
        unfolding r1_def by presburger
      with n(1,2,3) True show ?thesis by auto
    next
      case False
      with upsert_row [OF hr, of P "id_r data"]
      have "findRowById P rs (id_r data) 1 = - 1" by auto
      then have "r1 = rs @ [saved_row P rs data]" by (simp add: r1_def)
      with False show ?thesis by auto
    qed
    have cells: "take 12 (saved_row P rs data) =
                 [Str (id_r data), stored_string (url data), Str (status_name (status data)),
                  stored_string (storeName data), stored_string (storeCnpj data),
                  stored_string (storeAddress data), stored_string (date data),
                  (case totalAmount data of None \<Rightarrow> Str [] | Some n \<Rightarrow> Num n),
                  (case items data of None \<Rightarrow> Str []
                   | Some its \<Rightarrow> Str (JSON_stringify P its)),
                  stored_string (error_r data), stored_string (payer data), Str (now P)]"
    proof -
      have twelve: "length receiptHeaders = 12" by (simp add: receiptHeaders_def)
      show ?thesis using saved_row_cells [OF hr, of P data] unfolding twelve .
    qed
    have none: "items data = None \<longrightarrow> i1 = ish"
      by (simp add: i1_def)
    have some: "items data \<noteq> None \<longrightarrow>
                  hd i1 = hd ish
                  \<and> filter (\<lambda>r. \<not> references P (id_r data) r) (tl i1) =
                      filter (\<lambda>r. \<not> references P (id_r data) r) (tl ish)
                  \<and> tl i1 = filter (\<lambda>r. \<not> references P (id_r data) r) (tl ish)
                             @ filter (references P (id_r data)) (tl i1)
                  \<and> map (take 9) (filter (references P (id_r data)) (tl i1)) =
                      map (\<lambda>(k, item).
                             [Str (getUuid P k 0), Str (id_r data), Str (ReceiptItem.name item),
                              Num (ReceiptItem.quantity item), Str (ReceiptItem.unit item),
                              Num (ReceiptItem.unitPrice item),
                              Num (ReceiptItem.totalPrice item),
                              Str (ReceiptItem.category item), Str (now P)])
                        (enumerate 0 (the (items data)))"
    proof
      assume "items data \<noteq> None"
      then obtain its' where its': "items data = Some its'" by auto
      then have i1: "i1 = fst (processAndSaveItems P ish (id_r data) its')"
        by (simp add: i1_def)
      from items_replaced [OF hi, of P "id_r data" its', folded i1] its'
      show "hd i1 = hd ish
                  \<and> filter (\<lambda>r. \<not> references P (id_r data) r) (tl i1) =
                      filter (\<lambda>r. \<not> references P (id_r data) r) (tl ish)
                  \<and> tl i1 = filter (\<lambda>r. \<not> references P (id_r data) r) (tl ish)
                             @ filter (references P (id_r data)) (tl i1)
                  \<and> map (take 9) (filter (references P (id_r data)) (tl i1)) =
                      map (\<lambda>(k, item).
                             [Str (getUuid P k 0), Str (id_r data), Str (ReceiptItem.name item),
                              Num (ReceiptItem.quantity item), Str (ReceiptItem.unit item),
                              Num (ReceiptItem.unitPrice item),
                              Num (ReceiptItem.totalPrice item),
                              Str (ReceiptItem.category item), Str (now P)])
                        (enumerate 0 (the (items data)))"
        by simp
    qed
    from up cells none some
    show "case handleSaveOrUpdate P rs ish data of
           (r1, i1, out) \<Rightarrow>
             out = Inr (Success (id_r data) savedMessage)
             \<and> (if \<exists>r \<in> set (tl rs). loose_eq P (cell_at r 0) (id_r data)
                then \<exists>n. n + 1 < length rs \<and>
                       loose_eq P (cell_at (rs ! (n + 1)) 0) (id_r data) \<and>
                       (\<forall>j<n. \<not> loose_eq P (cell_at (rs ! (j + 1)) 0) (id_r data)) \<and>
                       r1 = rs[n + 1 := saved_row P rs data]
                else r1 = rs @ [saved_row P rs data])
             \<and> take 12 (saved_row P rs data) =
                 [Str (id_r data), stored_string (url data), Str (status_name (status data)),
                  stored_string (storeName data), stored_string (storeCnpj data),
                  stored_string (storeAddress data), stored_string (date data),
                  (case totalAmount data of None \<Rightarrow> Str [] | Some n \<Rightarrow> Num n),
                  (case items data of None \<Rightarrow> Str []
                   | Some its \<Rightarrow> Str (JSON_stringify P its)),
                  stored_string (error_r data), stored_string (payer data), Str (now P)]
             \<and> (items data = None \<longrightarrow> i1 = ish)
             \<and> (items data \<noteq> None \<longrightarrow>
                  hd i1 = hd ish
                  \<and> filter (\<lambda>r. \<not> references P (id_r data) r) (tl i1) =
                      filter (\<lambda>r. \<not> references P (id_r data) r) (tl ish)
                  \<and> tl i1 = filter (\<lambda>r. \<not> references P (id_r data) r) (tl ish)
                             @ filter (references P (id_r data)) (tl i1)
                  \<and> map (take 9) (filter (references P (id_r data)) (tl i1)) =
                      map (\<lambda>(k, item).
                             [Str (getUuid P k 0), Str (id_r data), Str (ReceiptItem.name item),
                              Num (ReceiptItem.quantity item), Str (ReceiptItem.unit item),
                              Num (ReceiptItem.unitPrice item),
                              Num (ReceiptItem.totalPrice item),
                              Str (ReceiptItem.category item), Str (now P)])
                        (enumerate 0 (the (items data))))"
      unfolding save by simp
  qed
  from a b show ?thesis by (rule conjI)
qed

lemma example_json:
  "items example_saved = Some example_items"
  "JSON_parse example_platform (JSON_stringify example_platform example_items) = Some example_items"
  "startsWith (JSON_stringify example_platform example_items) CHR ''[''"
  "id_r example_saved = ''a''"
  by (simp_all add: example_saved_def example_receipt_def example_platform_def example_items_def
      startsWith_def)

lemma saved_once_headers:
  "has_headers receiptHeaders (fst saved_once)"
  "has_headers itemHeaders (fst (snd saved_once))"
  by (simp_all add: saved_once_eq has_headers_def)

lemma saved_once_references:
  "filter (\<lambda>r. \<not> references example_platform ''a'' r) (tl (fst (snd saved_once))) = []"
  "filter (\<lambda>r. \<not> references example_platform ''zz'' r) (tl (fst (snd saved_once))) =
     tl (fst (snd saved_once))"
  "\<exists>r \<in> set (tl (fst saved_once)). loose_eq example_platform (cell_at r 0) ''a''"
  "\<forall>r \<in> set (tl (fst saved_once)). \<not> loose_eq example_platform (cell_at r 0) ''zz''"
  by (simp_all add: saved_once_eq references_def cell_at_def loose_eq_def example_saved_row)

text \<open>The theorem at the example: the receipt saved into an empty spreadsheet, listed, and saved again.\<close>

theorem save_list_roundtrip_upsert_witness:
  "items example_saved = Some example_items
   \<and> JSON_parse example_platform (JSON_stringify example_platform example_items) = Some example_items
   \<and> startsWith (JSON_stringify example_platform example_items) CHR ''[''
   \<and> snd (snd saved_once) = Inr (Success ''a'' savedMessage)
   \<and> (\<exists>objs. snd (handleGet example_platform
                  (Some \<lparr>Recibos = Some (fst saved_once), Itens = Some (fst (snd saved_once))\<rparr>))
               = Listing objs \<and>
          (\<exists>obj \<in> set objs.
             getProperty obj ''id'' = Some (Cell (Str ''a'')) \<and>
             getProperty obj ''items'' = Some (Items example_items)))
   \<and> has_headers receiptHeaders (fst saved_once)
   \<and> has_headers itemHeaders (fst (snd saved_once))
   \<and> length (fst saved_once) = 2
   \<and> length (fst (handleSaveOrUpdate example_platform (fst saved_once) (fst (snd saved_once))
         example_saved)) = 2
   \<and> length (tl (fst (snd (handleSaveOrUpdate example_platform (fst saved_once)
         (fst (snd saved_once)) example_saved)))) = 2"
proof -
  note T = save_list_roundtrip_upsert [where P = example_platform and P' = example_platform
      and data = example_saved and its = example_items and ss = empty_spreadsheet
      and rs = "fst saved_once" and ish = "fst (snd saved_once)"]
  from T [THEN conjunct1] example_json(1,2,3)
  have a: "snd (snd saved_once) = Inr (Success ''a'' savedMessage)
     \<and> (\<exists>objs. snd (handleGet example_platform
                  (Some \<lparr>Recibos = Some (fst saved_once), Itens = Some (fst (snd saved_once))\<rparr>))
               = Listing objs \<and>
          (\<exists>obj \<in> set objs.
             getProperty obj ''id'' = Some (Cell (Str ''a'')) \<and>
             getProperty obj ''items'' = Some (Items example_items)))"
    by (simp add: saved_once_def [symmetric] split_beta example_json(4))
  define again where "again = handleSaveOrUpdate example_platform (fst saved_once)
      (fst (snd saved_once)) example_saved"
  obtain r1 i1 out where ag: "again = (r1, i1, out)" by (cases again) auto
  note D = T [THEN conjunct2, THEN mp, OF conjI [OF saved_once_headers], folded again_def,
      unfolded ag prod.case example_json(4)]
  have some: "items example_saved \<noteq> None" by (simp add: example_json(1))
  note I = D [THEN conjunct2, THEN conjunct2, THEN conjunct2, THEN conjunct2, THEN mp, OF some]
  have len: "length (fst saved_once) = 2"
    by (simp add: saved_once_eq)
  from D [THEN conjunct2, THEN conjunct1] saved_once_references(3)
  obtain n where "n + 1 < length (fst saved_once)"
    "r1 = (fst saved_once)[n + 1 := saved_row example_platform (fst saved_once) example_saved]"
    by auto
  then have l1: "length r1 = 2" using len by simp
  have "length (map (take 9) (filter (references example_platform ''a'') (tl i1))) = 2"
    unfolding I [THEN conjunct2, THEN conjunct2, THEN conjunct2]
    by (simp add: example_json(1) example_items_def)
  then have "length (filter (references example_platform ''a'') (tl i1)) = 2" by simp
  moreover have "tl i1 = filter (references example_platform ''a'') (tl i1)"
    using I [THEN conjunct2, THEN conjunct2, THEN conjunct1]
    unfolding saved_once_references(1) by simp
  ultimately have l2: "length (tl i1) = 2" by simp
  have "length (fst again) = 2" "length (tl (fst (snd again))) = 2"
    using l1 l2 by (simp_all add: ag)
  then show ?thesis
    using a len example_json(1,2,3) saved_once_headers by (simp add: again_def)
qed


section \<open>Claim C8: idempotent delete\<close>

text \<open>
  Claim C8. Locally, \<open>deleteReceipt\<close> with an id that no record has returns the state
  unchanged (the list and the bridge, so no request is issued), and deleting the same id a
  second time changes nothing more. Remotely, \<open>handleDelete\<close> answers with success
  whether or not the receipts sheet has the id: without a matching row the receipts sheet
  is unchanged, the item rows that reference the id are removed and the others kept, and
  a second delete of the same id succeeds again and leaves the items sheet as it is.
\<close>

theorem delete_idempotent:
  "(find (\<lambda>r. id_r r = i) (receipts s) = None \<longrightarrow> deleteReceipt i s = s)
   \<and> deleteReceipt i (deleteReceipt i s) = deleteReceipt i s
   \<and> (case handleDelete P rs ish i of
        (r1, i1, out) \<Rightarrow>
          out = Success i deletedMessage
          \<and> ((\<forall>r \<in> set (tl rs). \<not> loose_eq P (cell_at r 0) i) \<longrightarrow> r1 = rs)
          \<and> (has_headers itemHeaders ish \<longrightarrow>
                i1 = hd ish # filter (\<lambda>r. \<not> references P i r) (tl ish))
          \<and> (case handleDelete P r1 i1 i of
                (r2, i2, out2) \<Rightarrow>
                  out2 = Success i deletedMessage
                  \<and> (has_headers itemHeaders ish \<longrightarrow> i2 = i1)))"
proof -
  have a: "find (\<lambda>r. id_r r = i) (receipts s) = None \<longrightarrow> deleteReceipt i s = s"
    by (simp add: deleteReceipt_def)
  have gone: "find (\<lambda>r. id_r r = i) (filter (\<lambda>r. id_r r \<noteq> i) (receipts s)) = None"
    by (simp add: find_None_iff)
  have b: "deleteReceipt i (deleteReceipt i s) = deleteReceipt i s"
  proof (cases "find (\<lambda>r. id_r r = i) (receipts s)")
    case None
    then show ?thesis by (simp add: deleteReceipt_def)
  next
    case (Some r)
    then have "receipts (deleteReceipt i s) = filter (\<lambda>r. id_r r \<noteq> i) (receipts s)"
      by (simp add: deleteReceipt_def Let_def)
    with gone have "find (\<lambda>r. id_r r = i) (receipts (deleteReceipt i s)) = None" by simp
    then show ?thesis by (simp add: deleteReceipt_def [of i "deleteReceipt i s"])
  qed
  define r1 where "r1 = (if findRowById P rs i 1 > 0 then deleteRow rs (nat (findRowById P rs i 1))
     else rs)"
  define i1 where "i1 = deleteItemsByReceiptId P ish i"
  have d1: "handleDelete P rs ish i = (r1, i1, Success i deletedMessage)"
    by (simp add: handleDelete_def Let_def r1_def i1_def)
  obtain r2 i2 where d2: "handleDelete P r1 i1 i = (r2, i2, Success i deletedMessage)"
    and i2: "i2 = deleteItemsByReceiptId P i1 i"
    by (simp add: handleDelete_def Let_def)
  have absent: "(\<forall>r \<in> set (tl rs). \<not> loose_eq P (cell_at r 0) i) \<longrightarrow> r1 = rs"
  proof
    assume no: "\<forall>r \<in> set (tl rs). \<not> loose_eq P (cell_at r 0) i"
    from findRowById_cases [of P rs i 1]
    have "findRowById P rs i 1 = - 1"
    proof
      assume "findRowById P rs i 1 = - 1 \<and> (\<forall>r\<in>set (tl rs). \<not> loose_eq P (cell_at r (1 - 1)) i)"
      then show ?thesis by simp
    next
      assume "\<exists>n. findRowById P rs i 1 = int n + 2 \<and> n + 1 < length rs \<and>
         loose_eq P (cell_at (rs ! (n + 1)) (1 - 1)) i \<and>
         (\<forall>j<n. \<not> loose_eq P (cell_at (rs ! (j + 1)) (1 - 1)) i)"
      then obtain n where n: "n + 1 < length rs" "loose_eq P (cell_at (rs ! (n + 1)) 0) i"
        by auto
      from n(1) have "rs ! (n + 1) \<in> set (tl rs)"
        by (cases rs) auto
      with no n(2) show ?thesis by blast
    qed
    then show "r1 = rs" by (simp add: r1_def)
  qed
  have items: "has_headers itemHeaders ish \<longrightarrow>
      i1 = hd ish # filter (\<lambda>r. \<not> references P i r) (tl ish)"
    using deleteItemsByReceiptId_filter [of ish P i] by (simp add: i1_def references_def)
  have again: "has_headers itemHeaders ish \<longrightarrow> i2 = i1"
  proof
    assume hi: "has_headers itemHeaders ish"
    with items have eq: "i1 = hd ish # filter (\<lambda>r. \<not> references P i r) (tl ish)" by simp
    have "has_headers itemHeaders i1"
      unfolding eq by (rule has_headers_filter [OF hi])
    from deleteItemsByReceiptId_filter [OF this, of P i]
    show "i2 = i1" by (simp add: i2 eq references_def)
  qed
  from a b absent items again show ?thesis
    by (simp add: d1 d2)
qed

text \<open>The theorem at the example: an absent id and the saved one.\<close>

theorem delete_idempotent_witness:
  "find (\<lambda>r. id_r r = ''zz'') (receipts (completed_state unconfigured)) = None
   \<and> deleteReceipt ''zz'' (completed_state unconfigured) = completed_state unconfigured
   \<and> snd (snd (handleDelete example_platform (fst saved_once) (fst (snd saved_once)) ''zz''))
       = Success ''zz'' deletedMessage
   \<and> fst (handleDelete example_platform (fst saved_once) (fst (snd saved_once)) ''zz'')
       = fst saved_once
   \<and> fst (snd (handleDelete example_platform (fst saved_once) (fst (snd saved_once)) ''zz''))
       = fst (snd saved_once)
   \<and> fst (snd (handleDelete example_platform (fst saved_once) (fst (snd saved_once)) ''a''))
       = [itemHeaders]"
proof -
  have h: "find (\<lambda>r. id_r r = ''zz'') (receipts (completed_state unconfigured)) = None"
    by (simp add: completed_state_unconfigured example_receipt_def)
  note T = delete_idempotent [where P = example_platform and rs = "fst saved_once"
      and ish = "fst (snd saved_once)" and s = "completed_state unconfigured"]
  from T [where i = "''zz''", THEN conjunct1] h
  have a: "deleteReceipt ''zz'' (completed_state unconfigured) = completed_state unconfigured"
    by blast
  have hd_tl: "itemHeaders # tl (fst (snd saved_once)) = fst (snd saved_once)"
    "hd (fst (snd saved_once)) = itemHeaders"
    by (simp_all add: saved_once_eq)
  from T [where i = "''zz''", THEN conjunct2, THEN conjunct2]
    saved_once_headers(2) saved_once_references(4)
  have b: "snd (snd (handleDelete example_platform (fst saved_once) (fst (snd saved_once)) ''zz''))
       = Success ''zz'' deletedMessage
     \<and> fst (handleDelete example_platform (fst saved_once) (fst (snd saved_once)) ''zz'')
       = fst saved_once
     \<and> fst (snd (handleDelete example_platform (fst saved_once) (fst (snd saved_once)) ''zz''))
       = fst (snd saved_once)"
    by (simp add: split_beta saved_once_references(2) hd_tl)
  from T [where i = "''a''", THEN conjunct2, THEN conjunct2] saved_once_headers(2)
  have c: "fst (snd (handleDelete example_platform (fst saved_once) (fst (snd saved_once)) ''a''))
       = [itemHeaders]"
    by (simp add: split_beta saved_once_references(1) hd_tl)
  from h a b c show ?thesis by blast
qed

section \<open>Claim C9: the shopping-list simulation\<close>

text \<open>
  The scenario of the specification: one product bought once, and asked for.
\<close>

lemma simulateShoppingList_scenario:
  "simulateShoppingList [product ''Leite'' [purchase_at ''A'' 5]] [''Leite''] =
     [\<lparr>SimulationResult.storeName = ''A'', total = 5, foundItems = 1, missingItems = []\<rparr>]"
  by code_simp

text \<open>
  Two stores and three wishes: the first listed price of a store counts, a store with more
  of the wishes comes first, and the missing wishes keep the spelling of the request.
\<close>

lemma simulateShoppingList_first_price_and_ranking:
  "simulateShoppingList
     [product ''Leite'' [purchase_at ''A'' 5, purchase_at ''B'' 4, purchase_at ''A'' 3],
      product ''Pao'' [purchase_at ''B'' 2]]
     [''LEITE'', ''pao '', ''Ovo''] =
     [\<lparr>SimulationResult.storeName = ''B'', total = 6, foundItems = 2, missingItems = [''Ovo'']\<rparr>,
      \<lparr>SimulationResult.storeName = ''A'', total = 5, foundItems = 1,
        missingItems = [''pao '', ''Ovo'']\<rparr>]"
  by code_simp

text \<open>
  Claim C9 fails on names that contain the separator of the keys of \<open>latestPrices\<close>. The
  key is \<open>normalizedName|storeName\<close>, and \<open>key.split('|')\<close> takes the text before the first
  bar for the item and the text between the first two bars for the store. A product
  \<open>Cafe|500g\<close> bought at \<open>Mercado\<close> is reported for a store \<open>500g\<close>, counted as found and
  listed as missing at once; a store \<open>Loja A|Centro\<close> is reported as \<open>Loja A\<close>; two products
  of one store are split over two stores that do not exist.
\<close>

theorem simulateShoppingList_separator_collision:
  "simulateShoppingList [product ''Cafe|500g'' [purchase_at ''Mercado'' 5]] [''Cafe|500g''] =
     [\<lparr>SimulationResult.storeName = ''500g'', total = 5, foundItems = 1,
        missingItems = [''Cafe|500g'']\<rparr>]
   \<and> simulateShoppingList [product ''Leite'' [purchase_at ''Loja A|Centro'' 5]] [''Leite''] =
     [\<lparr>SimulationResult.storeName = ''Loja A'', total = 5, foundItems = 1, missingItems = []\<rparr>]
   \<and> simulateShoppingList
         [product ''Cha|Verde'' [purchase_at ''A'' 3], product ''Cha|Preto'' [purchase_at ''A'' 4]]
         [''Cha|Verde'', ''Cha|Preto''] =
     [\<lparr>SimulationResult.storeName = ''verde'', total = 3, foundItems = 1,
        missingItems = [''Cha|Verde'', ''Cha|Preto'']\<rparr>,
      \<lparr>SimulationResult.storeName = ''preto'', total = 4, foundItems = 1,
        missingItems = [''Cha|Verde'', ''Cha|Preto'']\<rparr>]"
  by code_simp

section \<open>Claim C10: url edits bypass the uniqueness check\<close>

text \<open>
  Claim C10. \<open>updateReceiptUrl(id, newUrl)\<close> replaces the url of the records with that id
  and nothing else: every other field, every other record, the bridge (no request is
  issued) and the flags stay as they were. It checks no duplicate: when another record
  already carries \<open>newUrl\<close>, two records of the result share it, so the distinctness of
  urls that \<open>addReceipt\<close> maintains is lost, and there is such a state.
\<close>

theorem updateReceiptUrl_bypasses_uniqueness:
  "length (receipts (updateReceiptUrl i newUrl s)) = length (receipts s)
   \<and> (\<forall>n<length (receipts s).
         receipts (updateReceiptUrl i newUrl s) ! n =
           (if id_r (receipts s ! n) = i then (receipts s ! n)\<lparr>url := Some newUrl\<rparr>
            else receipts s ! n))
   \<and> sheetsService (updateReceiptUrl i newUrl s) = sheetsService s
   \<and> isLoading (updateReceiptUrl i newUrl s) = isLoading s
   \<and> isProcessing (updateReceiptUrl i newUrl s) = isProcessing s
   \<and> extracting (updateReceiptUrl i newUrl s) = extracting s
   \<and> (\<forall>n m. n < length (receipts s) \<and> m < length (receipts s) \<and> id_r (receipts s ! n) = i \<and>
         id_r (receipts s ! m) \<noteq> i \<and> url (receipts s ! m) = Some newUrl \<longrightarrow>
         n \<noteq> m \<and> url (receipts (updateReceiptUrl i newUrl s) ! n) = Some newUrl
         \<and> url (receipts (updateReceiptUrl i newUrl s) ! m) = Some newUrl
         \<and> \<not> distinct (urls_of (receipts (updateReceiptUrl i newUrl s))))
   \<and> (\<exists>s0 i0 u0. distinct (urls_of (receipts s0)) \<and> u0 \<noteq> [] \<and>
         \<not> distinct (urls_of (receipts (updateReceiptUrl i0 u0 s0))))"
proof -
  let ?s' = "updateReceiptUrl i newUrl s"
  have rs: "receipts ?s' = map_by_id i (\<lambda>r. r\<lparr>url := Some newUrl\<rparr>) (receipts s)"
    by (simp add: updateReceiptUrl_def)
  have a: "\<forall>n<length (receipts s).
         receipts ?s' ! n =
           (if id_r (receipts s ! n) = i then (receipts s ! n)\<lparr>url := Some newUrl\<rparr>
            else receipts s ! n)"
    by (simp add: rs map_by_id_nth)
  have b: "sheetsService ?s' = sheetsService s \<and> isLoading ?s' = isLoading s
      \<and> isProcessing ?s' = isProcessing s \<and> extracting ?s' = extracting s"
    by (simp add: updateReceiptUrl_def)
  have c: "\<forall>n m. n < length (receipts s) \<and> m < length (receipts s) \<and> id_r (receipts s ! n) = i \<and>
         id_r (receipts s ! m) \<noteq> i \<and> url (receipts s ! m) = Some newUrl \<longrightarrow>
         n \<noteq> m \<and> url (receipts ?s' ! n) = Some newUrl
         \<and> url (receipts ?s' ! m) = Some newUrl
         \<and> \<not> distinct (urls_of (receipts ?s'))"
  proof (intro allI impI)
    fix n m
    assume h: "n < length (receipts s) \<and> m < length (receipts s) \<and> id_r (receipts s ! n) = i \<and>
         id_r (receipts s ! m) \<noteq> i \<and> url (receipts s ! m) = Some newUrl"
    then have nm: "n \<noteq> m" by auto
    from h have un: "url (receipts ?s' ! n) = Some newUrl"
      by (simp add: rs map_by_id_nth)
    from h have um: "url (receipts ?s' ! m) = Some newUrl"
      by (simp add: rs map_by_id_nth)
    have "\<not> distinct (urls_of (receipts ?s'))"
    proof
      assume "distinct (urls_of (receipts ?s'))"
      from distinct_urls_nth [OF this, of n m newUrl] h nm un um show False
        by (simp add: rs)
    qed
    with nm un um show "n \<noteq> m \<and> url (receipts ?s' ! n) = Some newUrl
         \<and> url (receipts ?s' ! m) = Some newUrl
         \<and> \<not> distinct (urls_of (receipts ?s'))"
      by simp
  qed
  let ?s0 = "addReceipts [(''a'', ''http://x/1''), (''b'', ''http://x/2'')] (new_service unconfigured)"
  have "distinct (urls_of (receipts ?s0)) \<and> ''http://x/1'' \<noteq> [] \<and>
         \<not> distinct (urls_of (receipts (updateReceiptUrl ''b'' ''http://x/1'' ?s0)))"
    by (simp add: addReceipt_receipts new_service_def updateReceiptUrl_def map_by_id_def)
  then have d: "\<exists>s0 i0 u0. distinct (urls_of (receipts s0)) \<and> u0 \<noteq> [] \<and>
         \<not> distinct (urls_of (receipts (updateReceiptUrl i0 u0 s0)))"
    by blast
  from a b c d show ?thesis by (simp add: rs)
qed

text \<open>The theorem at a list of two records, the url of one edited to the other's.\<close>

theorem updateReceiptUrl_bypasses_uniqueness_witness:
  "distinct (urls_of (receipts (addReceipts [(''a'', ''http://x/1''), (''b'', ''http://x/2'')]
       (new_service unconfigured))))
   \<and> map id_r (receipts (addReceipts [(''a'', ''http://x/1''), (''b'', ''http://x/2'')]
       (new_service unconfigured))) = [''b'', ''a'']
   \<and> url (receipts (updateReceiptUrl ''b'' ''http://x/1''
         (addReceipts [(''a'', ''http://x/1''), (''b'', ''http://x/2'')]
            (new_service unconfigured))) ! 0) = Some ''http://x/1''
   \<and> url (receipts (updateReceiptUrl ''b'' ''http://x/1''
         (addReceipts [(''a'', ''http://x/1''), (''b'', ''http://x/2'')]
            (new_service unconfigured))) ! 1) = Some ''http://x/1''
   \<and> \<not> distinct (urls_of (receipts (updateReceiptUrl ''b'' ''http://x/1''
         (addReceipts [(''a'', ''http://x/1''), (''b'', ''http://x/2'')]
            (new_service unconfigured)))))"
proof -
  let ?s = "addReceipts [(''a'', ''http://x/1''), (''b'', ''http://x/2'')] (new_service unconfigured)"
  have h: "distinct (urls_of (receipts ?s))"
    "map id_r (receipts ?s) = [''b'', ''a'']"
    "0 < length (receipts ?s) \<and> 1 < length (receipts ?s) \<and> id_r (receipts ?s ! 0) = ''b'' \<and>
         id_r (receipts ?s ! 1) \<noteq> ''b'' \<and> url (receipts ?s ! 1) = Some ''http://x/1''"
    by (simp_all add: addReceipt_receipts new_service_def)
  from updateReceiptUrl_bypasses_uniqueness [where s = ?s and i = "''b''"
      and newUrl = "''http://x/1''", THEN conjunct2, THEN conjunct2, THEN conjunct2,
      THEN conjunct2, THEN conjunct2, THEN conjunct2, THEN conjunct1, rule_format, OF h(3)]
  have "url (receipts (updateReceiptUrl ''b'' ''http://x/1'' ?s) ! 0) = Some ''http://x/1''
     \<and> url (receipts (updateReceiptUrl ''b'' ''http://x/1'' ?s) ! 1) = Some ''http://x/1''
     \<and> \<not> distinct (urls_of (receipts (updateReceiptUrl ''b'' ''http://x/1'' ?s)))"
    by blast
  with h(1,2) show ?thesis by blast
qed

end
